(* ===== verification/RpcPrelude.thy ===== *)
theory RpcPrelude
  imports Main "HOL-Library.Word" "HOL-Library.FSet" "HOL-Library.Finite_Map"
    "HOL-Library.List_Lexorder" "HOL-Library.Char_ord"
begin

text \<open>
  Shared vocabulary of the development.
  \<^item> A \<^theory_text>\<open>std::map\<close> keyed by strings is a finite map (\<open>fmap\<close>), a \<^theory_text>\<open>std::set\<close> of
    strings is a finite set (\<open>fset\<close>); both are walked in ascending key order, which
    \<open>fmap_list\<close> and \<open>fset_list\<close> compute. The lemmas below give the simplifier what it
    needs to evaluate such walks and to reason about them.
  \<^item> \<open>i64\<close> writes out the two's complement range of \<^theory_text>\<open>int64_t\<close>; every sum and difference
    of block numbers goes through it.
  \<^item> A C++ function that may throw returns \<open>exn + 'a\<close>, with \<open>rbind\<close> for sequencing.
  \<^item> The locales \<open>history_invariant\<close> and \<open>step_invariant\<close> are the proof principle for
    the step relations of the stateful components.
\<close>

named_theorems rpc_defs \<open>definitions of handlers, unfolded to evaluate concrete runs\<close>
named_theorems frame \<open>fields that an operation leaves unchanged\<close>

subsection \<open>Machine integers\<close>

definition i64 :: "int \<Rightarrow> int" where
  "i64 x = (x + 2 ^ 63) mod 2 ^ 64 - 2 ^ 63"

definition in_i64 :: "int \<Rightarrow> bool" where
  "in_i64 x \<longleftrightarrow> - (2 ^ 63) \<le> x \<and> x < 2 ^ 63"

lemma i64_id [simp]: "in_i64 x \<Longrightarrow> i64 x = x"
  by (simp add: i64_def in_i64_def)

lemma in_i64_i64 [simp]: "in_i64 (i64 x)"
  by (simp add: i64_def in_i64_def)

lemma i64_between: "- (2 ^ 63) \<le> x \<Longrightarrow> x < 2 ^ 63 \<Longrightarrow> i64 x = x"
  by (simp add: in_i64_def)

subsection \<open>Exceptions as values\<close>

datatype exn =
    JsonRpcException int string   \<comment> \<open>the class of jsonrpc/Common.h: code and message\<close>
  | StdException string           \<comment> \<open>any other \<^theory_text>\<open>std::exception\<close>, with its \<^theory_text>\<open>what()\<close>\<close>

definition rbind :: "'e + 'a \<Rightarrow> ('a \<Rightarrow> 'e + 'b) \<Rightarrow> 'e + 'b" where
  "rbind m f = (case m of Inl e \<Rightarrow> Inl e | Inr x \<Rightarrow> f x)"

lemma rbind_simps [simp]:
  "rbind (Inl e) f = Inl e" "rbind (Inr x) f = f x"
  by (simp_all add: rbind_def)

lemma rbind_assoc: "rbind (rbind m f) g = rbind m (\<lambda>x. rbind (f x) g)"
  by (cases m) simp_all

lemma rbind_Inr_iff: "rbind m f = Inr y \<longleftrightarrow> (\<exists>x. m = Inr x \<and> f x = Inr y)"
  by (cases m) auto

lemma rbind_Inl_iff: "rbind m f = Inl e \<longleftrightarrow> m = Inl e \<or> (\<exists>x. m = Inr x \<and> f x = Inl e)"
  by (cases m) auto

lemma rbind_cong [fundef_cong]:
  "m = m' \<Longrightarrow> (\<And>x. m' = Inr x \<Longrightarrow> f x = g x) \<Longrightarrow> rbind m f = rbind m' g"
  by (cases m') auto

text \<open>A loop over a list whose body may throw.\<close>

fun rfold :: "('a \<Rightarrow> 's \<Rightarrow> 'e + 's) \<Rightarrow> 'a list \<Rightarrow> 's \<Rightarrow> 'e + 's" where
  "rfold f [] s = Inr s"
| "rfold f (x # xs) s = rbind (f x s) (rfold f xs)"

lemma rfold_append: "rfold f (xs @ ys) s = rbind (rfold f xs s) (rfold f ys)"
  by (induction xs arbitrary: s) (auto simp: rbind_def split: sum.split)

lemma rfold_pure:
  "(\<And>x s. x \<in> set xs \<Longrightarrow> f x s = Inr (g x s)) \<Longrightarrow> rfold f xs s = Inr (fold g xs s)"
  by (induction xs arbitrary: s) auto

lemma rfold_invariant:
  assumes "rfold f xs s = Inr t" and "P s"
    and "\<And>x s t. x \<in> set xs \<Longrightarrow> f x s = Inr t \<Longrightarrow> P s \<Longrightarrow> P t"
  shows "P t"
  using assms by (induction xs arbitrary: s) (auto simp: rbind_Inr_iff)

text \<open>
  The parsers of the program are \<^theory_text>\<open>do { ... break; ... } while (0)\<close> inside a
  \<^theory_text>\<open>try\<close>: they throw, break off with an error message, or succeed.
\<close>

type_synonym 'a attempt = "exn + (string + 'a)"

definition attempt_value :: "'a attempt \<Rightarrow> 'a option" where
  "attempt_value a = (case a of Inr (Inr x) \<Rightarrow> Some x | _ \<Rightarrow> None)"

lemma attempt_value_simps [simp]:
  "attempt_value (Inl e) = None" "attempt_value (Inr (Inl m)) = None"
  "attempt_value (Inr (Inr x)) = Some x"
  by (simp_all add: attempt_value_def)

lemma attempt_value_Some [simp]: "attempt_value a = Some x \<longleftrightarrow> a = Inr (Inr x)"
  by (cases a; cases "projr a") auto

subsection \<open>Association lists\<close>

lemma map_of_filter_key:
  "map_of (filter (\<lambda>p. fst p \<noteq> k) xs) k' = (if k' = k then None else map_of xs k')"
  by (induction xs) auto

lemma map_of_insort_key:
  "k \<notin> fst ` set xs \<Longrightarrow> map_of (insort_key fst (k, v) xs) = (map_of xs)(k \<mapsto> v)"
  by (induction xs) (auto simp: fun_eq_iff)

subsection \<open>Walking a std::set and a std::map\<close>

definition fset_list :: "'a::linorder fset \<Rightarrow> 'a list" where
  "fset_list A = sorted_list_of_fset A"

lemma set_fset_list [simp]: "set (fset_list A) = fset A"
  by (simp add: fset_list_def)

lemma sorted_fset_list [simp]: "sorted (fset_list A)"
  by (simp add: fset_list_def sorted_list_of_fset.rep_eq)

lemma distinct_fset_list [simp]: "distinct (fset_list A)"
  by (simp add: fset_list_def sorted_list_of_fset.rep_eq)

lemma fset_list_empty [simp]: "fset_list {||} = []"
  by (simp add: fset_list_def sorted_list_of_fset.rep_eq)

lemma fset_list_insert [simp]:
  "fset_list (finsert x A) = (if x |\<in>| A then fset_list A else insort x (fset_list A))"
  by (cases "x |\<in>| A")
    (auto simp: fset_list_def sorted_list_of_fset.rep_eq finsert_absorb)

lemma fset_of_list_fset_list [simp]: "fset_of_list (fset_list A) = A"
  by (simp add: fset_list_def)

lemma fimage_fixed: "(\<And>a. a |\<in>| A \<Longrightarrow> g a = a) \<Longrightarrow> g |`| A = A"
  by force

lemma length_fset_list [simp]: "length (fset_list A) = fcard A"
  by (metis distinct_card distinct_fset_list fcard.rep_eq set_fset_list)

lemma fset_list_eq_Nil [simp]: "fset_list A = [] \<longleftrightarrow> A = {||}"
  by (metis fset_list_empty set_fset_list fset_inject bot_fset.rep_eq set_empty)

definition fmap_list :: "('k::linorder, 'v) fmap \<Rightarrow> ('k \<times> 'v) list" where
  "fmap_list m = sorted_list_of_fmap m"

lemma map_fst_fmap_list [simp]: "map fst (fmap_list m) = fset_list (fmdom m)"
  by (simp add: fmap_list_def sorted_list_of_fmap_def fset_list_def comp_def)

lemma length_fmap_list [simp]: "length (fmap_list m) = fcard (fmdom m)"
  by (metis length_fset_list length_map map_fst_fmap_list)

lemma map_of_fmap_list [simp]: "map_of (fmap_list m) = fmlookup m"
  by (simp add: fmap_list_def)

lemma distinct_fst_fmap_list [simp]: "distinct (map fst (fmap_list m))"
  by simp

lemma in_fmap_list_iff [simp]: "(k, v) \<in> set (fmap_list m) \<longleftrightarrow> fmlookup m k = Some v"
  by (metis distinct_fst_fmap_list map_of_fmap_list map_of_eq_Some_iff)

lemma fmap_list_empty [simp]: "fmap_list fmempty = []"
  by (simp add: fmap_list_def sorted_list_of_fmap_def fset_list_def[symmetric])

lemma fmap_list_eqI:
  assumes "sorted (map fst xs)" and d: "distinct (map fst xs)" and "map_of xs = fmlookup m"
  shows "fmap_list m = xs"
proof -
  have "set (fmap_list m) = set xs"
    using assms(3) by (metis d distinct_fst_fmap_list map_of_fmap_list set_map_of_compr)
  moreover have "inj_on fst (set xs)"
    using d by (simp add: distinct_map)
  ultimately show ?thesis
    using assms by (intro map_sorted_distinct_set_unique [where f = fst]) simp_all
qed

lemma fmap_list_drop [simp]:
  "fmap_list (fmdrop k m) = filter (\<lambda>p. fst p \<noteq> k) (fmap_list m)"
proof (rule fmap_list_eqI)
  show "sorted (map fst (filter (\<lambda>p. fst p \<noteq> k) (fmap_list m)))"
    by (intro sorted_filter) simp
  show "distinct (map fst (filter (\<lambda>p. fst p \<noteq> k) (fmap_list m)))"
    by (intro distinct_map_filter) simp
  show "map_of (filter (\<lambda>p. fst p \<noteq> k) (fmap_list m)) = fmlookup (fmdrop k m)"
    by (auto simp: fun_eq_iff map_of_filter_key)
qed

lemma fmap_list_upd [simp]:
  "fmap_list (fmupd k v m) = insort_key fst (k, v) (filter (\<lambda>p. fst p \<noteq> k) (fmap_list m))"
proof (rule fmap_list_eqI)
  let ?xs = "filter (\<lambda>p. fst p \<noteq> k) (fmap_list m)"
  have xs: "sorted (map fst ?xs)" "distinct (map fst ?xs)" "k \<notin> fst ` set ?xs"
    using fmap_list_drop [of k m] by (metis map_fst_fmap_list sorted_fset_list,
      metis map_fst_fmap_list distinct_fset_list, auto)
  then show "sorted (map fst (insort_key fst (k, v) ?xs))"
    by (simp add: sorted_insort_key)
  from xs show "distinct (map fst (insort_key fst (k, v) ?xs))"
    by (simp add: distinct_insort_key)
  from xs show "map_of (insort_key fst (k, v) ?xs) = fmlookup (fmupd k v m)"
    by (auto simp: map_of_insort_key fun_eq_iff map_of_filter_key)
qed

lemma set_fmap_list: "set (fmap_list m) = {(k, v). fmlookup m k = Some v}"
  by auto

lemma fmlookup_None_iff: "fmlookup m k = None \<longleftrightarrow> k |\<notin>| fmdom m"
  by (metis fmdom_notD fmdom_notI)

text \<open>
  A loop over a map whose body only touches the part of the state that belongs to the
  current key acts on each part separately.
\<close>

lemma fold_pointwise:
  assumes "distinct (map fst xs)" and "P s"
    and "\<And>k v s. (k, v) \<in> set xs \<Longrightarrow> P s \<Longrightarrow> P (f (k, v) s)"
    and "\<And>k v s k'. (k, v) \<in> set xs \<Longrightarrow> P s \<Longrightarrow> k' \<noteq> k \<Longrightarrow> get (f (k, v) s) k' = get s k'"
    and "\<And>k v s. (k, v) \<in> set xs \<Longrightarrow> P s \<Longrightarrow> get (f (k, v) s) k = F k v (get s k)"
  shows "get (fold f xs s) k = (case map_of xs k of None \<Rightarrow> get s k | Some v \<Rightarrow> F k v (get s k))"
  using assms
proof (induction xs arbitrary: s)
  case (Cons kv xs)
  obtain k' v' where kv: "kv = (k', v')" by fastforce
  have IH: "get (fold f xs (f kv s)) k =
      (case map_of xs k of None \<Rightarrow> get (f kv s) k | Some v \<Rightarrow> F k v (get (f kv s) k))"
    by (rule Cons.IH) (use Cons.prems kv in auto)
  show ?case
  proof (cases "k = k'")
    case True
    with Cons.prems(1) have "map_of xs k = None"
      by (auto simp: kv map_of_eq_None_iff)
    with IH True Cons.prems(2) Cons.prems(5) [of k' v' s] show ?thesis
      by (simp add: kv)
  next
    case False
    with IH Cons.prems(2) Cons.prems(4) [of k' v' s k] show ?thesis
      by (auto simp: kv split: option.split)
  qed
qed simp

lemma fold_keeps:
  "P s \<Longrightarrow> (\<And>x s. x \<in> set xs \<Longrightarrow> P s \<Longrightarrow> P (f x s)) \<Longrightarrow> P (fold f xs s)"
  by (induction xs arbitrary: s) auto

lemma fmlookup_fold_fmdrop:
  "fmlookup (fold fmdrop xs m) n = (if n \<in> set xs then None else fmlookup m n)"
  by (induction xs arbitrary: m) auto

lemma fold_fmdrop_fset: "fold fmdrop (fset_list B) m = fmdrop_fset B m"
  by (rule fmap_ext) (simp add: fmlookup_fold_fmdrop)

lemma fold_fminus: "fold (\<lambda>n A. A |-| {|n|}) xs A = A |-| fset_of_list xs"
  by (induction xs arbitrary: A) auto

lemma fcard_fmdom_0 [simp]: "fcard (fmdom m) = 0 \<longleftrightarrow> m = fmempty"
  by (metis fcard_0_eq fmdom_empty fmempty_lookup fmap_ext fmdom_notD fempty_iff)

subsection \<open>Runs of a step relation and their invariants\<close>

inductive run :: "('s \<Rightarrow> 'e \<Rightarrow> 's \<Rightarrow> bool) \<Rightarrow> 's \<Rightarrow> 'e list \<Rightarrow> 's \<Rightarrow> bool"
  for step :: "'s \<Rightarrow> 'e \<Rightarrow> 's \<Rightarrow> bool" and s :: 's where
  run_nil: "run step s [] s"
| run_snoc: "run step s es t \<Longrightarrow> step t e u \<Longrightarrow> run step s (es @ [e]) u"

lemma run_mono:
  assumes "run step s es t" and "\<And>s e t. step s e t \<Longrightarrow> step' s e t"
  shows "run step' s es t"
  using assms by (induction rule: run.induct) (auto intro: run.intros)

lemma run_append:
  assumes "run step s es t" and "run step t fs u" shows "run step s (es @ fs) u"
  using assms(2,1)
proof (induction rule: run.induct)
  case (run_snoc fs u e v)
  then show ?case using run.run_snoc [of step s "es @ fs" u e v] by simp
qed simp

lemma run_Cons:
  assumes "step s e t" and "run step t es u" shows "run step s (e # es) u"
  using run_append [OF _ assms(2), of s "[e]"] run_snoc [of step s "[]" s e t] assms(1)
  by (simp add: run_nil)

text \<open>
  A history invariant relates the events so far to the state reached; a state invariant is
  the special case that ignores the history.
\<close>

locale history_invariant =
  fixes step :: "'s \<Rightarrow> 'e \<Rightarrow> 's \<Rightarrow> bool"
    and init :: 's
    and hinv :: "'e list \<Rightarrow> 's \<Rightarrow> bool"
  assumes hinv_init: "hinv [] init"
    and hinv_step: "hinv es s \<Longrightarrow> step s e t \<Longrightarrow> hinv (es @ [e]) t"
begin

lemma run_hinv:
  assumes "run step init es t" shows "hinv es t"
  using assms
proof (induction es t rule: run.induct)
  case run_nil
  show ?case by (rule hinv_init)
next
  case (run_snoc es t e u)
  then show ?case by (blast intro: hinv_step)
qed

end

locale step_invariant =
  fixes step :: "'s \<Rightarrow> 'e \<Rightarrow> 's \<Rightarrow> bool"
    and init :: 's
    and inv :: "'s \<Rightarrow> bool"
  assumes inv_init: "inv init"
    and inv_step: "inv s \<Longrightarrow> step s e t \<Longrightarrow> inv t"

sublocale step_invariant \<subseteq> history_invariant step init "\<lambda>_. inv"
  by unfold_locales (auto intro: inv_init inv_step)

context step_invariant
begin

lemma run_inv: "run step init es t \<Longrightarrow> inv t"
  by (rule run_hinv)

end

end
