(* ===== verification/JsonLib.thy ===== *)
theory JsonLib
  imports RpcPrelude
begin

text \<open>
  The JSON values the program handles, and the interface of the jsoncpp library.

  \<^item> \<open>json\<close> has one constructor per kind of \<^theory_text>\<open>Json::Value\<close>; a double is kept as its
    64-bit pattern, an object as a finite map. The program builds values with the
    constructors and with assignments \<^theory_text>\<open>v["key"] = w\<close>, which \<open>jassign\<close> performs in order.
  \<^item> Reading a value, parsing and printing are jsoncpp's. They are the fields of the record
    \<open>jsoncpp\<close>, a parameter of every definition that uses them; each reader may throw. What
    the program relies on is \<open>jsoncpp_ok\<close>: membership and access on objects, access and
    size on arrays, and the conversions of a value to its own kind. Nothing is assumed of
    conversions between kinds, of access to a value of the wrong kind, or of the parser.
  \<^item> \<open>ref_jsoncpp\<close> is one instance, which shows the assumptions can hold.
\<close>

subsection \<open>Values\<close>

datatype json =
    JNull
  | JInt int
  | JUInt nat
  | JReal "64 word"
  | JString string
  | JBool bool
  | JArray "json list"
  | JObject "(string, json) fmap"

type_synonym jobject = "(string, json) fmap"

definition isNull :: "json \<Rightarrow> bool" where
  "isNull v \<longleftrightarrow> v = JNull"

definition isArray :: "json \<Rightarrow> bool" where
  "isArray v \<longleftrightarrow> (case v of JArray _ \<Rightarrow> True | _ \<Rightarrow> False)"

lemma json_kind_simps [simp]:
  "isNull JNull" "\<not> isNull (JString s)" "\<not> isNull (JArray xs)" "\<not> isNull (JObject f)"
  "isArray (JArray xs)" "\<not> isArray JNull" "\<not> isArray (JString s)" "\<not> isArray (JObject f)"
  by (simp_all add: isNull_def isArray_def)

definition jassign :: "(string \<times> json) list \<Rightarrow> jobject \<Rightarrow> jobject" where
  "jassign kvs f = fold (\<lambda>(k, v). fmupd k v) kvs f"

lemma jassign_simps [simp]:
  "jassign [] f = f" "jassign ((k, v) # kvs) f = jassign kvs (fmupd k v f)"
  by (simp_all add: jassign_def)

lemma jassign_append [simp]: "jassign (xs @ ys) f = jassign ys (jassign xs f)"
  by (simp add: jassign_def)

lemma fmlookup_jassign_notin:
  "k \<notin> fst ` set kvs \<Longrightarrow> fmlookup (jassign kvs f) k = fmlookup f k"
  by (induction kvs arbitrary: f) auto

subsection \<open>The library\<close>

record jsoncpp =
  jparse :: "string \<Rightarrow> exn + json option"        \<comment> \<open>\<^theory_text>\<open>Reader::parse\<close>; \<open>None\<close> when it returns false\<close>
  jwrite :: "json \<Rightarrow> string"                    \<comment> \<open>\<^theory_text>\<open>FastWriter::write\<close>\<close>
  jstyled :: "json \<Rightarrow> string"                   \<comment> \<open>\<^theory_text>\<open>toStyledString\<close>\<close>
  jisMember :: "json \<Rightarrow> string \<Rightarrow> exn + bool"
  jmember :: "json \<Rightarrow> string \<Rightarrow> exn + json"      \<comment> \<open>\<^theory_text>\<open>operator[]\<close> on a key\<close>
  jindex :: "json \<Rightarrow> nat \<Rightarrow> exn + json"          \<comment> \<open>\<^theory_text>\<open>operator[]\<close> on an array index\<close>
  jsize :: "json \<Rightarrow> nat"
  jasString :: "json \<Rightarrow> exn + string"
  jasInt64 :: "json \<Rightarrow> exn + int"
  jasInt :: "json \<Rightarrow> exn + int"
  jasBool :: "json \<Rightarrow> exn + bool"

definition in_i32 :: "int \<Rightarrow> bool" where
  "in_i32 x \<longleftrightarrow> - (2 ^ 31) \<le> x \<and> x < 2 ^ 31"

definition jsoncpp_ok :: "jsoncpp \<Rightarrow> bool" where
  "jsoncpp_ok J \<longleftrightarrow>
     (\<forall>f k. jisMember J (JObject f) k = Inr (k |\<in>| fmdom f)) \<and>
     (\<forall>f k v. fmlookup f k = Some v \<longrightarrow> jmember J (JObject f) k = Inr v) \<and>
     (\<forall>xs i. i < length xs \<longrightarrow> jindex J (JArray xs) i = Inr (xs ! i)) \<and>
     (\<forall>xs. jsize J (JArray xs) = length xs) \<and>
     (\<forall>s. jasString J (JString s) = Inr s) \<and>
     (\<forall>n. in_i64 n \<longrightarrow> jasInt64 J (JInt n) = Inr n) \<and>
     (\<forall>n. in_i32 n \<longrightarrow> jasInt J (JInt n) = Inr n) \<and>
     (\<forall>b. jasBool J (JBool b) = Inr b)"

definition json_ranged :: "jsoncpp \<Rightarrow> bool" where
  "json_ranged J \<longleftrightarrow> (\<forall>v n. jasInt64 J v = Inr n \<longrightarrow> in_i64 n)"

lemma jsoncpp_okD:
  assumes "jsoncpp_ok J"
  shows ok_isMember: "jisMember J (JObject f) k = Inr (k |\<in>| fmdom f)"
    and ok_member: "fmlookup f k = Some v \<Longrightarrow> jmember J (JObject f) k = Inr v"
    and ok_index: "i < length xs \<Longrightarrow> jindex J (JArray xs) i = Inr (xs ! i)"
    and ok_size: "jsize J (JArray xs) = length xs"
    and ok_asString: "jasString J (JString s) = Inr s"
    and ok_asInt64: "in_i64 n \<Longrightarrow> jasInt64 J (JInt n) = Inr n"
    and ok_asInt: "in_i32 n \<Longrightarrow> jasInt J (JInt n) = Inr n"
    and ok_asBool: "jasBool J (JBool b) = Inr b"
  using assms unfolding jsoncpp_ok_def by blast+

lemmas json_ok = ok_isMember ok_member ok_index ok_size ok_asString ok_asInt64 ok_asInt ok_asBool

text \<open>
  The two reading idioms of the parsers: a field that must be there, else the parser
  breaks off with a message; and a field that is read only when it is there.
\<close>

definition required :: "jsoncpp \<Rightarrow> json \<Rightarrow> string \<Rightarrow> string \<Rightarrow> (json \<Rightarrow> 'a attempt) \<Rightarrow> 'a attempt" where
  "required J root k msg f =
     rbind (jisMember J root k) (\<lambda>b. if b then rbind (jmember J root k) f else Inr (Inl msg))"

definition optional :: "jsoncpp \<Rightarrow> json \<Rightarrow> string \<Rightarrow> (json \<Rightarrow> exn + 's) \<Rightarrow> 's \<Rightarrow> exn + 's" where
  "optional J root k f s =
     rbind (jisMember J root k) (\<lambda>b. if b then rbind (jmember J root k) f else Inr s)"

lemma required_object:
  assumes "jsoncpp_ok J"
  shows "required J (JObject f) k msg g =
           (case fmlookup f k of None \<Rightarrow> Inr (Inl msg) | Some v \<Rightarrow> g v)"
  using assms by (auto simp: required_def json_ok fmlookup_dom_iff split: option.splits)

lemma optional_object:
  assumes "jsoncpp_ok J"
  shows "optional J (JObject f) k g s =
           (case fmlookup f k of None \<Rightarrow> Inr s | Some v \<Rightarrow> g v)"
  using assms by (auto simp: optional_def json_ok fmlookup_dom_iff split: option.splits)

lemma required_success:
  "required J root k msg f = Inr (Inr x) \<longleftrightarrow>
     jisMember J root k = Inr True \<and> (\<exists>v. jmember J root k = Inr v \<and> f v = Inr (Inr x))"
  by (auto simp: required_def rbind_Inr_iff split: if_splits)

lemma rfold_JArray:
  assumes "jsoncpp_ok J"
  shows "rfold (\<lambda>i s. rbind (jindex J (JArray xs) i) (\<lambda>v. g i v s)) [0..<jsize J (JArray xs)] s
           = rfold (\<lambda>(i, v) s. g i v s) (enumerate 0 xs) s"
proof -
  have "rfold (\<lambda>i s. rbind (jindex J (JArray xs) i) (\<lambda>v. g i v s)) [0..<n] s
          = rfold (\<lambda>(i, v) s. g i v s) (enumerate 0 (take n xs)) s" if "n \<le> length xs" for n
    using that
  proof (induction n)
    case (Suc n)
    then show ?case
      by (simp add: rfold_append take_Suc_conv_app_nth enumerate_append_eq
          ok_index [OF assms] cong: rbind_cong)
  qed simp
  from this [of "length xs"] show ?thesis
    by (simp add: ok_size [OF assms])
qed

subsection \<open>An instance\<close>

definition ref_jsoncpp :: "(string \<Rightarrow> exn + json option) \<Rightarrow> (json \<Rightarrow> string) \<Rightarrow> jsoncpp" where
  "ref_jsoncpp p w =
     \<lparr>jparse = p, jwrite = w, jstyled = w,
      jisMember = (\<lambda>v k. case v of JObject f \<Rightarrow> Inr (k |\<in>| fmdom f) | JNull \<Rightarrow> Inr False
                    | _ \<Rightarrow> Inl (StdException ''requires objectValue or nullValue'')),
      jmember = (\<lambda>v k. case v of
                      JObject f \<Rightarrow> Inr (case fmlookup f k of None \<Rightarrow> JNull | Some w \<Rightarrow> w)
                    | JNull \<Rightarrow> Inr JNull
                    | _ \<Rightarrow> Inl (StdException ''requires objectValue'')),
      jindex = (\<lambda>v i. case v of
                      JArray xs \<Rightarrow> Inr (if i < length xs then xs ! i else JNull)
                    | JNull \<Rightarrow> Inr JNull
                    | _ \<Rightarrow> Inl (StdException ''requires arrayValue'')),
      jsize = (\<lambda>v. case v of JArray xs \<Rightarrow> length xs | JObject f \<Rightarrow> fcard (fmdom f) | _ \<Rightarrow> 0),
      jasString = (\<lambda>v. case v of JString s \<Rightarrow> Inr s | JNull \<Rightarrow> Inr ''''
                    | _ \<Rightarrow> Inl (StdException ''Type is not convertible to string'')),
      jasInt64 = (\<lambda>v. case v of JInt n \<Rightarrow>
                      if in_i64 n then Inr n else Inl (StdException ''LargestInt out of Int64 range'')
                    | JNull \<Rightarrow> Inr 0
                    | _ \<Rightarrow> Inl (StdException ''Value is not convertible to Int64.'')),
      jasInt = (\<lambda>v. case v of JInt n \<Rightarrow>
                      if in_i32 n then Inr n else Inl (StdException ''LargestInt out of Int range'')
                    | JNull \<Rightarrow> Inr 0
                    | _ \<Rightarrow> Inl (StdException ''Value is not convertible to Int.'')),
      jasBool = (\<lambda>v. case v of JBool b \<Rightarrow> Inr b | JNull \<Rightarrow> Inr False
                    | _ \<Rightarrow> Inl (StdException ''Value is not convertible to bool.''))\<rparr>"

lemma ref_jsoncpp_ok [simp]: "jsoncpp_ok (ref_jsoncpp p w)"
  by (simp add: jsoncpp_ok_def ref_jsoncpp_def)

lemma ref_jsoncpp_ranged [simp]: "json_ranged (ref_jsoncpp p w)"
  by (auto simp: json_ranged_def ref_jsoncpp_def in_i64_def split: json.splits if_splits)

lemma ref_jsoncpp_parse [simp]: "jparse (ref_jsoncpp p w) = p"
  by (simp add: ref_jsoncpp_def)

lemma ref_jsoncpp_write [simp]: "jwrite (ref_jsoncpp p w) = w"
  by (simp add: ref_jsoncpp_def)

end
