(* ===== verification/EventParams.thy ===== *)
theory EventParams
  imports JsonLib
begin

text \<open>
  The data of the event subscription module: the enumerations of \<^theory_text>\<open>event/Common.h\<close>, the
  subscription parameters of \<^theory_text>\<open>EventSubParams.h\<close> and the string normalisation that
  \<^theory_text>\<open>EventSubRequest::fromJson\<close> applies to addresses and topics.
\<close>

subsection \<open>Enumerations\<close>

datatype event_message_type = EVENT_SUBSCRIBE | EVENT_UNSUBSCRIBE | EVENT_LOG_PUSH

fun event_message_code :: "event_message_type \<Rightarrow> int" where
  "event_message_code EVENT_SUBSCRIBE = 0x120"
| "event_message_code EVENT_UNSUBSCRIBE = 0x121"
| "event_message_code EVENT_LOG_PUSH = 0x122"

datatype ep_status =
    SUCCESS | PUSH_COMPLETED | INVALID_PARAMS | INVALID_REQUEST | GROUP_NOT_EXIST
  | INVALID_REQUEST_RANGE | INVALID_RESPONSE | REQUST_TIMEOUT | SDK_PERMISSION_DENIED
  | NONEXISTENT_EVENT

fun ep_code :: "ep_status \<Rightarrow> int" where
  "ep_code SUCCESS = 0"
| "ep_code PUSH_COMPLETED = 1"
| "ep_code INVALID_PARAMS = -41000"
| "ep_code INVALID_REQUEST = -41001"
| "ep_code GROUP_NOT_EXIST = -41002"
| "ep_code INVALID_REQUEST_RANGE = -41003"
| "ep_code INVALID_RESPONSE = -41004"
| "ep_code REQUST_TIMEOUT = -41005"
| "ep_code SDK_PERMISSION_DENIED = -41006"
| "ep_code NONEXISTENT_EVENT = -41007"

lemma ep_code_inj: "ep_code a = ep_code b \<Longrightarrow> a = b"
  by (cases a; cases b) simp_all

text \<open>An enum of C++ is ordered by its values.\<close>

instantiation ep_status :: linorder
begin

definition less_eq_ep_status :: "ep_status \<Rightarrow> ep_status \<Rightarrow> bool" where
  "less_eq_ep_status a b \<longleftrightarrow> ep_code a \<le> ep_code b"

definition less_ep_status :: "ep_status \<Rightarrow> ep_status \<Rightarrow> bool" where
  "less_ep_status a b \<longleftrightarrow> ep_code a < ep_code b"

instance
  by standard (auto simp: less_eq_ep_status_def less_ep_status_def intro: ep_code_inj)

end

text \<open>The status codes below \<open>SUCCESS\<close> are exactly the error codes of the module.\<close>

lemma ep_error_iff: "a < SUCCESS \<longleftrightarrow> a \<noteq> SUCCESS \<and> a \<noteq> PUSH_COMPLETED"
  by (cases a) (simp_all add: less_ep_status_def)

definition EVENT_LOG_TOPICS_MAX_INDEX :: nat where
  "EVENT_LOG_TOPICS_MAX_INDEX = 4"

subsection \<open>EventSubParams\<close>

record params =
  m_fromBlock :: int
  m_toBlock :: int
  m_addresses :: "string fset"
  m_topics :: "string fset list"

definition new_params :: params where
  "new_params = \<lparr>m_fromBlock = -1, m_toBlock = -1, m_addresses = {||}, m_topics = []\<rparr>"

definition addAddress :: "string \<Rightarrow> params \<Rightarrow> params" where
  "addAddress a p = p\<lparr>m_addresses := finsert a (m_addresses p)\<rparr>"

text \<open>\<^theory_text>\<open>std::vector::resize\<close> truncates as well as extends.\<close>

definition vresize :: "nat \<Rightarrow> 'a \<Rightarrow> 'a list \<Rightarrow> 'a list" where
  "vresize n d xs = take n xs @ replicate (n - length xs) d"

definition addTopic :: "nat \<Rightarrow> string \<Rightarrow> params \<Rightarrow> bool \<times> params" where
  "addTopic i t p =
     (if i \<ge> EVENT_LOG_TOPICS_MAX_INDEX then (False, p)
      else let ts = vresize (i + 1) {||} (m_topics p)
           in (True, p\<lparr>m_topics := ts[i := finsert t (ts ! i)]\<rparr>))"

lemma length_vresize [simp]: "length (vresize n d xs) = n"
  by (simp add: vresize_def)

lemma vresize_id [simp]: "vresize (length xs) d xs = xs"
  by (simp add: vresize_def)

lemma nth_vresize:
  "i < n \<Longrightarrow> vresize n d xs ! i = (if i < length xs then xs ! i else d)"
  by (auto simp: vresize_def nth_append)

lemma addTopic_accepts: "fst (addTopic i t p) \<longleftrightarrow> i < EVENT_LOG_TOPICS_MAX_INDEX"
  by (simp add: addTopic_def Let_def)

lemma addTopic_frame [simp]:
  "m_fromBlock (snd (addTopic i t p)) = m_fromBlock p"
  "m_toBlock (snd (addTopic i t p)) = m_toBlock p"
  "m_addresses (snd (addTopic i t p)) = m_addresses p"
  by (simp_all add: addTopic_def Let_def)

lemma addTopic_length_le:
  "length (m_topics p) \<le> EVENT_LOG_TOPICS_MAX_INDEX \<Longrightarrow>
   length (m_topics (snd (addTopic i t p))) \<le> EVENT_LOG_TOPICS_MAX_INDEX"
  by (simp add: addTopic_def Let_def)

definition quoted :: "string \<Rightarrow> string" where
  "quoted k = CHR 0x27 # k @ [CHR 0x27]"

subsection \<open>Normalisation of hexadecimal strings\<close>

text \<open>
  \<^theory_text>\<open>s.compare(0, n, lit) == 0\<close> compares the first \<open>n\<close> characters (fewer, if the string
  is shorter) with the whole of \<open>lit\<close>.
\<close>

definition compare0 :: "string \<Rightarrow> nat \<Rightarrow> string \<Rightarrow> bool" where
  "compare0 s n lit \<longleftrightarrow> take n s = lit"

definition tolower :: "char \<Rightarrow> char" where
  "tolower c = (if CHR ''A'' \<le> c \<and> c \<le> CHR ''Z'' then char_of (of_char c + 32 :: nat) else c)"

definition strip_address :: "string \<Rightarrow> string" where
  "strip_address s =
     map tolower (if compare0 s 2 ''0x'' \<or> compare0 s 2 ''0X'' then drop 2 s else s)"

definition strip_topic :: "string \<Rightarrow> string" where
  "strip_topic s =
     map tolower (if compare0 s 2 ''0x'' \<or> compare0 s 2 ''0XC'' then drop 2 s else s)"

lemma tolower_digits [simp]:
  "tolower (CHR ''0'') = CHR ''0''" "tolower (CHR ''x'') = CHR ''x''"
  "tolower (CHR ''X'') = CHR ''x''"
  by (simp_all add: tolower_def) code_simp

text \<open>
  Comparing two characters with three never succeeds, so the second test of the topic
  normalisation is dead code and an upper-case prefix stays.
\<close>

lemma compare0_too_long [simp]: "n < length lit \<Longrightarrow> \<not> compare0 s n lit"
  by (auto simp: compare0_def)

lemma strip_address_prefix:
  "strip_address (CHR ''0'' # CHR ''x'' # s) = map tolower s"
  "strip_address (CHR ''0'' # CHR ''X'' # s) = map tolower s"
  by (simp_all add: strip_address_def compare0_def)

lemma strip_topic_prefix:
  "strip_topic (CHR ''0'' # CHR ''x'' # s) = map tolower s"
  "strip_topic (CHR ''0'' # CHR ''X'' # s) = CHR ''0'' # CHR ''x'' # map tolower s"
  by (simp_all add: strip_topic_def) (simp_all add: compare0_def)

subsection \<open>Trailing empty topic sets\<close>

text \<open>
  A topic position with no topic matches anything, and \<open>addTopic\<close> grows the vector only
  as far as the last position with a topic. \<open>trim\<close> is what such a construction rebuilds.
\<close>

definition trim :: "'a fset list \<Rightarrow> 'a fset list" where
  "trim ts = rev (dropWhile (\<lambda>A. A = {||}) (rev ts))"

lemma trim_Nil [simp]: "trim [] = []"
  by (simp add: trim_def)

lemma trim_snoc [simp]: "trim (ts @ [A]) = (if A = {||} then trim ts else ts @ [A])"
  by (simp add: trim_def)

lemma vresize_trim: "vresize (length ts) {||} (trim ts) = ts"
proof (induction ts rule: rev_induct)
  case (snoc A ts)
  have "length (trim ts) \<le> length ts"
    by (metis trim_def length_rev length_dropWhile_le)
  with snoc show ?case
    by (auto simp: vresize_def Suc_diff_le take_Suc replicate_append_same [symmetric]
        simp flip: append_assoc)
qed (simp add: vresize_def)

lemma nth_trim:
  "i < length (trim ts) \<Longrightarrow> i < length ts \<and> trim ts ! i = ts ! i"
  "i < length ts \<Longrightarrow> length (trim ts) \<le> i \<Longrightarrow> ts ! i = {||}"
proof -
  have le: "length (trim ts) \<le> length ts"
    by (metis trim_def length_rev length_dropWhile_le)
  show "i < length (trim ts) \<Longrightarrow> i < length ts \<and> trim ts ! i = ts ! i"
    using le nth_vresize [of i "length ts" "{||}" "trim ts"] by (simp add: vresize_trim)
  show "i < length ts \<Longrightarrow> length (trim ts) \<le> i \<Longrightarrow> ts ! i = {||}"
    using nth_vresize [of i "length ts" "{||}" "trim ts"] by (simp add: vresize_trim)
qed

end
