(* ===== verification/EventRequest.thy ===== *)
theory EventRequest
  imports EventParams
begin

text \<open>
  \<^theory_text>\<open>EventSubRequest.{h,cpp}\<close> and \<^theory_text>\<open>EventSubResponse.{h,cpp}\<close>: the messages of the
  subscription protocol. \<^theory_text>\<open>fromJson\<close> returns a flag and leaves the object unchanged unless
  it succeeds; an exception inside it is caught and counts as failure. The
  \<^theory_text>\<open>m_state\<close> pointer of a request is \<open>None\<close> while it is null, and printing such a
  request dereferences it: the printed text is then \<open>None\<close> (undefined behaviour).
\<close>

subsection \<open>EventSubUnsubRequest\<close>

record unsub_request =
  rq_id :: string
  rq_group :: string

definition new_unsub_request :: unsub_request where
  "new_unsub_request = \<lparr>rq_id = '''', rq_group = ''''\<rparr>"

definition unsub_generateJson :: "jsoncpp \<Rightarrow> unsub_request \<Rightarrow> string" where
  "unsub_generateJson J r =
     jwrite J (JObject (jassign [(''id'', JString (rq_id r)), (''group'', JString (rq_group r))] fmempty))"

definition parse_id_group :: "jsoncpp \<Rightarrow> json \<Rightarrow> (string \<Rightarrow> string \<Rightarrow> 'a attempt) \<Rightarrow> 'a attempt" where
  "parse_id_group J root f =
     required J root ''id'' (quoted ''id'' @ '' field not exist'') (\<lambda>vid. rbind (jasString J vid) (\<lambda>rid.
     required J root ''group'' (quoted ''group'' @ '' field not exist'') (\<lambda>vg. rbind (jasString J vg) (\<lambda>g.
     f rid g))))"

definition parse_root :: "jsoncpp \<Rightarrow> string \<Rightarrow> string \<Rightarrow> (json \<Rightarrow> 'a attempt) \<Rightarrow> 'a attempt" where
  "parse_root J text msg f =
     rbind (jparse J text) (\<lambda>r. case r of None \<Rightarrow> Inr (Inl msg) | Some root \<Rightarrow> f root)"

definition unsub_fromJson :: "jsoncpp \<Rightarrow> string \<Rightarrow> unsub_request \<Rightarrow> bool \<times> unsub_request" where
  "unsub_fromJson J text r =
     (case attempt_value
        (parse_root J text ''invalid json object, parse request failed'' (\<lambda>root.
           parse_id_group J root (\<lambda>rid g. Inr (Inr (rid, g))))) of
        None \<Rightarrow> (False, r)
      | Some (rid, g) \<Rightarrow> (True, r\<lparr>rq_id := rid, rq_group := g\<rparr>))"

subsection \<open>EventSubRequest\<close>

record event_request = unsub_request +
  rq_params :: "params option"
  rq_state :: "int option"     \<comment> \<open>the current block number of the \<^theory_text>\<open>m_state\<close> object, if any\<close>

definition new_event_request :: event_request where
  "new_event_request = \<lparr>rq_id = '''', rq_group = '''', rq_params = None, rq_state = None\<rparr>"

definition topics_to_json :: "string fset list \<Rightarrow> json" where
  "topics_to_json ts =
     JArray (map (\<lambda>A. if A = {||} then JNull else JArray (map JString (fset_list A))) ts)"

definition request_to_json :: "event_request \<Rightarrow> params \<Rightarrow> int \<Rightarrow> json" where
  "request_to_json r p cur =
     JObject (jassign
       [(''id'', JString (rq_id r)),
        (''group'', JString (rq_group r)),
        (''params'', JObject (jassign
           [(''fromBlock'', JInt (if cur > 0 then i64 (cur + 1) else m_fromBlock p)),
            (''toBlock'', JInt (m_toBlock p)),
            (''addresses'', JArray (map JString (fset_list (m_addresses p)))),
            (''topics'', topics_to_json (m_topics p))] fmempty))] fmempty)"

definition request_generateJson :: "jsoncpp \<Rightarrow> event_request \<Rightarrow> string option" where
  "request_generateJson J r =
     (case (rq_state r, rq_params r) of
        (Some cur, Some p) \<Rightarrow> Some (jwrite J (request_to_json r p cur))
      | _ \<Rightarrow> None)"

definition parse_addresses :: "jsoncpp \<Rightarrow> json \<Rightarrow> params \<Rightarrow> exn + params" where
  "parse_addresses J v p =
     rfold (\<lambda>i p. rbind (jindex J v i) (\<lambda>a.
              rbind (jasString J a) (\<lambda>s. Inr (addAddress (strip_address s) p))))
       [0..<jsize J v] p"

definition parse_topic_array :: "jsoncpp \<Rightarrow> nat \<Rightarrow> json \<Rightarrow> params \<Rightarrow> exn + params" where
  "parse_topic_array J i v p =
     rfold (\<lambda>k p. rbind (jindex J v k) (\<lambda>w.
              rbind (jasString J w) (\<lambda>s. Inr (snd (addTopic i (strip_topic s) p)))))
       [0..<jsize J v] p"

definition parse_topic :: "jsoncpp \<Rightarrow> nat \<Rightarrow> json \<Rightarrow> params \<Rightarrow> exn + params" where
  "parse_topic J i v p =
     (if isNull v then Inr p
      else if isArray v then parse_topic_array J i v p
      else rbind (jasString J v) (\<lambda>s. Inr (snd (addTopic i s p))))"

definition parse_topics :: "jsoncpp \<Rightarrow> json \<Rightarrow> params \<Rightarrow> exn + params" where
  "parse_topics J v p =
     rfold (\<lambda>i p. rbind (jindex J v i) (\<lambda>w. parse_topic J i w p)) [0..<jsize J v] p"

definition parse_params :: "jsoncpp \<Rightarrow> json \<Rightarrow> exn + params" where
  "parse_params J v =
     rbind (optional J v ''fromBlock'' (\<lambda>w.
              rbind (jasInt64 J w) (\<lambda>n. Inr (new_params\<lparr>m_fromBlock := n\<rparr>))) new_params) (\<lambda>p.
     rbind (optional J v ''toBlock'' (\<lambda>w.
              rbind (jasInt64 J w) (\<lambda>n. Inr (p\<lparr>m_toBlock := n\<rparr>))) p) (\<lambda>p.
     rbind (optional J v ''addresses'' (\<lambda>w. parse_addresses J w p) p) (\<lambda>p.
     optional J v ''topics'' (\<lambda>w. parse_topics J w p) p)))"

definition parse_request :: "jsoncpp \<Rightarrow> string \<Rightarrow> (string \<times> string \<times> params) attempt" where
  "parse_request J text =
     parse_root J text ''invalid json object, parse request failed'' (\<lambda>root.
     parse_id_group J root (\<lambda>rid g.
     required J root ''params'' (quoted ''params'' @ '' field not exist'') (\<lambda>v.
     rbind (parse_params J v) (\<lambda>p. Inr (Inr (rid, g, p))))))"

definition request_fromJson :: "jsoncpp \<Rightarrow> string \<Rightarrow> event_request \<Rightarrow> bool \<times> event_request" where
  "request_fromJson J text r =
     (case attempt_value (parse_request J text) of
        None \<Rightarrow> (False, r)
      | Some (rid, g, p) \<Rightarrow> (True, r\<lparr>rq_id := rid, rq_group := g, rq_params := Some p\<rparr>))"

subsection \<open>EventSubResponse\<close>

record event_response =
  rs_id :: string
  rs_status :: int
  rs_jResp :: json

definition response_to_json :: "event_response \<Rightarrow> jobject" where
  "response_to_json r =
     jassign [(''id'', JString (rs_id r)), (''status'', JInt (rs_status r))] fmempty"

definition response_generateJson :: "jsoncpp \<Rightarrow> event_response \<Rightarrow> string \<times> event_response" where
  "response_generateJson J r =
     (let v = JObject (response_to_json r) in (jwrite J v, r\<lparr>rs_jResp := v\<rparr>))"

definition response_fromJson :: "jsoncpp \<Rightarrow> string \<Rightarrow> event_response \<Rightarrow> bool \<times> event_response" where
  "response_fromJson J text r =
     (case attempt_value
        (parse_root J text ''invalid json object, parse response failed'' (\<lambda>root.
           required J root ''id'' (quoted ''id'' @ '' field not exist'') (\<lambda>vid. rbind (jasString J vid) (\<lambda>rid.
           required J root ''status'' (quoted ''status'' @ '' field not exist'') (\<lambda>vs. rbind (jasInt J vs) (\<lambda>st.
           Inr (Inr (rid, st, root)))))))) of
        None \<Rightarrow> (False, r)
      | Some (rid, st, root) \<Rightarrow> (True, r\<lparr>rs_id := rid, rs_status := st, rs_jResp := root\<rparr>))"

subsection \<open>What the parsers rebuild\<close>

lemma rfold_enumerate:
  "rfold (\<lambda>(i, v) s. h v s) (enumerate n xs) s = rfold h xs s"
  by (induction xs arbitrary: n s) (auto cong: rbind_cong simp: rbind_def split: sum.split)

lemma parse_addresses_array:
  assumes "jsoncpp_ok J"
  shows "parse_addresses J (JArray (map JString ss)) p =
           Inr (p\<lparr>m_addresses := fset_of_list (map strip_address ss) |\<union>| m_addresses p\<rparr>)"
proof -
  have "rfold (\<lambda>v p. rbind (jasString J v) (\<lambda>s. Inr (addAddress (strip_address s) p)))
          (map JString ss) p =
        Inr (p\<lparr>m_addresses := fset_of_list (map strip_address ss) |\<union>| m_addresses p\<rparr>)"
    by (induction ss arbitrary: p) (simp_all add: ok_asString [OF assms] addAddress_def)
  then show ?thesis
    by (simp add: parse_addresses_def rfold_JArray [OF assms] rfold_enumerate)
qed

lemma parse_topic_array_nonempty:
  assumes "jsoncpp_ok J" and "i < EVENT_LOG_TOPICS_MAX_INDEX" and "ss \<noteq> []"
  shows "parse_topic_array J i (JArray (map JString ss)) p =
           Inr (p\<lparr>m_topics := (vresize (i + 1) {||} (m_topics p))
                   [i := fset_of_list (map strip_topic ss) |\<union>| vresize (i + 1) {||} (m_topics p) ! i]\<rparr>)"
proof -
  let ?h = "\<lambda>v p. rbind (jasString J v) (\<lambda>s. Inr (snd (addTopic i (strip_topic s) p)))"
  let ?r = "\<lambda>ss p. p\<lparr>m_topics := (vresize (i + 1) {||} (m_topics p))
                   [i := fset_of_list (map strip_topic ss) |\<union>| vresize (i + 1) {||} (m_topics p) ! i]\<rparr>"
  have v: "vresize (Suc i) d ts = ts" if "length ts = Suc i" for d and ts :: "string fset list"
    using that vresize_id [of ts d] by simp
  have grown: "rfold ?h (map JString ss) p = Inr (?r ss p)" if "length (m_topics p) = i + 1" for ss p
    using that
  proof (induction ss arbitrary: p)
    case Nil
    then show ?case by (simp add: v)
  next
    case (Cons s ss)
    from Cons assms(2) show ?case
      by (simp add: ok_asString [OF assms(1)] addTopic_def Let_def v)
  qed
  from assms(3) obtain s ss' where ss: "ss = s # ss'" by (cases ss) auto
  have "rfold ?h (map JString ss) p = Inr (?r ss p)"
    using assms(2) grown [of "snd (addTopic i (strip_topic s) p)" ss']
    by (simp add: ss ok_asString [OF assms(1)] addTopic_def Let_def v)
  then show ?thesis
    by (simp add: parse_topic_array_def rfold_JArray [OF assms(1)] rfold_enumerate)
qed

definition canonical_params :: "params \<Rightarrow> bool" where
  "canonical_params p \<longleftrightarrow>
     in_i64 (m_fromBlock p) \<and> in_i64 (m_toBlock p) \<and>
     length (m_topics p) \<le> EVENT_LOG_TOPICS_MAX_INDEX \<and>
     (\<forall>a |\<in>| m_addresses p. strip_address a = a) \<and>
     (\<forall>A \<in> set (m_topics p). \<forall>t |\<in>| A. strip_topic t = t)"

text \<open>A topic position as a client writes it, and the set of topics it stands for.\<close>

fun position_json :: "string list option \<Rightarrow> json" where
  "position_json None = JNull"
| "position_json (Some ss) = JArray (map JString ss)"

definition position_set :: "string list option \<Rightarrow> string fset" where
  "position_set x = (case x of None \<Rightarrow> {||} | Some ss \<Rightarrow> fset_of_list (map strip_topic ss))"

lemma parse_topics_read:
  assumes "jsoncpp_ok J" and "length xs \<le> EVENT_LOG_TOPICS_MAX_INDEX" and "m_topics p = []"
  shows "parse_topics J (JArray (map position_json xs)) p = Inr (p\<lparr>m_topics := trim (map position_set xs)\<rparr>)"
proof -
  have "rfold (\<lambda>(i, w) p. parse_topic J i w p) (enumerate 0 (map position_json xs)) p
          = Inr (p\<lparr>m_topics := trim (map position_set xs)\<rparr>)"
    using assms(2)
  proof (induction xs rule: rev_induct)
    case Nil
    then show ?case using assms(3) by simp
  next
    case (snoc x xs)
    let ?p = "p\<lparr>m_topics := trim (map position_set xs)\<rparr>"
    have 1: "rfold (\<lambda>(i, w) p. parse_topic J i w p) (enumerate 0 (map position_json xs)) p = Inr ?p"
      using snoc by simp
    have 2: "parse_topic J (length xs) (position_json x) ?p =
        Inr (p\<lparr>m_topics := trim (map position_set xs @ [position_set x])\<rparr>)"
    proof (cases "x = None \<or> x = Some []")
      case True
      then show ?thesis by (auto simp: parse_topic_def parse_topic_array_def position_set_def rfold_JArray [OF assms(1)])
    next
      case False
      then obtain ss where ss: "x = Some ss" "ss \<noteq> []" by (cases x) auto
      have v: "vresize (Suc (length xs)) {||} (trim (map position_set xs)) = map position_set xs @ [{||}]"
        using vresize_trim [of "map position_set xs @ [{||}]"] by simp
      have "parse_topic_array J (length xs) (JArray (map JString ss)) ?p
              = Inr (p\<lparr>m_topics := map position_set xs @ [position_set x]\<rparr>)"
        using snoc.prems ss(2) by (subst parse_topic_array_nonempty [OF assms(1)])
          (simp_all add: v ss(1) position_set_def list_update_append nth_append)
      moreover have "position_set x \<noteq> {||}" using ss by (cases ss) (simp_all add: position_set_def)
      ultimately show ?thesis by (simp add: ss parse_topic_def)
    qed
    from 1 2 show ?case by (simp add: enumerate_append_eq rfold_append)
  qed
  then show ?thesis
    by (simp add: parse_topics_def rfold_JArray [OF assms(1)])
qed

lemma parse_topics_trim:
  assumes "jsoncpp_ok J" and "length ts \<le> EVENT_LOG_TOPICS_MAX_INDEX"
    and "\<forall>A \<in> set ts. \<forall>t |\<in>| A. strip_topic t = t" and "m_topics p = []"
  shows "parse_topics J (topics_to_json ts) p = Inr (p\<lparr>m_topics := trim ts\<rparr>)"
proof -
  let ?x = "\<lambda>A. if A = {||} then None else Some (fset_list A)"
  have "position_set (?x A) = A" if "A \<in> set ts" for A
    using assms(3) that by (simp add: position_set_def fimage_fixed)
  then have "map position_set (map ?x ts) = ts" by (simp add: map_idI)
  moreover have "topics_to_json ts = JArray (map position_json (map ?x ts))"
    by (simp add: topics_to_json_def)
  ultimately show ?thesis
    using parse_topics_read [OF assms(1) _ assms(4), of "map ?x ts"] assms(2) by simp
qed

lemma parse_params_canonical:
  assumes J: "jsoncpp_ok J" and c: "canonical_params p"
  shows "parse_params J (JObject (jassign
           [(''fromBlock'', JInt (m_fromBlock p)), (''toBlock'', JInt (m_toBlock p)),
            (''addresses'', JArray (map JString (fset_list (m_addresses p)))),
            (''topics'', topics_to_json (m_topics p))] fmempty))
         = Inr (p\<lparr>m_topics := trim (m_topics p)\<rparr>)"
  using c
  by (cases p) (simp add: parse_params_def optional_object [OF J] ok_asInt64 [OF J]
      parse_addresses_array [OF J] parse_topics_trim [OF J] canonical_params_def new_params_def
      fimage_fixed)

subsection \<open>Bounds of a parsed request\<close>

lemma parse_topic_length:
  assumes "parse_topic J i v p = Inr q" and "length (m_topics p) \<le> EVENT_LOG_TOPICS_MAX_INDEX"
  shows "length (m_topics q) \<le> EVENT_LOG_TOPICS_MAX_INDEX"
proof (cases "isArray v")
  case True
  then show ?thesis
    using assms unfolding parse_topic_def parse_topic_array_def
    by (auto split: if_splits simp: rbind_Inr_iff intro: addTopic_length_le
        elim!: rfold_invariant [where P = "\<lambda>p. length (m_topics p) \<le> EVENT_LOG_TOPICS_MAX_INDEX"])
next
  case False
  then show ?thesis
    using assms by (auto simp: parse_topic_def rbind_Inr_iff split: if_splits intro: addTopic_length_le)
qed

lemma parse_addresses_topics:
  assumes "parse_addresses J v p = Inr q"
  shows "m_topics q = m_topics p"
  using assms unfolding parse_addresses_def
  by (rule rfold_invariant [where P = "\<lambda>q. m_topics q = m_topics p"])
    (auto simp: rbind_Inr_iff addAddress_def)

lemma optional_cases:
  "optional J v k f s = Inr t \<Longrightarrow> t = s \<or> (\<exists>w. f w = Inr t)"
  by (auto simp: optional_def rbind_Inr_iff split: if_splits)

lemma parse_params_length:
  assumes "parse_params J v = Inr p"
  shows "length (m_topics p) \<le> EVENT_LOG_TOPICS_MAX_INDEX"
proof -
  obtain p1 p2 p3 where
      1: "optional J v ''fromBlock'' (\<lambda>w. rbind (jasInt64 J w)
            (\<lambda>n. Inr (new_params\<lparr>m_fromBlock := n\<rparr>))) new_params = Inr p1"
    and 2: "optional J v ''toBlock'' (\<lambda>w. rbind (jasInt64 J w)
            (\<lambda>n. Inr (p1\<lparr>m_toBlock := n\<rparr>))) p1 = Inr p2"
    and 3: "optional J v ''addresses'' (\<lambda>w. parse_addresses J w p2) p2 = Inr p3"
    and 4: "optional J v ''topics'' (\<lambda>w. parse_topics J w p3) p3 = Inr p"
    using assms unfolding parse_params_def rbind_Inr_iff by blast
  have "m_topics p1 = []"
    using optional_cases [OF 1] by (auto simp: rbind_Inr_iff new_params_def)
  then have "m_topics p2 = []"
    using optional_cases [OF 2] by (auto simp: rbind_Inr_iff)
  then have "m_topics p3 = []"
    using optional_cases [OF 3] parse_addresses_topics by metis
  then have p3: "length (m_topics p3) \<le> EVENT_LOG_TOPICS_MAX_INDEX"
    by simp
  from optional_cases [OF 4] show ?thesis
  proof
    assume "\<exists>w. parse_topics J w p3 = Inr p"
    then obtain w where "parse_topics J w p3 = Inr p" ..
    then show ?thesis
      unfolding parse_topics_def using p3
      by (rule rfold_invariant [where P = "\<lambda>p. length (m_topics p) \<le> EVENT_LOG_TOPICS_MAX_INDEX"])
        (auto simp: rbind_Inr_iff intro: parse_topic_length)
  qed (use p3 in simp)
qed

definition ranged :: "params \<Rightarrow> bool" where
  "ranged p \<longleftrightarrow> in_i64 (m_fromBlock p) \<and> in_i64 (m_toBlock p)"

lemma ranged_addTopic: "ranged p \<Longrightarrow> ranged (snd (addTopic i t p))"
  by (simp add: ranged_def addTopic_def Let_def)

lemma parse_topic_ranged: "parse_topic J i v p = Inr q \<Longrightarrow> ranged p \<Longrightarrow> ranged q"
  unfolding parse_topic_def parse_topic_array_def
  by (auto simp: rbind_Inr_iff ranged_addTopic split: if_split_asm elim!: rfold_invariant [where P = ranged])

lemma parse_params_ranged:
  assumes J: "json_ranged J" and "parse_params J v = Inr p"
  shows "ranged p"
proof -
  obtain p1 p2 p3 where
      1: "optional J v ''fromBlock'' (\<lambda>w. rbind (jasInt64 J w)
            (\<lambda>n. Inr (new_params\<lparr>m_fromBlock := n\<rparr>))) new_params = Inr p1"
    and 2: "optional J v ''toBlock'' (\<lambda>w. rbind (jasInt64 J w)
            (\<lambda>n. Inr (p1\<lparr>m_toBlock := n\<rparr>))) p1 = Inr p2"
    and 3: "optional J v ''addresses'' (\<lambda>w. parse_addresses J w p2) p2 = Inr p3"
    and 4: "optional J v ''topics'' (\<lambda>w. parse_topics J w p3) p3 = Inr p"
    using assms unfolding parse_params_def rbind_Inr_iff by blast
  have n: "in_i64 n" if "jasInt64 J w = Inr n" for w n
    using J that by (auto simp: json_ranged_def)
  have "ranged new_params" by (simp add: ranged_def new_params_def in_i64_def)
  then have "ranged p1" using optional_cases [OF 1] n by (auto simp: rbind_Inr_iff ranged_def)
  then have "ranged p2" using optional_cases [OF 2] n by (auto simp: rbind_Inr_iff ranged_def)
  moreover have "ranged (addAddress a q)" if "ranged q" for a q
    using that by (simp add: ranged_def addAddress_def)
  ultimately have "ranged p3" using optional_cases [OF 3] unfolding parse_addresses_def
    by (auto elim!: rfold_invariant [where P = ranged] simp: rbind_Inr_iff)
  then show ?thesis using optional_cases [OF 4] unfolding parse_topics_def
    by (auto elim!: rfold_invariant [where P = ranged] simp: rbind_Inr_iff intro: parse_topic_ranged)
qed

lemma parse_request_success:
  assumes "parse_request J text = Inr (Inr (rid, g, p))"
  obtains root v where "jparse J text = Inr (Some root)"
    and "jisMember J root ''id'' = Inr True" and "jisMember J root ''group'' = Inr True"
    and "jisMember J root ''params'' = Inr True" and "parse_params J v = Inr p"
  using assms unfolding parse_request_def parse_root_def parse_id_group_def
  by (auto simp: rbind_Inr_iff required_success split: option.splits)

lemma request_fromJson_cases:
  "request_fromJson J text r = (ok, r') \<Longrightarrow>
     \<not> ok \<and> r' = r \<or>
     ok \<and> (\<exists>rid g p. parse_request J text = Inr (Inr (rid, g, p)) \<and>
            r' = r\<lparr>rq_id := rid, rq_group := g, rq_params := Some p\<rparr>)"
  by (auto simp: request_fromJson_def split: option.splits)

subsection \<open>Objects of class EventSubRequest\<close>

text \<open>
  The public operations of the class. None of them sets \<^theory_text>\<open>m_state\<close>.
\<close>

datatype request_op =
  SetId string | SetGroup string | SetParams params | FromJson string

fun request_apply :: "jsoncpp \<Rightarrow> request_op \<Rightarrow> event_request \<Rightarrow> event_request" where
  "request_apply J (SetId i) r = r\<lparr>rq_id := i\<rparr>"
| "request_apply J (SetGroup g) r = r\<lparr>rq_group := g\<rparr>"
| "request_apply J (SetParams p) r = r\<lparr>rq_params := Some p\<rparr>"
| "request_apply J (FromJson text) r = snd (request_fromJson J text r)"

lemma request_apply_state: "rq_state (request_apply J op r) = rq_state r"
  by (cases op) (auto simp: request_fromJson_def split: option.split)

subsection \<open>Properties\<close>

text \<open>
  What the printer writes for a request with a task state, the parser reads: the id, the group
  and every parameter, for canonical parameters (block numbers in range, at most
  four topic positions, addresses and topics already normalised). The only change is that
  trailing empty topic positions, which match everything, are dropped; and a request that
  is already at block \<open>cur > 0\<close> resumes at \<open>cur + 1\<close>. In this repository no request has a task
  state (\<open>request_never_printable\<close>); the server only parses.
\<close>

lemma request_roundtrip:
  assumes "jsoncpp_ok J" and "rq_params r = Some p" and "rq_state r = Some cur"
    and "canonical_params p"
    and "jparse J (jwrite J (request_to_json r p cur)) = Inr (Some (request_to_json r p cur))"
  shows "\<exists>text. request_generateJson J r = Some text \<and>
           request_fromJson J text new_event_request =
             (True, \<lparr>rq_id = rq_id r, rq_group = rq_group r,
                rq_params = Some (p\<lparr>m_fromBlock := (if cur > 0 then i64 (cur + 1) else m_fromBlock p),
                                    m_topics := trim (m_topics p)\<rparr>),
                rq_state = None\<rparr>)"
proof -
  let ?p = "p\<lparr>m_fromBlock := (if cur > 0 then i64 (cur + 1) else m_fromBlock p)\<rparr>"
  have "canonical_params ?p"
    using assms(4) by (simp add: canonical_params_def)
  from parse_params_canonical [OF assms(1) this] show ?thesis
    using assms by (simp add: request_generateJson_def request_fromJson_def parse_request_def
        parse_root_def parse_id_group_def request_to_json_def required_object ok_asString
        new_event_request_def)
qed

lemma request_roundtrip_witness:
  "\<exists>J r p. canonical_params p \<and> rq_params r = Some p \<and>
     (\<exists>text. request_generateJson J r = Some text \<and>
        request_fromJson J text new_event_request =
          (True, \<lparr>rq_id = ''s1'', rq_group = ''group0'', rq_params = Some p, rq_state = None\<rparr>))"
proof -
  define p where "p = \<lparr>m_fromBlock = 1, m_toBlock = 20, m_addresses = {|''ab''|},
                       m_topics = [{||}, {|''91c9''|}]\<rparr>"
  define r where "r = \<lparr>rq_id = ''s1'', rq_group = ''group0'', rq_params = Some p, rq_state = Some (-1)\<rparr>"
  define J where "J = ref_jsoncpp (\<lambda>_. Inr (Some (request_to_json r p (-1)))) (\<lambda>_. '''')"
  have t: "trim [{||}, {|''91c9''|}] = [{||}, {|''91c9''|}]"
    by (simp add: trim_def)
  have c: "canonical_params p"
    by (simp add: canonical_params_def p_def in_i64_def EVENT_LOG_TOPICS_MAX_INDEX_def
        strip_address_def strip_topic_def compare0_def tolower_def)
  have "\<exists>text. request_generateJson J r = Some text \<and>
        request_fromJson J text new_event_request =
          (True, \<lparr>rq_id = rq_id r, rq_group = rq_group r,
             rq_params = Some (p\<lparr>m_fromBlock := (if (-1::int) > 0 then i64 (-1 + 1) else m_fromBlock p),
                                 m_topics := trim (m_topics p)\<rparr>), rq_state = None\<rparr>)"
    by (rule request_roundtrip) (simp_all add: J_def r_def c)
  with c show ?thesis
    by (intro exI [of _ J] exI [of _ r] exI [of _ p]) (simp add: r_def p_def t)
qed

text \<open>
  Whatever the text and the library do, parsing a request either fails and leaves the
  object as it was, or all of \<open>id\<close>, \<open>group\<close> and \<open>params\<close> were members of the parsed value
  and the stored parameters have at most four topic positions.
\<close>

lemma request_fromJson_safe:
  assumes "request_fromJson J text r = (ok, r')"
  shows "(\<not> ok \<longrightarrow> r' = r) \<and>
         (ok \<longrightarrow> (\<exists>root p. jparse J text = Inr (Some root) \<and> rq_params r' = Some p \<and>
            (\<forall>k \<in> {''id'', ''group'', ''params''}. jisMember J root k = Inr True) \<and>
            length (m_topics p) \<le> EVENT_LOG_TOPICS_MAX_INDEX \<and> rq_state r' = rq_state r))"
  using request_fromJson_cases [OF assms]
  by (auto elim!: parse_request_success intro: parse_params_length)



text \<open>
  No object of class EventSubRequest that the class's own operations can produce can
  be printed: \<^theory_text>\<open>generateJson\<close> dereferences \<^theory_text>\<open>m_state\<close>, which no operation sets.
\<close>

theorem request_never_printable:
  "request_generateJson J (fold (request_apply J) ops new_event_request) = None"
proof -
  have "rq_state (fold (request_apply J) ops r) = rq_state r" for r
    by (induction ops arbitrary: r) (simp_all add: request_apply_state)
  then show ?thesis
    by (simp add: request_generateJson_def new_event_request_def)
qed

text \<open>
  A response restores its id and status from the text it prints, and keeps the parsed
  value, whenever the library's reader returns what its writer printed.
\<close>

theorem response_roundtrip:
  assumes "jsoncpp_ok J" and "in_i32 (rs_status r)"
    and "jparse J (jwrite J (JObject (response_to_json r))) = Inr (Some (JObject (response_to_json r)))"
  shows "response_fromJson J (fst (response_generateJson J r)) r0 =
           (True, \<lparr>rs_id = rs_id r, rs_status = rs_status r, rs_jResp = JObject (response_to_json r)\<rparr>)"
  using assms
  by (simp add: response_generateJson_def response_fromJson_def parse_root_def required_object
      ok_asString ok_asInt Let_def response_to_json_def)

theorem response_roundtrip_witness:
  "\<exists>J. response_fromJson J
     (fst (response_generateJson J \<lparr>rs_id = ''7'', rs_status = ep_code INVALID_PARAMS, rs_jResp = JNull\<rparr>))
     \<lparr>rs_id = '''', rs_status = 0, rs_jResp = JNull\<rparr> =
     (True, \<lparr>rs_id = ''7'', rs_status = -41000,
        rs_jResp = JObject (jassign [(''id'', JString ''7''), (''status'', JInt (-41000))] fmempty)\<rparr>)"
proof -
  let ?r = "\<lparr>rs_id = ''7'', rs_status = ep_code INVALID_PARAMS, rs_jResp = JNull\<rparr>"
  let ?J = "ref_jsoncpp (\<lambda>_. Inr (Some (JObject (response_to_json ?r)))) (\<lambda>_. '''')"
  have "response_fromJson ?J (fst (response_generateJson ?J ?r)) \<lparr>rs_id = '''', rs_status = 0, rs_jResp = JNull\<rparr>
      = (True, \<lparr>rs_id = rs_id ?r, rs_status = rs_status ?r, rs_jResp = JObject (response_to_json ?r)\<rparr>)"
    by (rule response_roundtrip) (simp_all add: in_i32_def)
  then show ?thesis
    by (intro exI [of _ ?J]) (simp add: response_to_json_def)
qed

end
