(* ===== verification/ChainData.thy ===== *)
theory ChainData
  imports JsonLib
begin

text \<open>
  The values that the blockchain interfaces of bcos-framework hand to this program: log
  entries, receipts, transactions, block headers and blocks, each as the record of what its
  accessors return. A block gives its transactions and receipts by index. Byte strings and
  hashes are lists of bytes; the functions that print them in hexadecimal belong to
  bcos-framework and are the fields of \<open>hexlib\<close>. \<open>hexlib_ok\<close> says that \<^theory_text>\<open>hex()\<close> prints
  lower-case hexadecimal digits only.
\<close>

type_synonym bytes = "8 word list"
type_synonym hash = bytes

record hexlib =
  hx_hex :: "hash \<Rightarrow> string"            \<comment> \<open>\<^theory_text>\<open>FixedBytes::hex\<close>\<close>
  hx_hexPrefixed :: "hash \<Rightarrow> string"    \<comment> \<open>\<^theory_text>\<open>FixedBytes::hexPrefixed\<close>\<close>
  hx_bytes :: "bytes \<Rightarrow> string"         \<comment> \<open>\<^theory_text>\<open>toHexStringWithPrefix\<close>\<close>
  hx_u256 :: "nat \<Rightarrow> string"            \<comment> \<open>\<^theory_text>\<open>u256::str(16)\<close>\<close>

definition hex_digits :: string where
  "hex_digits = ''0123456789abcdef''"

definition hexlib_ok :: "hexlib \<Rightarrow> bool" where
  "hexlib_ok hx \<longleftrightarrow> (\<forall>h. set (hx_hex hx h) \<subseteq> set hex_digits)"

definition nibble :: "8 word \<Rightarrow> char" where
  "nibble w = hex_digits ! unat (w mod 16)"

definition hex_of :: "bytes \<Rightarrow> string" where
  "hex_of bs = concat (map (\<lambda>b. [nibble (b div 16), nibble b]) bs)"

definition ref_hexlib :: hexlib where
  "ref_hexlib = \<lparr>hx_hex = hex_of, hx_hexPrefixed = (\<lambda>h. ''0x'' @ hex_of h),
                 hx_bytes = (\<lambda>b. ''0x'' @ hex_of b), hx_u256 = (\<lambda>n. '''')\<rparr>"

lemma nibble_digit: "nibble w \<in> set hex_digits"
proof -
  have "unat (w mod 16) < 16"
    by (simp add: unat_mod)
  then show ?thesis
    by (simp add: nibble_def hex_digits_def nth_mem del: list.set)
qed

lemma ref_hexlib_ok [simp]: "hexlib_ok ref_hexlib"
  using nibble_digit by (auto simp: hexlib_ok_def ref_hexlib_def hex_of_def)

record logEntry =
  le_address :: string
  le_topics :: "hash list"
  le_data :: bytes

record receipt =
  rc_version :: int
  rc_contractAddress :: string
  rc_gasUsed :: nat
  rc_status :: int
  rc_blockNumber :: int
  rc_output :: bytes
  rc_hash :: hash
  rc_logEntries :: "logEntry list"

record transaction =
  tx_version :: int
  tx_hash :: hash
  tx_nonce :: nat
  tx_blockLimit :: int
  tx_to :: string
  tx_sender :: bytes
  tx_input :: bytes
  tx_importTime :: int
  tx_chainId :: string
  tx_groupId :: string
  tx_signatureData :: bytes

record parentInfo =
  pi_blockNumber :: int
  pi_blockHash :: hash

record signature =
  sg_index :: int
  sg_signature :: bytes

record blockHeader =
  bh_hash :: hash
  bh_version :: int
  bh_txsRoot :: hash
  bh_receiptsRoot :: hash
  bh_stateRoot :: hash
  bh_number :: int
  bh_gasUsed :: nat
  bh_timestamp :: int
  bh_sealer :: int
  bh_extraData :: bytes
  bh_consensusWeights :: "nat list"
  bh_sealerList :: "bytes list"
  bh_parentInfo :: "parentInfo list"
  bh_signatureList :: "signature list"

record block =
  bl_header :: "blockHeader option"
  bl_transactionsSize :: nat
  bl_transaction :: "nat \<Rightarrow> transaction"
  bl_receipt :: "nat \<Rightarrow> receipt"

text \<open>
  The \<^theory_text>\<open>Error::Ptr\<close> an asynchronous call hands to its callback: null, or an error with a
  code and a message. Most callbacks count an error object whose code is
  \<^theory_text>\<open>CommonError::SUCCESS\<close> (zero) as no error.
\<close>

record rpc_error =
  er_code :: int
  er_msg :: string

definition failed :: "rpc_error option \<Rightarrow> bool" where
  "failed e \<longleftrightarrow> (case e of None \<Rightarrow> False | Some err \<Rightarrow> er_code err \<noteq> 0)"

lemma failed_simps [simp]:
  "\<not> failed None" "failed (Some err) \<longleftrightarrow> er_code err \<noteq> 0"
  by (simp_all add: failed_def)

end
