(* ===== verification/EventMatcher.thy ===== *)
theory EventMatcher
  imports EventRequest ChainData
begin

text \<open>
  \<^theory_text>\<open>EventSubMatcher.cpp\<close>: which log entries of a block a subscription selects, and the
  events it reports. The three overloads of \<^theory_text>\<open>matches\<close> are \<open>matches_log\<close>,
  \<open>matches_receipt\<close> and \<open>matches_block\<close>; the counter is the 32-bit word of the source and
  the JSON array that is appended to is a list.
\<close>

fun topics_loop :: "hexlib \<Rightarrow> string fset list \<Rightarrow> hash list \<Rightarrow> nat list \<Rightarrow> bool" where
  "topics_loop hx topics logTopics [] = True"
| "topics_loop hx topics logTopics (i # is) =
     (if length topics > i \<and> topics ! i \<noteq> {||} \<and>
         (length logTopics \<le> i \<or> hx_hex hx (logTopics ! i) |\<notin>| topics ! i)
      then False else topics_loop hx topics logTopics is)"

definition matches_log :: "hexlib \<Rightarrow> params \<Rightarrow> logEntry \<Rightarrow> bool" where
  "matches_log hx p e =
     (if m_addresses p \<noteq> {||} \<and> le_address e |\<notin>| m_addresses p then False
      else topics_loop hx (m_topics p) (le_topics e) [0..<EVENT_LOG_TOPICS_MAX_INDEX])"

definition event_json :: "hexlib \<Rightarrow> receipt \<Rightarrow> transaction \<Rightarrow> nat \<Rightarrow> nat \<Rightarrow> logEntry \<Rightarrow> json" where
  "event_json hx rc tx txIndex logIndex e =
     JObject (jassign
       [(''blockNumber'', JInt (rc_blockNumber rc)),
        (''address'', JString (le_address e)),
        (''data'', JString (hx_bytes hx (le_data e))),
        (''logIndex'', JUInt logIndex),
        (''transactionHash'', JString (hx_hexPrefixed hx (tx_hash tx))),
        (''transactionIndex'', JUInt txIndex),
        (''topics'', JArray (map (\<lambda>t. JString (hx_hexPrefixed hx t)) (le_topics e)))] fmempty)"

fun log_loop :: "hexlib \<Rightarrow> params \<Rightarrow> receipt \<Rightarrow> transaction \<Rightarrow> nat \<Rightarrow> nat \<Rightarrow> logEntry list
                   \<Rightarrow> 32 word \<times> json list \<Rightarrow> 32 word \<times> json list" where
  "log_loop hx p rc tx txIndex logIndex [] s = s"
| "log_loop hx p rc tx txIndex logIndex (e # es) (count, result) =
     log_loop hx p rc tx txIndex (logIndex + 1) es
       (if matches_log hx p e
        then (count + 1, result @ [event_json hx rc tx txIndex logIndex e])
        else (count, result))"

definition matches_receipt ::
  "hexlib \<Rightarrow> params \<Rightarrow> receipt \<Rightarrow> transaction \<Rightarrow> nat \<Rightarrow> json list \<Rightarrow> 32 word \<times> json list" where
  "matches_receipt hx p rc tx txIndex result =
     log_loop hx p rc tx txIndex 0 (rc_logEntries rc) (0, result)"

definition matches_block :: "hexlib \<Rightarrow> params \<Rightarrow> block \<Rightarrow> json list \<Rightarrow> 32 word \<times> json list" where
  "matches_block hx p b result =
     fold (\<lambda>index (count, result).
             let (c, result') = matches_receipt hx p (bl_receipt b index) (bl_transaction b index) index result
             in (count + c, result'))
       [0..<bl_transactionsSize b] (0, result)"

subsection \<open>The selected logs\<close>

lemma topics_loop_iff:
  "topics_loop hx ts ls is \<longleftrightarrow>
     (\<forall>i \<in> set is. i < length ts \<longrightarrow> ts ! i \<noteq> {||} \<longrightarrow>
        i < length ls \<and> hx_hex hx (ls ! i) |\<in>| ts ! i)"
  by (induction "is") auto

definition receipt_events :: "hexlib \<Rightarrow> params \<Rightarrow> receipt \<Rightarrow> transaction \<Rightarrow> nat \<Rightarrow> json list" where
  "receipt_events hx p rc tx txIndex =
     map (\<lambda>(k, e). event_json hx rc tx txIndex k e)
       (filter (\<lambda>(k, e). matches_log hx p e) (enumerate 0 (rc_logEntries rc)))"

definition block_events :: "hexlib \<Rightarrow> params \<Rightarrow> block \<Rightarrow> json list" where
  "block_events hx p b =
     concat (map (\<lambda>i. receipt_events hx p (bl_receipt b i) (bl_transaction b i) i)
       [0..<bl_transactionsSize b])"

lemma log_loop_eq:
  "log_loop hx p rc tx i k es (c, result) =
     (let evs = map (\<lambda>(k, e). event_json hx rc tx i k e)
                  (filter (\<lambda>(k, e). matches_log hx p e) (enumerate k es))
      in (c + of_nat (length evs), result @ evs))"
  by (induction es arbitrary: k c result) (simp_all add: Let_def)

lemma matches_receipt_eq:
  "matches_receipt hx p rc tx i result =
     (of_nat (length (receipt_events hx p rc tx i)), result @ receipt_events hx p rc tx i)"
  by (simp add: matches_receipt_def log_loop_eq receipt_events_def Let_def)

lemma matches_log_trim: "matches_log hx (p\<lparr>m_topics := trim (m_topics p)\<rparr>) e = matches_log hx p e"
proof -
  have "topics_loop hx (trim ts) ls is = topics_loop hx ts ls is" for ts ls "is"
    unfolding topics_loop_iff using nth_trim by (metis not_le_imp_less)
  then show ?thesis
    by (simp add: matches_log_def)
qed

lemma matches_prefixed_never:
  assumes "hexlib_ok hx" and "i < EVENT_LOG_TOPICS_MAX_INDEX" and "i < length (m_topics p)"
    and "m_topics p ! i \<noteq> {||}" and "\<And>t. t |\<in>| m_topics p ! i \<Longrightarrow> CHR ''x'' \<in> set t"
  shows "\<not> matches_log hx p e"
proof -
  have "hx_hex hx h |\<notin>| m_topics p ! i" for h
  proof
    assume "hx_hex hx h |\<in>| m_topics p ! i"
    then have "CHR ''x'' \<in> set (hx_hex hx h)"
      by (rule assms(5))
    with assms(1) have "CHR ''x'' \<in> set hex_digits"
      by (auto simp: hexlib_ok_def)
    then show False
      by (simp add: hex_digits_def)
  qed
  with assms(2-4) show ?thesis
    by (auto simp: matches_log_def topics_loop_iff)
qed

lemma fold_matches_block:
  "fold (\<lambda>index (count, result).
           let (c, result') = matches_receipt hx p (bl_receipt b index) (bl_transaction b index) index result
           in (count + c, result'))
     is (count, result) =
   (count + of_nat (length (concat (map (\<lambda>i. receipt_events hx p (bl_receipt b i) (bl_transaction b i) i) is))),
    result @ concat (map (\<lambda>i. receipt_events hx p (bl_receipt b i) (bl_transaction b i) i) is))"
  by (induction "is" arbitrary: count result) (simp_all add: matches_receipt_eq)

lemma parse_single_topic:
  assumes "jsoncpp_ok J" and "i < EVENT_LOG_TOPICS_MAX_INDEX" and "m_topics p = []"
  shows "parse_topics J (JArray [JString s]) p = Inr (p\<lparr>m_topics := [{|s|}]\<rparr>)"
    and "parse_topics J (JArray [JArray [JString s]]) p = Inr (p\<lparr>m_topics := [{|strip_topic s|}]\<rparr>)"
proof -
  have v: "vresize (Suc 0) {||} [] = [{||}]"
    by (simp add: vresize_def)
  show "parse_topics J (JArray [JString s]) p = Inr (p\<lparr>m_topics := [{|s|}]\<rparr>)"
    using assms(3)
    by (simp add: parse_topics_def ok_size [OF assms(1)] ok_index [OF assms(1)] parse_topic_def
        ok_asString [OF assms(1)] addTopic_def EVENT_LOG_TOPICS_MAX_INDEX_def Let_def v)
  show "parse_topics J (JArray [JArray [JString s]]) p = Inr (p\<lparr>m_topics := [{|strip_topic s|}]\<rparr>)"
    using parse_topic_array_nonempty [OF assms(1), of 0 "[s]" p] assms(3)
    by (simp add: parse_topics_def ok_size [OF assms(1)] ok_index [OF assms(1)] parse_topic_def
        EVENT_LOG_TOPICS_MAX_INDEX_def v)
qed

subsection \<open>Properties\<close>

text \<open>
  C15: a log entry is selected exactly when the address list is empty or holds its address,
  and for each of the four positions at which topics are asked for, the log entry has a
  topic there whose hexadecimal form is one of them.
\<close>

theorem matches_log_iff:
  "matches_log hx p e \<longleftrightarrow>
     (m_addresses p = {||} \<or> le_address e |\<in>| m_addresses p) \<and>
     (\<forall>i < 4. i < length (m_topics p) \<and> m_topics p ! i \<noteq> {||} \<longrightarrow>
        i < length (le_topics e) \<and> hx_hex hx (le_topics e ! i) |\<in>| m_topics p ! i)"
  by (auto simp: matches_log_def topics_loop_iff EVENT_LOG_TOPICS_MAX_INDEX_def)

theorem matches_log_iff_witness:
  "matches_log ref_hexlib (new_params\<lparr>m_addresses := {|''ab''|}, m_topics := [{||}, {|''0a''|}]\<rparr>)
     \<lparr>le_address = ''ab'', le_topics = [[1], [10]], le_data = []\<rparr>"
proof -
  have "hex_of [10] = ''0a''" by code_simp
  then show ?thesis
    by (subst matches_log_iff)
      (auto simp: new_params_def ref_hexlib_def less_Suc_eq numeral_eq_Suc)
qed

lemma matches_block_events:
  "matches_block hx p b result =
     (of_nat (length (block_events hx p b)), result @ block_events hx p b)"
  unfolding matches_block_def fold_matches_block block_events_def by simp

text \<open>
  C16: matching a block reports one event per selected log, in the order of the
  transactions and of the logs within each receipt, each with its transaction index and its
  position in the receipt; the counter is the number of events modulo \<open>2 ^ 32\<close>, and what
  was in the result stays in front.
\<close>

theorem matches_block_eq:
  "matches_block hx p b result =
     (of_nat (length (block_events hx p b)), result @ block_events hx p b)"
  by (rule matches_block_events)

text \<open>
  C40: how a topic is spelt decides whether its subscription can ever match. As an array
  element with the prefix \<^theory_text>\<open>0x\<close> it selects the logs with that topic; as a plain string
  with the prefix, or as an array element with the prefix \<^theory_text>\<open>0X\<close>, it selects no log at
  all, because the prefix is kept and \<^theory_text>\<open>hex()\<close> prints none.
\<close>

theorem topic_spelling:
  assumes "jsoncpp_ok J" and "hexlib_ok hx" and "map tolower t = hx_hex hx h"
  shows "\<exists>q1 q2 q3.
     parse_topics J (JArray [JArray [JString (''0x'' @ t)]]) new_params = Inr q1 \<and>
     parse_topics J (JArray [JString (''0x'' @ t)]) new_params = Inr q2 \<and>
     parse_topics J (JArray [JArray [JString (''0X'' @ t)]]) new_params = Inr q3 \<and>
     matches_log hx q1 \<lparr>le_address = a, le_topics = h # hs, le_data = d\<rparr> \<and>
     (\<forall>e. \<not> matches_log hx q2 e) \<and> (\<forall>e. \<not> matches_log hx q3 e)"
proof -
  note single = parse_single_topic [OF assms(1), of 0 new_params]
  have 0: "0 < EVENT_LOG_TOPICS_MAX_INDEX" "m_topics new_params = []"
    by (simp_all add: EVENT_LOG_TOPICS_MAX_INDEX_def new_params_def)
  let ?q = "\<lambda>s. new_params\<lparr>m_topics := [{|s|}]\<rparr>"
  have "matches_log hx (?q (strip_topic (''0x'' @ t))) \<lparr>le_address = a, le_topics = h # hs, le_data = d\<rparr>"
    using assms(3) by (simp add: matches_log_def topics_loop_iff strip_topic_prefix new_params_def)
  moreover have never: "\<not> matches_log hx (?q s) e" if "CHR ''x'' \<in> set s" for s e
    by (rule matches_prefixed_never [OF assms(2) 0(1)]) (use that in simp_all)
  ultimately show ?thesis
    using single [OF 0]
    by (intro exI [of _ "?q (strip_topic (''0x'' @ t))"] exI [of _ "?q (''0x'' @ t)"]
        exI [of _ "?q (strip_topic (''0X'' @ t))"]) (simp add: strip_topic_prefix)
qed

theorem topic_spelling_witness:
  "\<exists>J q2. parse_topics J (JArray [JString ''0x0A'']) new_params = Inr q2 \<and>
     (\<forall>e. \<not> matches_log ref_hexlib q2 e)"
proof -
  have "map tolower ''0A'' = hex_of [10]" by code_simp
  then have "map tolower ''0A'' = hx_hex ref_hexlib [10]"
    by (simp add: ref_hexlib_def)
  from topic_spelling [OF ref_jsoncpp_ok ref_hexlib_ok this] show ?thesis
    by fastforce
qed

end
