(* ===== verification/Transport.thy ===== *)
theory Transport
  imports ChainData
begin

text \<open>
  What the WebSocket library of bcos-boostssl hands to this program: messages, as the record
  of the fields the program reads and writes, and sessions, as handles. Whether a session is
  connected and what its endpoint is are asked of the surroundings at the moment a handler
  runs. Message data and sequence numbers are kept as strings. The types of the messages are
  those of \<^theory_text>\<open>bcos-rpc/Common.h\<close>.
\<close>

record ws_message =
  wm_type :: int
  wm_status :: int
  wm_seq :: string
  wm_data :: string

type_synonym session = nat

datatype rpc_message_type = HANDESHAKE | BLOCK_NOTIFY | RPC_REQUEST | GROUP_NOTIFY

fun rpc_message_code :: "rpc_message_type \<Rightarrow> int" where
  "rpc_message_code HANDESHAKE = 0x100"
| "rpc_message_code BLOCK_NOTIFY = 0x101"
| "rpc_message_code RPC_REQUEST = 0x102"
| "rpc_message_code GROUP_NOTIFY = 0x103"

datatype amop_message_type = AMOP_SUBTOPIC | AMOP_REQUEST | AMOP_BROADCAST | AMOP_RESPONSE

fun amop_message_code :: "amop_message_type \<Rightarrow> int" where
  "amop_message_code AMOP_SUBTOPIC = 0x110"
| "amop_message_code AMOP_REQUEST = 0x111"
| "amop_message_code AMOP_BROADCAST = 0x112"
| "amop_message_code AMOP_RESPONSE = 0x113"

definition blank_message :: ws_message where
  "blank_message = \<lparr>wm_type = 0, wm_status = 0, wm_seq = ''seq'', wm_data = ''''\<rparr>"

end
