(* ===== verification/EventSub.thy ===== *)
theory EventSub
  imports EventRequest EventMatcher Transport
begin

text \<open>
  \<^theory_text>\<open>event/EventSub.{h,cpp}\<close> and \<^theory_text>\<open>event/EventSubTask.h\<close>: the event subscription service.

  Task objects are shared by the queue of new tasks, the task table and the callbacks of
  the ledger, so they live in a heap, \<open>es_heap\<close>: a reference is the position at which the
  object was created. The ledger answers asynchronously; \<open>es_calls\<close> holds the requests it
  has not answered, each with what its callback captured, and an answer is a step of its
  own. \<open>es_out\<close> is the log of the messages handed to the sessions.

  \<open>es_env\<close> is what a handler sees of its surroundings at the moment it runs: the JSON and
  hexadecimal libraries, the group manager's answer for a group, which sessions are
  connected, and the blank message of the message factory. Handlers run without
  interruption; the worker thread and the callback threads interleave between them. A task
  only ever belongs to the service that made it, so the weak pointers of the callbacks are
  alive in every step below.
\<close>

record task =
  t_id :: string
  t_group :: string
  t_params :: params
  t_session :: session     \<comment> \<open>captured by the callback that \<^theory_text>\<open>onRecvSubscribeEvent\<close> sets\<close>
  t_work :: bool
  t_cur :: int             \<comment> \<open>\<^theory_text>\<open>EventSubTaskState::m_currentBlockNumber\<close>\<close>

datatype 'ns call =
    PNumber 'ns nat             \<comment> \<open>\<^theory_text>\<open>asyncGetBlockNumber\<close> for a task\<close>
  | PBlock 'ns nat int int      \<comment> \<open>\<^theory_text>\<open>asyncGetBlockDataByNumber\<close>: task, block, end of the window\<close>

record 'ns es =
  es_running :: bool
  es_addTasks :: "nat list"
  es_addTaskCount :: "32 word"
  es_cancelTasks :: "string list"
  es_cancelTaskCount :: "32 word"
  es_tasks :: "(string, nat) fmap"
  es_maxBlockProcessPerLoop :: int
  es_heap :: "task list"
  es_calls :: "'ns call list"
  es_out :: "(session \<times> ws_message) list"

record 'ns es_env =
  env_json :: jsoncpp
  env_hex :: hexlib
  env_service :: "string \<Rightarrow> 'ns option"     \<comment> \<open>\<^theory_text>\<open>getNodeService(group, "")\<close>\<close>
  env_connected :: "session \<Rightarrow> bool"
  env_message :: ws_message

definition new_es :: "'ns es" where
  "new_es =
     \<lparr>es_running = False, es_addTasks = [], es_addTaskCount = 0, es_cancelTasks = [],
      es_cancelTaskCount = 0, es_tasks = fmempty, es_maxBlockProcessPerLoop = 10,
      es_heap = [], es_calls = [], es_out = []\<rparr>"

definition es_start :: "'ns es \<Rightarrow> 'ns es" where
  "es_start s = (if es_running s then s else s\<lparr>es_running := True\<rparr>)"

definition es_stop :: "'ns es \<Rightarrow> 'ns es" where
  "es_stop s = (if \<not> es_running s then s else s\<lparr>es_running := False\<rparr>)"

definition setMaxBlockProcessPerLoop :: "int \<Rightarrow> 'ns es \<Rightarrow> 'ns es" where
  "setMaxBlockProcessPerLoop n s = s\<lparr>es_maxBlockProcessPerLoop := n\<rparr>"

subsection \<open>Task objects\<close>

definition get_task :: "nat \<Rightarrow> 'ns es \<Rightarrow> task" where
  "get_task r s = es_heap s ! r"

definition upd_task :: "nat \<Rightarrow> (task \<Rightarrow> task) \<Rightarrow> 'ns es \<Rightarrow> 'ns es" where
  "upd_task r f s = s\<lparr>es_heap := (es_heap s)[r := f (es_heap s ! r)]\<rparr>"

definition setWork :: "bool \<Rightarrow> task \<Rightarrow> task" where
  "setWork b t = t\<lparr>t_work := b\<rparr>"

definition setCurrentBlockNumber :: "int \<Rightarrow> task \<Rightarrow> task" where
  "setCurrentBlockNumber n t = (if n > t_cur t then t\<lparr>t_cur := n\<rparr> else t)"

definition isCompleted :: "task \<Rightarrow> bool" where
  "isCompleted t \<longleftrightarrow> (if m_toBlock (t_params t) < 0 then False else t_cur t > m_toBlock (t_params t))"

subsection \<open>Messages to the client\<close>

definition asyncSendMessage :: "session \<Rightarrow> ws_message \<Rightarrow> 'ns es \<Rightarrow> 'ns es" where
  "asyncSendMessage ss m s = s\<lparr>es_out := es_out s @ [(ss, m)]\<rparr>"

definition sendResponse ::
  "'ns es_env \<Rightarrow> session \<Rightarrow> ws_message \<Rightarrow> string \<Rightarrow> int \<Rightarrow> 'ns es \<Rightarrow> bool \<times> 'ns es" where
  "sendResponse E ss m i status s =
     (if \<not> env_connected E ss then (False, s)
      else let (text, _) = response_generateJson (env_json E)
                             \<lparr>rs_id = i, rs_status = status, rs_jResp = JNull\<rparr>
           in (True, asyncSendMessage ss (m\<lparr>wm_data := text\<rparr>) s))"

definition push_message :: "'ns es_env \<Rightarrow> ws_message" where
  "push_message E = (env_message E)\<lparr>wm_type := event_message_code EVENT_LOG_PUSH\<rparr>"

definition sendEvents ::
  "'ns es_env \<Rightarrow> session \<Rightarrow> bool \<Rightarrow> string \<Rightarrow> json list \<Rightarrow> 'ns es \<Rightarrow> bool \<times> 'ns es" where
  "sendEvents E ss complete i result s =
     (if \<not> env_connected E ss then (False, s)
      else if complete then (True, snd (sendResponse E ss (push_message E) i (ep_code PUSH_COMPLETED) s))
      else if length result = 0 then (True, s)
      else let jResp = JObject (jassign [(''result'', JArray result)]
                         (response_to_json \<lparr>rs_id = i, rs_status = ep_code SUCCESS, rs_jResp = JNull\<rparr>))
           in (True, asyncSendMessage ss ((push_message E)\<lparr>wm_data := jwrite (env_json E) jResp\<rparr>) s))"

definition callback :: "'ns es_env \<Rightarrow> nat \<Rightarrow> bool \<Rightarrow> json list \<Rightarrow> 'ns es \<Rightarrow> bool \<times> 'ns es" where
  "callback E r complete result s =
     sendEvents E (t_session (get_task r s)) complete (t_id (get_task r s)) result s"

subsection \<open>Subscribing and unsubscribing\<close>

definition subscribeEventSub :: "nat \<Rightarrow> 'ns es \<Rightarrow> 'ns es" where
  "subscribeEventSub r s =
     s\<lparr>es_addTasks := es_addTasks s @ [r], es_addTaskCount := es_addTaskCount s + 1\<rparr>"

definition unsubscribeEventSub :: "string \<Rightarrow> 'ns es \<Rightarrow> 'ns es" where
  "unsubscribeEventSub i s =
     s\<lparr>es_cancelTasks := es_cancelTasks s @ [i], es_cancelTaskCount := es_cancelTaskCount s + 1\<rparr>"

definition new_task :: "event_request \<Rightarrow> session \<Rightarrow> task" where
  "new_task rq ss =
     \<lparr>t_id = rq_id rq, t_group = rq_group rq, t_params = the (rq_params rq), t_session = ss,
      t_work = False, t_cur = -1\<rparr>"

text \<open>A request that parses has its parameters set, so the \<open>the\<close> of \<open>new_task\<close> is defined.\<close>

definition onRecvSubscribeEvent :: "'ns es_env \<Rightarrow> ws_message \<Rightarrow> session \<Rightarrow> 'ns es \<Rightarrow> 'ns es" where
  "onRecvSubscribeEvent E m ss s =
     (let (ok, rq) = request_fromJson (env_json E) (wm_data m) new_event_request
      in if \<not> ok then snd (sendResponse E ss m (rq_id rq) (ep_code INVALID_PARAMS) s)
         else case env_service E (rq_group rq) of
                None \<Rightarrow> snd (sendResponse E ss m (rq_id rq) (ep_code GROUP_NOT_EXIST) s)
              | Some _ \<Rightarrow>
                  let r = length (es_heap s);
                      s1 = s\<lparr>es_heap := es_heap s @ [new_task rq ss]\<rparr>;
                      s2 = subscribeEventSub r s1
                  in snd (sendResponse E ss m (rq_id rq) (ep_code SUCCESS) s2))"

definition onRecvUnsubscribeEvent :: "'ns es_env \<Rightarrow> ws_message \<Rightarrow> session \<Rightarrow> 'ns es \<Rightarrow> 'ns es" where
  "onRecvUnsubscribeEvent E m ss s =
     (let (ok, rq) = unsub_fromJson (env_json E) (wm_data m) new_unsub_request
      in if \<not> ok then snd (sendResponse E ss m (rq_id rq) (ep_code INVALID_PARAMS) s)
         else snd (sendResponse E ss m (rq_id rq) (ep_code SUCCESS) (unsubscribeEventSub (rq_id rq) s)))"

subsection \<open>The queues of the worker\<close>

definition add_task :: "nat \<Rightarrow> 'ns es \<Rightarrow> 'ns es" where
  "add_task r s =
     (let i = t_id (get_task r s)
      in if i |\<notin>| fmdom (es_tasks s) then s\<lparr>es_tasks := fmupd i r (es_tasks s)\<rparr> else s)"

definition executeAddTasks :: "'ns es \<Rightarrow> 'ns es" where
  "executeAddTasks s =
     (if es_addTaskCount s = 0 then s
      else (fold add_task (es_addTasks s) s)\<lparr>es_addTaskCount := 0, es_addTasks := []\<rparr>)"

definition cancel_task :: "string \<Rightarrow> 'ns es \<Rightarrow> 'ns es" where
  "cancel_task i s = s\<lparr>es_tasks := fmdrop i (es_tasks s)\<rparr>"

definition executeCancelTasks :: "'ns es \<Rightarrow> 'ns es" where
  "executeCancelTasks s =
     (if es_cancelTaskCount s = 0 then s
      else (fold cancel_task (es_cancelTasks s) s)\<lparr>es_cancelTaskCount := 0, es_cancelTasks := []\<rparr>)"

subsection \<open>Working on a task\<close>

definition checkConnAvailable :: "'ns es_env \<Rightarrow> nat \<Rightarrow> 'ns es \<Rightarrow> bool \<times> 'ns es" where
  "checkConnAvailable E r s = callback E r False [] s"

definition onTaskComplete :: "'ns es_env \<Rightarrow> nat \<Rightarrow> 'ns es \<Rightarrow> 'ns es" where
  "onTaskComplete E r s = snd (callback E r True [] s)"

definition processNextBlock :: "'ns es_env \<Rightarrow> nat \<Rightarrow> int \<Rightarrow> int \<Rightarrow> 'ns es \<Rightarrow> 'ns es" where
  "processNextBlock E r b e s =
     (case env_service E (t_group (get_task r s)) of
        None \<Rightarrow> unsubscribeEventSub (t_id (get_task r s)) s
      | Some ns \<Rightarrow> s\<lparr>es_calls := es_calls s @ [PBlock ns r b e]\<rparr>)"

text \<open>\<^theory_text>\<open>RecursiveProcess::process\<close>; the recursion goes through the ledger's callback.\<close>

definition process :: "'ns es_env \<Rightarrow> nat \<Rightarrow> int \<Rightarrow> int \<Rightarrow> 'ns es \<Rightarrow> 'ns es" where
  "process E r b e s =
     (if b > e then upd_task r (setWork False) s else processNextBlock E r b e s)"

text \<open>The callback of \<^theory_text>\<open>asyncGetBlockDataByNumber\<close> with the one \<^theory_text>\<open>process\<close> passes along.\<close>

definition onBlockData ::
  "'ns es_env \<Rightarrow> nat \<Rightarrow> int \<Rightarrow> int \<Rightarrow> rpc_error option \<Rightarrow> block \<Rightarrow> 'ns es \<Rightarrow> 'ns es" where
  "onBlockData E r b e err blk s =
     (if failed err then upd_task r (setWork False) s
      else let (count, jResp) = matches_block (env_hex E) (t_params (get_task r s)) blk [];
               s1 = (if count \<noteq> 0 then snd (callback E r False jResp s) else s)
           in process E r (i64 (b + 1)) e (upd_task r (setCurrentBlockNumber (i64 (b + 1))) s1))"

definition executeEventSubTask_at :: "'ns es_env \<Rightarrow> nat \<Rightarrow> int \<Rightarrow> 'ns es \<Rightarrow> int \<times> 'ns es" where
  "executeEventSubTask_at E r n s =
     (let p = t_params (get_task r s);
          cur0 = t_cur (get_task r s);
          cur = (if cur0 < 0 then (if m_fromBlock p > 0 then m_fromBlock p else n) else cur0)
      in if n < cur then (0, s)
         else let to = m_toBlock p;
                  last = (if to > 0 \<and> to < n then to else n);
                  can0 = i64 (i64 (last - cur) + 1);
                  can = (if can0 > es_maxBlockProcessPerLoop s then es_maxBlockProcessPerLoop s else can0);
                  s1 = upd_task r (setWork True) s
              in (can, process E r cur (i64 (i64 (cur + can) - 1)) s1))"

text \<open>The callback of \<^theory_text>\<open>asyncGetBlockNumber\<close>.\<close>

definition onBlockNumber ::
  "'ns es_env \<Rightarrow> nat \<Rightarrow> rpc_error option \<Rightarrow> int \<Rightarrow> 'ns es \<Rightarrow> 'ns es" where
  "onBlockNumber E r err n s = (if failed err then s else snd (executeEventSubTask_at E r n s))"

definition executeEventSubTask :: "'ns es_env \<Rightarrow> nat \<Rightarrow> 'ns es \<Rightarrow> int \<times> 'ns es" where
  "executeEventSubTask E r s =
     (let (connAvailable, s1) = checkConnAvailable E r s; t = get_task r s1
      in if \<not> connAvailable then (-1, unsubscribeEventSub (t_id t) s1)
         else if isCompleted t then (0, onTaskComplete E r (unsubscribeEventSub (t_id t) s1))
         else if t_work t then (0, s1)
         else case env_service E (t_group t) of
                None \<Rightarrow> (-1, unsubscribeEventSub (t_id t) s1)
              | Some ns \<Rightarrow> (0, s1\<lparr>es_calls := es_calls s1 @ [PNumber ns r]\<rparr>))"

text \<open>The table is an \<^theory_text>\<open>unordered_map\<close>: the order of its keys is an argument.\<close>

definition executeEventSubTasks :: "'ns es_env \<Rightarrow> string list \<Rightarrow> 'ns es \<Rightarrow> 'ns es" where
  "executeEventSubTasks E order s =
     fold (\<lambda>i s. case fmlookup (es_tasks s) i of None \<Rightarrow> s | Some r \<Rightarrow> snd (executeEventSubTask E r s))
       order s"

definition executeWorker :: "'ns es_env \<Rightarrow> string list \<Rightarrow> 'ns es \<Rightarrow> 'ns es" where
  "executeWorker E order s = executeEventSubTasks E order (executeAddTasks (executeCancelTasks s))"

subsection \<open>The service as a step relation\<close>

text \<open>
  Each event carries what its handler saw. A ledger answers any of the outstanding
  requests; a block number it reports is not negative and leaves room for the next one. The
  worker walks the keys of the task table as it is after the queues were emptied, in any
  order. \<^theory_text>\<open>fromBlock\<close> and \<^theory_text>\<open>toBlock\<close> are 64-bit numbers, as \<^theory_text>\<open>asInt64\<close> returns them.
\<close>

datatype 'ns es_event =
    Start
  | Stop
  | Subscribe "'ns es_env" ws_message session
  | Unsubscribe "'ns es_env" ws_message session
  | Worker "'ns es_env" "string list"
  | NumberReply "'ns es_env" nat 'ns nat "rpc_error option" int
  | BlockReply "'ns es_env" nat 'ns nat int int "rpc_error option" block

definition remove_at :: "nat \<Rightarrow> 'a list \<Rightarrow> 'a list" where
  "remove_at i xs = take i xs @ drop (Suc i) xs"

definition take_call :: "nat \<Rightarrow> 'ns es \<Rightarrow> 'ns es" where
  "take_call i s = s\<lparr>es_calls := remove_at i (es_calls s)\<rparr>"

inductive es_step :: "'ns es \<Rightarrow> 'ns es_event \<Rightarrow> 'ns es \<Rightarrow> bool" where
  start: "es_step s Start (es_start s)"
| stop: "es_step s Stop (es_stop s)"
| subscribe: "json_ranged (env_json E) \<Longrightarrow>
     es_step s (Subscribe E m ss) (onRecvSubscribeEvent E m ss s)"
| unsubscribe: "es_step s (Unsubscribe E m ss) (onRecvUnsubscribeEvent E m ss s)"
| worker: "es_running s \<Longrightarrow> distinct order \<Longrightarrow>
     fset_of_list order = fmdom (es_tasks (executeAddTasks (executeCancelTasks s))) \<Longrightarrow>
     es_step s (Worker E order) (executeWorker E order s)"
| number_reply: "i < length (es_calls s) \<Longrightarrow> es_calls s ! i = PNumber ns r \<Longrightarrow>
     0 \<le> n \<Longrightarrow> n < 2 ^ 63 - 1 \<Longrightarrow>
     es_step s (NumberReply E i ns r err n) (onBlockNumber E r err n (take_call i s))"
| block_reply: "i < length (es_calls s) \<Longrightarrow> es_calls s ! i = PBlock ns r b e \<Longrightarrow>
     es_step s (BlockReply E i ns r b e err blk) (onBlockData E r b e err blk (take_call i s))"

inductive_cases es_step_cases: "es_step s ev t"

end
