(* ===== verification/EventSubProps.thy ===== *)
theory EventSubProps
  imports EventSub
begin

text \<open>
  Correctness of the event subscription service: the queues, the invariant of the step
  relation (windows of blocks, progress of a task), the order in which a task sees the
  blocks, and what the handlers send.
\<close>

subsection \<open>What is sent\<close>

definition response_msgs ::
  "'ns es_env \<Rightarrow> session \<Rightarrow> ws_message \<Rightarrow> string \<Rightarrow> int \<Rightarrow> (session \<times> ws_message) list" where
  "response_msgs E ss m i status =
     (if env_connected E ss
      then [(ss, m\<lparr>wm_data := jwrite (env_json E)
               (JObject (response_to_json \<lparr>rs_id = i, rs_status = status, rs_jResp = JNull\<rparr>))\<rparr>)]
      else [])"

definition event_msgs ::
  "'ns es_env \<Rightarrow> session \<Rightarrow> bool \<Rightarrow> string \<Rightarrow> json list \<Rightarrow> (session \<times> ws_message) list" where
  "event_msgs E ss complete i result =
     (if \<not> env_connected E ss then []
      else if complete then response_msgs E ss (push_message E) i (ep_code PUSH_COMPLETED)
      else if result = [] then []
      else [(ss, (push_message E)\<lparr>wm_data := jwrite (env_json E)
              (JObject (jassign [(''result'', JArray result)]
                 (response_to_json \<lparr>rs_id = i, rs_status = ep_code SUCCESS, rs_jResp = JNull\<rparr>)))\<rparr>)])"

lemma sendResponse_eq [simp]:
  "sendResponse E ss m i status s =
     (env_connected E ss, s\<lparr>es_out := es_out s @ response_msgs E ss m i status\<rparr>)"
  by (simp add: sendResponse_def response_msgs_def asyncSendMessage_def response_generateJson_def Let_def)

lemma sendEvents_eq [simp]:
  "sendEvents E ss complete i result s =
     (env_connected E ss, s\<lparr>es_out := es_out s @ event_msgs E ss complete i result\<rparr>)"
  by (simp add: sendEvents_def event_msgs_def asyncSendMessage_def)

lemma callback_eq [simp]:
  "callback E r complete result s =
     (env_connected E (t_session (get_task r s)),
      s\<lparr>es_out := es_out s @ event_msgs E (t_session (get_task r s)) complete (t_id (get_task r s)) result\<rparr>)"
  by (simp add: callback_def)

lemma checkConnAvailable_eq [simp]:
  "checkConnAvailable E r s = (env_connected E (t_session (get_task r s)), s)"
  by (simp add: checkConnAvailable_def event_msgs_def)

lemma get_task_update [simp]:
  "get_task r (s\<lparr>es_out := x1\<rparr>) = get_task r s" "get_task r (s\<lparr>es_calls := x2\<rparr>) = get_task r s"
  "get_task r (s\<lparr>es_tasks := x3\<rparr>) = get_task r s" "get_task r (s\<lparr>es_running := x4\<rparr>) = get_task r s"
  "get_task r (s\<lparr>es_addTasks := x5, es_addTaskCount := x6\<rparr>) = get_task r s"
  "get_task r (s\<lparr>es_addTaskCount := x6, es_addTasks := x5\<rparr>) = get_task r s"
  "get_task r (s\<lparr>es_cancelTasks := x7, es_cancelTaskCount := x8\<rparr>) = get_task r s"
  "get_task r (s\<lparr>es_cancelTaskCount := x8, es_cancelTasks := x7\<rparr>) = get_task r s"
  "get_task r (unsubscribeEventSub i s) = get_task r s"
  by (simp_all add: get_task_def unsubscribeEventSub_def)

subsection \<open>The two queues\<close>

lemma of_nat_32_eq_0: "n < 2 ^ 32 \<Longrightarrow> (of_nat n :: 32 word) = 0 \<longleftrightarrow> n = 0"
  by (auto simp: word_of_nat_eq_0_iff dest: nat_dvd_not_less)

text \<open>
  Both queues of the service keep a vector and an atomic counter, filled by the handlers
  and emptied by the worker, which only looks at the counter.
\<close>

locale pending_queue =
  fixes push :: "'a \<Rightarrow> 's \<Rightarrow> 's"
    and drain :: "'s \<Rightarrow> 's"
    and pending :: "'s \<Rightarrow> 'a list"
    and count :: "'s \<Rightarrow> 32 word"
  assumes pending_push: "pending (push x s) = pending s @ [x]"
    and count_push: "count (push x s) = count s + 1"
    and pending_drain: "pending (drain s) = (if count s = 0 then pending s else [])"
    and count_drain: "count (drain s) = 0"
begin

definition counted :: "'s \<Rightarrow> bool" where
  "counted s \<longleftrightarrow> count s = of_nat (length (pending s))"

lemma counted_push: "counted s \<Longrightarrow> counted (push x s)"
  by (simp add: counted_def pending_push count_push)

lemma counted_drain: "counted s \<Longrightarrow> counted (drain s)"
  by (auto simp: counted_def pending_drain count_drain)

lemma drain_empties:
  assumes "counted s" and "length (pending s) < 2 ^ 32" shows "pending (drain s) = []"
proof (cases "count s = 0")
  case True
  with assms have "length (pending s) = 0" by (simp add: counted_def of_nat_32_eq_0)
  with True show ?thesis by (simp add: pending_drain)
qed (simp add: pending_drain)

lemma drain_pushed:
  "counted s \<Longrightarrow> length (pending s) < 2 ^ 32 - 1 \<Longrightarrow> pending (drain (push x s)) = []"
  by (rule drain_empties) (simp_all add: counted_push pending_push)

end

lemma add_task_fields:
  "es_addTasks (fold add_task rs s) = es_addTasks s"
  "es_addTaskCount (fold add_task rs s) = es_addTaskCount s"
  "es_cancelTasks (fold add_task rs s) = es_cancelTasks s"
  "es_cancelTaskCount (fold add_task rs s) = es_cancelTaskCount s"
  "es_heap (fold add_task rs s) = es_heap s" "es_calls (fold add_task rs s) = es_calls s"
  "es_out (fold add_task rs s) = es_out s" "es_running (fold add_task rs s) = es_running s"
  "es_maxBlockProcessPerLoop (fold add_task rs s) = es_maxBlockProcessPerLoop s"
  by (induction rs arbitrary: s) (auto simp: add_task_def Let_def)

lemma cancel_task_fold:
  "fold cancel_task is s = s\<lparr>es_tasks := fold fmdrop is (es_tasks s)\<rparr>"
  by (induction "is" arbitrary: s) (auto simp: cancel_task_def)

interpretation addq: pending_queue subscribeEventSub executeAddTasks es_addTasks es_addTaskCount
  by unfold_locales (simp_all add: subscribeEventSub_def executeAddTasks_def)

interpretation cancelq: pending_queue unsubscribeEventSub executeCancelTasks es_cancelTasks es_cancelTaskCount
  by unfold_locales (simp_all add: unsubscribeEventSub_def executeCancelTasks_def)

subsection \<open>The invariant of the step relation\<close>

fun call_ref :: "'ns call \<Rightarrow> nat" where
  "call_ref (PNumber ns r) = r"
| "call_ref (PBlock ns r b e) = r"

definition task_ok :: "task \<Rightarrow> bool" where
  "task_ok t \<longleftrightarrow> in_i64 (m_fromBlock (t_params t)) \<and> in_i64 (m_toBlock (t_params t)) \<and>
     (t_cur t = -1 \<or> 1 \<le> t_cur t \<and> t_cur t < 2 ^ 63 \<and>
        (0 < m_fromBlock (t_params t) \<longrightarrow> m_fromBlock (t_params t) < t_cur t) \<and>
        (0 < m_toBlock (t_params t) \<longrightarrow> t_cur t \<le> m_toBlock (t_params t) + 1))"

definition window_ok :: "params \<Rightarrow> int \<Rightarrow> int \<Rightarrow> bool" where
  "window_ok p b e \<longleftrightarrow> 0 \<le> b \<and> b \<le> e \<and> e < b + 10 \<and> e < 2 ^ 63 - 1 \<and>
     (0 < m_fromBlock p \<longrightarrow> m_fromBlock p \<le> b) \<and> (0 < m_toBlock p \<longrightarrow> e \<le> m_toBlock p)"

fun call_ok :: "task list \<Rightarrow> 'ns call \<Rightarrow> bool" where
  "call_ok h (PNumber ns r) \<longleftrightarrow> r < length h"
| "call_ok h (PBlock ns r b e) \<longleftrightarrow> r < length h \<and> window_ok (t_params (h ! r)) b e"

definition es_wf :: "'ns es \<Rightarrow> bool" where
  "es_wf s \<longleftrightarrow> es_maxBlockProcessPerLoop s = 10 \<and>
     (\<forall>t \<in> set (es_heap s). task_ok t) \<and>
     (\<forall>c \<in> set (es_calls s). call_ok (es_heap s) c) \<and>
     (\<forall>r \<in> set (es_addTasks s). r < length (es_heap s)) \<and>
     fmpred (\<lambda>i r. r < length (es_heap s) \<and> t_id (get_task r s) = i) (es_tasks s)"

lemma es_wf_new: "es_wf new_es"
  by (simp add: es_wf_def new_es_def)

lemma es_wf_task: "es_wf s \<Longrightarrow> r < length (es_heap s) \<Longrightarrow> task_ok (get_task r s)"
  by (simp add: es_wf_def get_task_def)

lemma es_wf_table:
  "es_wf s \<Longrightarrow> fmlookup (es_tasks s) i = Some r \<Longrightarrow> r < length (es_heap s) \<and> t_id (get_task r s) = i"
  by (auto simp: es_wf_def)

lemma es_wf_out [simp]: "es_wf (s\<lparr>es_out := x\<rparr>) = es_wf s"
  by (simp add: es_wf_def)

lemma es_wf_running [simp]: "es_wf (s\<lparr>es_running := x\<rparr>) = es_wf s"
  by (simp add: es_wf_def)

lemma es_wf_unsubscribe [simp]: "es_wf (unsubscribeEventSub i s) = es_wf s"
  by (simp add: es_wf_def unsubscribeEventSub_def)

lemma call_ok_upd:
  "call_ok (h[r := t]) c \<longleftrightarrow> call_ok h c"
  if "t_params t = t_params (h ! r)"
  using that by (cases c; cases "r < length h") (auto simp: nth_list_update)

text \<open>An update of a task that keeps its id and parameters, and its block in range.\<close>

lemma es_wf_upd_task:
  assumes wf: "es_wf s" and r: "r < length (es_heap s)" and t: "task_ok (f (get_task r s))"
    and "t_params (f (get_task r s)) = t_params (get_task r s)" and "t_id (f (get_task r s)) = t_id (get_task r s)"
  shows "es_wf (upd_task r f s)"
proof -
  have "task_ok t'" if "t' \<in> set ((es_heap s)[r := f (es_heap s ! r)])" for t'
    using that wf t set_update_subset_insert [of "es_heap s" r "f (es_heap s ! r)"]
    by (auto simp: es_wf_def get_task_def)
  moreover have "fmpred (\<lambda>i r'. r' < length (es_heap s) \<and> t_id (get_task r' (upd_task r f s)) = i) (es_tasks s)"
  proof
    fix i r' assume "fmlookup (es_tasks s) i = Some r'"
    with es_wf_table [OF wf] r assms(5)
    show "r' < length (es_heap s) \<and> t_id (get_task r' (upd_task r f s)) = i"
      by (auto simp: upd_task_def get_task_def nth_list_update)
  qed
  ultimately show ?thesis
    using wf assms(4) by (simp add: es_wf_def upd_task_def call_ok_upd get_task_def)
qed

lemma upd_task_fields [simp]:
  "es_calls (upd_task r f s) = es_calls s" "es_addTasks (upd_task r f s) = es_addTasks s"
  "es_tasks (upd_task r f s) = es_tasks s" "es_out (upd_task r f s) = es_out s"
  "es_cancelTasks (upd_task r f s) = es_cancelTasks s"
  "es_maxBlockProcessPerLoop (upd_task r f s) = es_maxBlockProcessPerLoop s"
  "length (es_heap (upd_task r f s)) = length (es_heap s)"
  by (simp_all add: upd_task_def)

lemma get_task_upd [simp]:
  "r < length (es_heap s) \<Longrightarrow> get_task r (upd_task r f s) = f (get_task r s)"
  "r' \<noteq> r \<Longrightarrow> get_task r' (upd_task r f s) = get_task r' s"
  by (simp_all add: upd_task_def get_task_def)

lemma setWork_fields [simp]:
  "t_params (setWork b t) = t_params t" "t_id (setWork b t) = t_id t" "t_cur (setWork b t) = t_cur t"
  "t_group (setWork b t) = t_group t" "t_session (setWork b t) = t_session t" "t_work (setWork b t) = b"
  "task_ok (setWork b t) = task_ok t"
  by (simp_all add: setWork_def task_ok_def)

lemma setCurrent_fields [simp]:
  "t_params (setCurrentBlockNumber n t) = t_params t" "t_id (setCurrentBlockNumber n t) = t_id t"
  "t_group (setCurrentBlockNumber n t) = t_group t" "t_work (setCurrentBlockNumber n t) = t_work t"
  "t_session (setCurrentBlockNumber n t) = t_session t"
  "t_cur (setCurrentBlockNumber n t) = max n (t_cur t)"
  by (simp_all add: setCurrentBlockNumber_def)

lemma es_wf_call:
  "es_wf s \<Longrightarrow> call_ok (es_heap s) c \<Longrightarrow> es_wf (s\<lparr>es_calls := es_calls s @ [c]\<rparr>)"
  by (auto simp: es_wf_def)

lemma process_wf:
  assumes "es_wf s" and "r < length (es_heap s)"
    and "b \<le> e \<Longrightarrow> window_ok (t_params (get_task r s)) b e"
  shows "es_wf (process E r b e s)"
proof (cases "b > e")
  case True
  with assms show ?thesis
    by (simp add: process_def es_wf_upd_task es_wf_task)
next
  case False
  with assms show ?thesis
    by (cases "env_service E (t_group (get_task r s))")
      (simp_all add: process_def processNextBlock_def es_wf_call get_task_def)
qed

lemma executeEventSubTask_at_wf:
  assumes wf: "es_wf s" and r: "r < length (es_heap s)" and n: "0 \<le> n" "n < 2 ^ 63 - 1"
  shows "es_wf (snd (executeEventSubTask_at E r n s))"
proof -
  define p where "p = t_params (get_task r s)"
  define cur0 where "cur0 = t_cur (get_task r s)"
  define cur where "cur = (if cur0 < 0 then (if m_fromBlock p > 0 then m_fromBlock p else n) else cur0)"
  define last where "last = (if m_toBlock p > 0 \<and> m_toBlock p < n then m_toBlock p else n)"
  define can0 where "can0 = i64 (i64 (last - cur) + 1)"
  define can where "can = (if can0 > es_maxBlockProcessPerLoop s then es_maxBlockProcessPerLoop s else can0)"
  have ok: "task_ok (get_task r s)" by (rule es_wf_task [OF wf r])
  have "es_wf (snd (can, process E r cur (i64 (i64 (cur + can) - 1)) (upd_task r (setWork True) s)))"
    if le: "cur \<le> n"
  proof -
    have cur: "0 \<le> cur" using ok n by (auto simp: cur_def cur0_def p_def task_ok_def)
    have last: "0 \<le> last" "last \<le> n" "0 < m_toBlock p \<Longrightarrow> last \<le> m_toBlock p"
      using n by (auto simp: last_def)
    have "i64 (last - cur) = last - cur" using cur last le n by (intro i64_between) auto
    moreover have "i64 (last - cur + 1) = last - cur + 1"
    proof (cases "cur = 0 \<and> last = n")
      case True
      then have "last - cur + 1 < 2 ^ 63" using n by simp
      with cur last le n show ?thesis by (intro i64_between) auto
    qed (use cur last le n in \<open>auto intro!: i64_between\<close>)
    ultimately have can0: "can0 = last - cur + 1" by (simp add: can0_def)
    have can: "can \<le> 10" "can \<le> last - cur + 1"
      using wf by (auto simp: can_def can0 es_wf_def)
    have lo: "- (2 ^ 63) < cur + can"
      using cur last n le can0 wf by (auto simp: can_def es_wf_def)
    have e: "i64 (i64 (cur + can) - 1) = cur + can - 1"
    proof -
      have "i64 (cur + can) = cur + can" using can cur last n lo by (intro i64_between) auto
      then show ?thesis using can cur last n lo by (auto intro!: i64_between)
    qed
    have "window_ok p cur (cur + can - 1)" if "cur \<le> cur + can - 1"
      using that can cur last n ok
      by (auto simp: window_ok_def cur_def cur0_def p_def task_ok_def)
    then show ?thesis
      using wf r ok by (simp add: e process_wf es_wf_upd_task p_def)
  qed
  moreover have "executeEventSubTask_at E r n s =
      (if n < cur then (0, s)
       else (can, process E r cur (i64 (i64 (cur + can) - 1)) (upd_task r (setWork True) s)))"
    by (simp only: executeEventSubTask_at_def Let_def p_def cur0_def cur_def last_def can0_def can_def)
  ultimately show ?thesis
    using wf by simp
qed

lemma onBlockNumber_wf:
  assumes "es_wf s" and "r < length (es_heap s)" and "0 \<le> n" and "n < 2 ^ 63 - 1"
  shows "es_wf (onBlockNumber E r err n s)"
  using assms by (simp add: onBlockNumber_def executeEventSubTask_at_wf)

lemma onBlockData_wf:
  assumes wf: "es_wf s" and r: "r < length (es_heap s)" and w: "window_ok (t_params (get_task r s)) b e"
  shows "es_wf (onBlockData E r b e err blk s)"
proof (cases "failed err")
  case True
  with wf r show ?thesis by (simp add: onBlockData_def es_wf_upd_task es_wf_task)
next
  case False
  have b: "i64 (b + 1) = b + 1"
    using w by (intro i64_between) (auto simp: window_ok_def)
  let ?f = "setCurrentBlockNumber (b + 1)"
  have "task_ok (?f (get_task r s))"
    using es_wf_task [OF wf r] w by (auto simp: task_ok_def window_ok_def max_def)
  moreover have "window_ok (t_params (get_task r s)) (b + 1) e" if "b + 1 \<le> e"
    using w that by (auto simp: window_ok_def)
  ultimately have *: "es_wf (process E r (b + 1) e (upd_task r ?f (s\<lparr>es_out := x\<rparr>)))" for x
    using wf r by (intro process_wf es_wf_upd_task) simp_all
  from this [of "es_out s"] * False show ?thesis
    by (simp add: onBlockData_def b Let_def split: prod.split)
qed

lemma executeEventSubTask_wf:
  assumes "es_wf s" and "r < length (es_heap s)"
  shows "es_wf (snd (executeEventSubTask E r s))"
  using assms
  by (cases "env_service E (t_group (get_task r s))")
    (simp_all add: executeEventSubTask_def Let_def onTaskComplete_def es_wf_call)

lemma executeEventSubTask_fields [simp]:
  "es_heap (snd (executeEventSubTask E r s)) = es_heap s"
  "es_tasks (snd (executeEventSubTask E r s)) = es_tasks s"
  "es_addTasks (snd (executeEventSubTask E r s)) = es_addTasks s"
  "get_task r' (snd (executeEventSubTask E r s)) = get_task r' s"
  by (cases "env_service E (t_group (get_task r s))",
      simp_all add: executeEventSubTask_def Let_def onTaskComplete_def unsubscribeEventSub_def get_task_def)+

lemma executeEventSubTasks_snoc:
  "executeEventSubTasks E (is @ [i]) s =
     (let t = executeEventSubTasks E is s
      in case fmlookup (es_tasks t) i of None \<Rightarrow> t | Some r \<Rightarrow> snd (executeEventSubTask E r t))"
  by (simp add: executeEventSubTasks_def Let_def)

lemma executeEventSubTasks_nil [simp]: "executeEventSubTasks E [] s = s"
  by (simp add: executeEventSubTasks_def)

lemma executeEventSubTasks_fields [simp]:
  "es_heap (executeEventSubTasks E order s) = es_heap s"
  "es_tasks (executeEventSubTasks E order s) = es_tasks s"
  "es_addTasks (executeEventSubTasks E order s) = es_addTasks s"
  "get_task r (executeEventSubTasks E order s) = get_task r s"
  by (induction order rule: rev_induct)
    (simp_all add: executeEventSubTasks_snoc Let_def split: option.split)

lemma executeEventSubTasks_wf:
  "es_wf s \<Longrightarrow> es_wf (executeEventSubTasks E order s)"
proof (induction order rule: rev_induct)
  case (snoc i "is")
  then have wf: "es_wf (executeEventSubTasks E is s)" by simp
  from es_wf_table [OF this] executeEventSubTask_wf [OF this] wf show ?case
    by (auto simp: executeEventSubTasks_snoc Let_def split: option.split)
qed simp

lemma executeAddTasks_frame [simp]:
  "es_heap (executeAddTasks s) = es_heap s" "es_calls (executeAddTasks s) = es_calls s"
  "es_out (executeAddTasks s) = es_out s" "es_cancelTasks (executeAddTasks s) = es_cancelTasks s"
  "es_maxBlockProcessPerLoop (executeAddTasks s) = es_maxBlockProcessPerLoop s"
  "get_task r (executeAddTasks s) = get_task r s"
  by (simp_all add: executeAddTasks_def add_task_fields get_task_def)

lemma executeCancelTasks_frame [simp]:
  "es_heap (executeCancelTasks s) = es_heap s" "es_calls (executeCancelTasks s) = es_calls s"
  "es_out (executeCancelTasks s) = es_out s" "es_addTasks (executeCancelTasks s) = es_addTasks s"
  "es_addTaskCount (executeCancelTasks s) = es_addTaskCount s"
  "es_maxBlockProcessPerLoop (executeCancelTasks s) = es_maxBlockProcessPerLoop s"
  "get_task r (executeCancelTasks s) = get_task r s"
  by (simp_all add: executeCancelTasks_def cancel_task_fold get_task_def)

lemma executeCancelTasks_tasks:
  "fmlookup (es_tasks (executeCancelTasks s)) i =
     (if es_cancelTaskCount s \<noteq> 0 \<and> i \<in> set (es_cancelTasks s) then None else fmlookup (es_tasks s) i)"
  by (simp add: executeCancelTasks_def cancel_task_fold fmlookup_fold_fmdrop)

lemma executeCancelTasks_wf: "es_wf s \<Longrightarrow> es_wf (executeCancelTasks s)"
  by (auto simp: es_wf_def fmpred_iff executeCancelTasks_tasks)

text \<open>The first of the new tasks with a fresh id enters the table.\<close>

lemma add_task_fold:
  "fmlookup (es_tasks (fold add_task rs s)) i =
     (case fmlookup (es_tasks s) i of Some r \<Rightarrow> Some r
      | None \<Rightarrow> find (\<lambda>r. t_id (get_task r s) = i) rs)"
proof (induction rs arbitrary: s)
  case (Cons r rs)
  have g: "get_task r' (add_task r s) = get_task r' s" for r'
    by (simp add: add_task_def Let_def)
  have l: "fmlookup (es_tasks (add_task r s)) i =
      (case fmlookup (es_tasks s) i of Some r' \<Rightarrow> Some r'
       | None \<Rightarrow> if t_id (get_task r s) = i then Some r else None)"
  proof (cases "t_id (get_task r s) |\<in>| fmdom (es_tasks s)")
    case True
    then obtain q where "fmlookup (es_tasks s) (t_id (get_task r s)) = Some q"
      by (auto simp: fmlookup_dom_iff)
    with True show ?thesis
      by (cases "fmlookup (es_tasks s) i") (auto simp: add_task_def Let_def)
  next
    case False
    then have "fmlookup (es_tasks s) (t_id (get_task r s)) = None"
      by (simp add: fmlookup_None_iff)
    with False show ?thesis
      by (cases "fmlookup (es_tasks s) i") (auto simp: add_task_def Let_def)
  qed
  show ?case
    by (cases "fmlookup (es_tasks s) i") (simp_all add: Cons.IH g l)
qed (simp split: option.split)

lemma executeAddTasks_tasks:
  "fmlookup (es_tasks (executeAddTasks s)) i =
     (if es_addTaskCount s = 0 then fmlookup (es_tasks s) i
      else case fmlookup (es_tasks s) i of Some r \<Rightarrow> Some r
           | None \<Rightarrow> find (\<lambda>r. t_id (get_task r s) = i) (es_addTasks s))"
  by (simp add: executeAddTasks_def add_task_fold)

lemma executeAddTasks_wf:
  assumes wf: "es_wf s" shows "es_wf (executeAddTasks s)"
proof -
  have found: "r < length (es_heap s) \<and> t_id (get_task r s) = i"
    if "find (\<lambda>r. t_id (get_task r s) = i) (es_addTasks s) = Some r" for i r
  proof -
    from that have "r \<in> set (es_addTasks s)" and "t_id (get_task r s) = i"
      by (auto simp: find_Some_iff)
    with wf show ?thesis by (simp add: es_wf_def)
  qed
  have "r < length (es_heap s) \<and> t_id (get_task r s) = i"
    if "fmlookup (es_tasks (executeAddTasks s)) i = Some r" for i r
    using that es_wf_table [OF wf, of i] found [of i r]
    by (cases "es_addTaskCount s = 0"; cases "fmlookup (es_tasks s) i")
      (simp_all add: executeAddTasks_tasks)
  then show ?thesis
    using wf by (auto simp: es_wf_def fmpred_iff addq.pending_drain)
qed

lemma executeWorker_wf: "es_wf s \<Longrightarrow> es_wf (executeWorker E order s)"
  by (simp add: executeWorker_def executeEventSubTasks_wf executeAddTasks_wf executeCancelTasks_wf)

lemma request_fromJson_ranged:
  assumes J: "json_ranged J" and "request_fromJson J text new_event_request = (True, rq)"
  shows "\<exists>p. rq_params rq = Some p \<and> ranged p"
proof -
  from request_fromJson_cases [OF assms(2)] obtain rid g p where
    "parse_request J text = Inr (Inr (rid, g, p))" and rq: "rq_params rq = Some p"
    by auto
  then obtain v where "parse_params J v = Inr p"
    by (elim parse_request_success)
  with J rq parse_params_ranged show ?thesis by blast
qed

lemma es_wf_subscribe:
  assumes wf: "es_wf s" and t: "task_ok t"
  shows "es_wf (subscribeEventSub (length (es_heap s)) (s\<lparr>es_heap := es_heap s @ [t]\<rparr>))"
proof -
  have "call_ok (es_heap s @ [t]) c" if "call_ok (es_heap s) c" for c :: "'a call"
    using that by (cases c) (auto simp: nth_append)
  then show ?thesis
    using wf t by (auto simp: es_wf_def subscribeEventSub_def fmpred_iff get_task_def nth_append less_SucI)
qed

lemma onRecvSubscribeEvent_wf:
  assumes wf: "es_wf s" and J: "json_ranged (env_json E)"
  shows "es_wf (onRecvSubscribeEvent E m ss s)"
proof -
  obtain ok rq where r: "request_fromJson (env_json E) (wm_data m) new_event_request = (ok, rq)"
    by fastforce
  show ?thesis
  proof (cases "ok \<and> env_service E (rq_group rq) \<noteq> None")
    case True
    with r obtain p where "rq_params rq = Some p" "ranged p"
      using request_fromJson_ranged [OF J, of "wm_data m" rq] by auto
    then have "task_ok (new_task rq ss)"
      by (simp add: task_ok_def new_task_def ranged_def)
    from es_wf_subscribe [OF wf this] True show ?thesis
      by (auto simp: onRecvSubscribeEvent_def r Let_def)
  next
    case False
    with wf show ?thesis
      by (cases ok) (auto simp: onRecvSubscribeEvent_def r)
  qed
qed

lemma onRecvUnsubscribeEvent_wf: "es_wf s \<Longrightarrow> es_wf (onRecvUnsubscribeEvent E m ss s)"
  by (simp add: onRecvUnsubscribeEvent_def split: prod.split)

lemma set_remove_at: "set (remove_at i xs) \<subseteq> set xs"
  using set_take_subset [of i xs] set_drop_subset [of "Suc i" xs] by (auto simp: remove_at_def)

lemma take_call_wf: "es_wf s \<Longrightarrow> es_wf (take_call i s)"
  using set_remove_at [of i "es_calls s"]
  by (auto simp: es_wf_def take_call_def get_task_def fmpred_iff)

lemma take_call_fields [simp]:
  "es_heap (take_call i s) = es_heap s" "get_task r (take_call i s) = get_task r s"
  "es_calls (take_call i s) = remove_at i (es_calls s)"
  by (simp_all add: take_call_def)

lemma es_wf_call_ok: "es_wf s \<Longrightarrow> i < length (es_calls s) \<Longrightarrow> call_ok (es_heap s) (es_calls s ! i)"
  by (simp add: es_wf_def)

interpretation es: step_invariant es_step "new_es :: 'ns es" es_wf
proof
  show "es_wf (new_es :: 'ns es)" by (rule es_wf_new)
  fix s t :: "'ns es" and ev
  assume wf: "es_wf s" and "es_step s ev t"
  from this(2) show "es_wf t"
  proof cases
    case (number_reply i ns r n E err)
    with es_wf_call_ok [OF wf number_reply(3)] take_call_wf [OF wf] show ?thesis
      by (auto intro: onBlockNumber_wf)
  next
    case (block_reply i ns r b e E err blk)
    with es_wf_call_ok [OF wf block_reply(3)] take_call_wf [OF wf] show ?thesis
      by (auto intro!: onBlockData_wf simp: get_task_def)
  qed (use wf in \<open>simp_all add: es_start_def es_stop_def onRecvSubscribeEvent_wf onRecvUnsubscribeEvent_wf
      executeWorker_wf\<close>)
qed

subsection \<open>The blocks a task has seen\<close>

text \<open>
  The blocks whose data was delivered for a task, in the order of the deliveries. A run is
  sequential if the worker never walks the tasks while a block-number request is
  unanswered.
\<close>

fun delivered :: "nat \<Rightarrow> 'ns es_event \<Rightarrow> int list" where
  "delivered r (BlockReply E i ns r' b e err blk) = (if r' = r \<and> \<not> failed err then [b] else [])"
| "delivered r _ = []"

definition blocks_seen :: "nat \<Rightarrow> 'ns es_event list \<Rightarrow> int list" where
  "blocks_seen r es = concat (map (delivered r) es)"

lemma blocks_seen_simps [simp]:
  "blocks_seen r [] = []" "blocks_seen r (es @ [ev]) = blocks_seen r es @ delivered r ev"
  by (simp_all add: blocks_seen_def)

fun is_number :: "'ns call \<Rightarrow> bool" where
  "is_number (PNumber ns r) = True"
| "is_number (PBlock ns r b e) = False"

inductive seq_step :: "'ns es \<Rightarrow> 'ns es_event \<Rightarrow> 'ns es \<Rightarrow> bool" where
  "es_step s ev t \<Longrightarrow> (\<And>E order c. ev = Worker E order \<Longrightarrow> c \<in> set (es_calls s) \<Longrightarrow> \<not> is_number c) \<Longrightarrow>
     seq_step s ev t"

definition calls_of :: "nat \<Rightarrow> 'ns call list \<Rightarrow> 'ns call list" where
  "calls_of r cs = filter (\<lambda>c. call_ref c = r) cs"

text \<open>The state of one task against what it has seen so far.\<close>

definition seen_ok :: "task \<Rightarrow> int list \<Rightarrow> bool" where
  "seen_ok t bs \<longleftrightarrow>
     (if t_cur t = -1 then bs = []
      else \<exists>b0. b0 < t_cur t \<and> bs = [b0..t_cur t - 1] \<and>
             (0 < m_fromBlock (t_params t) \<longrightarrow> b0 = m_fromBlock (t_params t)))"

definition next_ok :: "task \<Rightarrow> int \<Rightarrow> bool" where
  "next_ok t b \<longleftrightarrow>
     (if t_cur t = -1 then (0 < m_fromBlock (t_params t) \<longrightarrow> b = m_fromBlock (t_params t)) else b = t_cur t)"

fun call_fits :: "task \<Rightarrow> 'ns call \<Rightarrow> bool" where
  "call_fits t (PNumber ns r) \<longleftrightarrow> \<not> t_work t"
| "call_fits t (PBlock ns r b e) \<longleftrightarrow> t_work t \<and> next_ok t b"

definition fits :: "task \<Rightarrow> 'ns call list \<Rightarrow> bool" where
  "fits t cs \<longleftrightarrow> length cs \<le> 1 \<and> (\<forall>c \<in> set cs. call_fits t c)"

definition seq_inv :: "'ns es_event list \<Rightarrow> 'ns es \<Rightarrow> bool" where
  "seq_inv es s \<longleftrightarrow> es_wf s \<and>
     (\<forall>r. if r < length (es_heap s)
          then seen_ok (get_task r s) (blocks_seen r es) \<and> fits (get_task r s) (calls_of r (es_calls s))
          else blocks_seen r es = [])"

lemma seq_invD:
  assumes "seq_inv es s"
  shows "es_wf s"
    and "r < length (es_heap s) \<Longrightarrow> seen_ok (get_task r s) (blocks_seen r es)"
    and "r < length (es_heap s) \<Longrightarrow> fits (get_task r s) (calls_of r (es_calls s))"
    and "\<not> r < length (es_heap s) \<Longrightarrow> blocks_seen r es = []"
  using assms by (auto simp: seq_inv_def split: if_splits)

lemma calls_of_simps [simp]:
  "calls_of r [] = []" "calls_of r (cs @ ds) = calls_of r cs @ calls_of r ds"
  "calls_of r (c # cs) = (if call_ref c = r then c # calls_of r cs else calls_of r cs)"
  by (simp_all add: calls_of_def)

lemma calls_of_remove_at:
  assumes "i < length cs"
  shows "calls_of r (remove_at i cs) =
    (if call_ref (cs ! i) = r then calls_of r (take i cs) @ calls_of r (drop (Suc i) cs) else calls_of r cs)"
proof -
  have "calls_of r cs = calls_of r (take i cs) @ calls_of r [cs ! i] @ calls_of r (drop (Suc i) cs)"
    by (metis assms id_take_nth_drop calls_of_simps(2) append_Cons append_Nil)
  then show ?thesis
    by (simp add: remove_at_def)
qed

text \<open>With at most one request per task, answering it leaves none.\<close>

lemma calls_of_taken:
  assumes "i < length cs" and "length (calls_of r cs) \<le> 1"
  shows "calls_of r (remove_at i cs) = (if call_ref (cs ! i) = r then [] else calls_of r cs)"
proof -
  have "calls_of r cs = calls_of r (take i cs) @ calls_of r [cs ! i] @ calls_of r (drop (Suc i) cs)"
    by (metis assms(1) id_take_nth_drop calls_of_simps(2) append_Cons append_Nil)
  with assms show ?thesis
    by (auto simp: calls_of_remove_at)
qed

lemma calls_of_in: "i < length cs \<Longrightarrow> call_ref (cs ! i) = r \<Longrightarrow> cs ! i \<in> set (calls_of r cs)"
  by (simp add: calls_of_def)

lemma calls_of_fresh:
  assumes "es_wf s" and "\<not> r < length (es_heap s)" shows "calls_of r (es_calls s) = []"
proof -
  have "call_ref c \<noteq> r" if "c \<in> set (es_calls s)" for c
  proof -
    have "call_ok (es_heap s) c" using that assms by (auto simp: es_wf_def)
    with assms(2) show ?thesis by (cases c) auto
  qed
  then show ?thesis by (simp add: calls_of_def filter_empty_conv)
qed

lemma seq_inv_frame:
  assumes "seq_inv es s" and "es_wf t" and "\<And>r. delivered r ev = []"
    and "es_heap t = es_heap s" and "es_calls t = es_calls s"
  shows "seq_inv (es @ [ev]) t"
proof -
  have "get_task r t = get_task r s" for r by (simp add: get_task_def assms(4))
  then show ?thesis
    unfolding seq_inv_def using assms(2-5) seq_invD(2-4) [OF assms(1)] by simp
qed

text \<open>A step that touches one task only.\<close>

lemma seq_inv_local:
  assumes inv: "seq_inv es s" and wf: "es_wf t" and r: "r < length (es_heap s)"
    and len: "length (es_heap t) = length (es_heap s)"
    and others: "\<And>r'. r' \<noteq> r \<Longrightarrow> delivered r' ev = []"
      "\<And>r'. r' \<noteq> r \<Longrightarrow> get_task r' t = get_task r' s"
      "\<And>r'. r' \<noteq> r \<Longrightarrow> calls_of r' (es_calls t) = calls_of r' (es_calls s)"
    and this_task: "seen_ok (get_task r t) (blocks_seen r es @ delivered r ev)"
      "fits (get_task r t) (calls_of r (es_calls t))"
  shows "seq_inv (es @ [ev]) t"
  unfolding seq_inv_def
proof (intro conjI allI)
  fix r'
  show "if r' < length (es_heap t)
        then seen_ok (get_task r' t) (blocks_seen r' (es @ [ev])) \<and> fits (get_task r' t) (calls_of r' (es_calls t))
        else blocks_seen r' (es @ [ev]) = []"
    using seq_invD(2-4) [OF inv, of r'] this_task others [of r'] r len
    by (cases "r' = r") simp_all
qed (rule wf)

lemma process_others:
  "length (es_heap (process E r b e s)) = length (es_heap s)"
  "r' \<noteq> r \<Longrightarrow> get_task r' (process E r b e s) = get_task r' s"
  "r' \<noteq> r \<Longrightarrow> calls_of r' (es_calls (process E r b e s)) = calls_of r' (es_calls s)"
  by (cases "env_service E (t_group (get_task r s))",
      simp_all add: process_def processNextBlock_def unsubscribeEventSub_def)+

lemma process_fits:
  assumes "r < length (es_heap s)" and "t_work (get_task r s)" and "next_ok (get_task r s) b"
    and "calls_of r (es_calls s) = []"
  shows "fits (get_task r (process E r b e s)) (calls_of r (es_calls (process E r b e s)))"
    and "t_cur (get_task r (process E r b e s)) = t_cur (get_task r s)"
    and "t_params (get_task r (process E r b e s)) = t_params (get_task r s)"
  using assms
  by (cases "env_service E (t_group (get_task r s))",
      simp_all add: process_def processNextBlock_def unsubscribeEventSub_def fits_def)+

lemma seen_ok_cong:
  "t_cur t = t_cur u \<Longrightarrow> t_params t = t_params u \<Longrightarrow> seen_ok t bs = seen_ok u bs"
  by (simp add: seen_ok_def)

lemma next_ok_cong:
  "t_cur t = t_cur u \<Longrightarrow> t_params t = t_params u \<Longrightarrow> next_ok t b = next_ok u b"
  by (simp add: next_ok_def)

definition first_block :: "task \<Rightarrow> int \<Rightarrow> int" where
  "first_block t n =
     (if t_cur t < 0 then (if m_fromBlock (t_params t) > 0 then m_fromBlock (t_params t) else n) else t_cur t)"

lemma first_block_next: "task_ok t \<Longrightarrow> next_ok t (first_block t n)"
  by (auto simp: next_ok_def first_block_def task_ok_def)

lemma executeEventSubTask_at_form:
  "\<exists>e. snd (executeEventSubTask_at E r n s) =
     (if n < first_block (get_task r s) n then s
      else process E r (first_block (get_task r s) n) e (upd_task r (setWork True) s))"
  by (simp only: executeEventSubTask_at_def Let_def first_block_def [symmetric] if_distrib [of snd] snd_conv)
    (rule exI, rule refl)

lemma seq_inv_number_reply:
  assumes inv: "seq_inv es s" and i: "i < length (es_calls s)" "es_calls s ! i = PNumber ns r"
    and n: "0 \<le> n" "n < 2 ^ 63 - 1"
  shows "seq_inv (es @ [NumberReply E i ns r err n]) (onBlockNumber E r err n (take_call i s))"
proof -
  let ?s = "take_call i s" and ?t = "onBlockNumber E r err n (take_call i s)"
  have wf: "es_wf s" by (rule seq_invD(1) [OF inv])
  have r: "r < length (es_heap s)" using es_wf_call_ok [OF wf i(1)] i(2) by simp
  have f: "fits (get_task r' s) (calls_of r' (es_calls s))" if "r' < length (es_heap s)" for r'
    by (rule seq_invD(3) [OF inv that])
  have none: "calls_of r (remove_at i (es_calls s)) = []"
    using calls_of_taken [OF i(1), of r] f [OF r] i(2) by (simp add: fits_def)
  have rest: "calls_of r' (remove_at i (es_calls s)) = calls_of r' (es_calls s)" if "r' \<noteq> r" for r'
    using calls_of_remove_at [OF i(1), of r'] i(2) that by simp
  have seen: "seen_ok (get_task r s) (blocks_seen r es)" by (rule seq_invD(2) [OF inv r])
  have wf': "es_wf ?t"
    by (rule onBlockNumber_wf [OF take_call_wf [OF wf]]) (use r n in simp_all)
  have quiet: "seq_inv (es @ [NumberReply E i ns r err n]) ?s"
    by (rule seq_inv_local [OF inv take_call_wf [OF wf] r]) (use rest none seen in \<open>simp_all add: fits_def\<close>)
  show ?thesis
  proof (cases "failed err")
    case True
    with quiet show ?thesis by (simp add: onBlockNumber_def)
  next
    case False
    define cur where "cur = first_block (get_task r s) n"
    have cur: "next_ok (get_task r s) cur"
      unfolding cur_def by (rule first_block_next [OF es_wf_task [OF wf r]])
    obtain e where t: "?t = (if n < cur then ?s else process E r cur e (upd_task r (setWork True) ?s))"
      using executeEventSubTask_at_form [of E r n ?s] False
      unfolding onBlockNumber_def cur_def take_call_fields by auto
    show ?thesis
    proof (cases "n < cur")
      case True
      with t quiet show ?thesis by simp
    next
      case 2: False
      let ?u = "upd_task r (setWork True) ?s"
      have u: "r < length (es_heap ?u)" "t_work (get_task r ?u)" "next_ok (get_task r ?u) cur"
        "calls_of r (es_calls ?u) = []"
        using r cur none by (simp_all add: next_ok_cong [of "setWork True (get_task r s)" "get_task r s"])
      note pf = process_fits [OF u, of E e]
      have t': "?t = process E r cur e ?u" using 2 t by simp
      have "seen_ok (get_task r ?t) (blocks_seen r es)"
        unfolding t' using pf(2,3) seen r
        by (subst seen_ok_cong [where u = "get_task r s"]) simp_all
      then show ?thesis
        by (intro seq_inv_local [OF inv wf' r]) (use pf(1) rest r in \<open>simp_all add: t' process_others\<close>)
    qed
  qed
qed

lemma seen_ok_extend:
  assumes "seen_ok t bs" and "next_ok t b" and "window_ok (t_params t) b e" and "t_cur t = -1 \<or> 1 \<le> t_cur t"
  shows "seen_ok (t\<lparr>t_cur := b + 1\<rparr>) (bs @ [b])" and "next_ok (t\<lparr>t_cur := b + 1\<rparr>) (b + 1)"
    and "max (b + 1) (t_cur t) = b + 1"
proof -
  have b: "0 \<le> b" using assms(3) by (simp add: window_ok_def)
  then show "next_ok (t\<lparr>t_cur := b + 1\<rparr>) (b + 1)" by (simp add: next_ok_def)
  show "max (b + 1) (t_cur t) = b + 1"
    using assms(2) b by (auto simp: next_ok_def split: if_splits)
  show "seen_ok (t\<lparr>t_cur := b + 1\<rparr>) (bs @ [b])"
  proof (cases "t_cur t = -1")
    case True
    with assms(1,2) b show ?thesis
      by (auto simp: seen_ok_def next_ok_def intro!: exI [of _ b])
  next
    case False
    with assms(1,2) obtain b0 where "b0 < b" "bs = [b0..b - 1]"
      "0 < m_fromBlock (t_params t) \<longrightarrow> b0 = m_fromBlock (t_params t)"
      by (auto simp: seen_ok_def next_ok_def)
    moreover from this(1) have "[b0..b] = [b0..b - 1] @ [b]"
      by (simp add: upto_rec2)
    ultimately show ?thesis
      using b by (auto simp: seen_ok_def intro!: exI [of _ b0])
  qed
qed

lemma seq_inv_block_reply:
  assumes inv: "seq_inv es s" and i: "i < length (es_calls s)" "es_calls s ! i = PBlock ns r b e"
  shows "seq_inv (es @ [BlockReply E i ns r b e err blk]) (onBlockData E r b e err blk (take_call i s))"
proof -
  let ?s = "take_call i s" and ?t = "onBlockData E r b e err blk (take_call i s)"
  have wf: "es_wf s" by (rule seq_invD(1) [OF inv])
  have r: "r < length (es_heap s)" and w: "window_ok (t_params (get_task r s)) b e"
    using es_wf_call_ok [OF wf i(1)] i(2) by (simp_all add: get_task_def)
  have f: "fits (get_task r s) (calls_of r (es_calls s))" by (rule seq_invD(3) [OF inv r])
  have none: "calls_of r (remove_at i (es_calls s)) = []"
    using calls_of_taken [OF i(1), of r] f i(2) by (simp add: fits_def)
  have rest: "calls_of r' (remove_at i (es_calls s)) = calls_of r' (es_calls s)" if "r' \<noteq> r" for r'
    using calls_of_remove_at [OF i(1), of r'] i(2) that by simp
  have "PBlock ns r b e \<in> set (calls_of r (es_calls s))"
    using calls_of_in [OF i(1), of r] i(2) by simp
  with f have work: "t_work (get_task r s)" and nx: "next_ok (get_task r s) b"
    by (auto simp: fits_def)
  have seen: "seen_ok (get_task r s) (blocks_seen r es)" by (rule seq_invD(2) [OF inv r])
  have wf': "es_wf ?t"
    by (rule onBlockData_wf [OF take_call_wf [OF wf]]) (use r w in simp_all)
  show ?thesis
  proof (cases "failed err")
    case True
    have "seen_ok (get_task r ?t) (blocks_seen r es)"
      using seen r True by (subst seen_ok_cong [where u = "get_task r s"]) (simp_all add: onBlockData_def)
    then show ?thesis
      by (intro seq_inv_local [OF inv wf' r])
        (use True rest none r in \<open>simp_all add: onBlockData_def fits_def\<close>)
  next
    case False
    have b1: "i64 (b + 1) = b + 1"
      using w by (intro i64_between) (auto simp: window_ok_def)
    obtain out where t: "?t = process E r (b + 1) e
        (upd_task r (setCurrentBlockNumber (b + 1)) (?s\<lparr>es_out := out\<rparr>))" (is "_ = process E r (b + 1) e ?u")
    proof -
      obtain count res where "matches_block (env_hex E) (t_params (get_task r s)) blk [] = (count, res)"
        by fastforce
      then have "?t = process E r (b + 1) e (upd_task r (setCurrentBlockNumber (b + 1))
          (?s\<lparr>es_out := es_out ?s @ (if count \<noteq> 0 then event_msgs E (t_session (get_task r s)) False
             (t_id (get_task r s)) res else [])\<rparr>))"
        using False by (simp add: onBlockData_def b1)
      with that show ?thesis by blast
    qed
    have cur: "t_cur (get_task r s) = -1 \<or> 1 \<le> t_cur (get_task r s)"
      using es_wf_task [OF wf r] by (auto simp: task_ok_def)
    note ext = seen_ok_extend [OF seen nx w cur]
    have gu: "get_task r ?u = setCurrentBlockNumber (b + 1) (get_task r s)"
      using r by simp
    have u: "r < length (es_heap ?u)" "t_work (get_task r ?u)" "next_ok (get_task r ?u) (b + 1)"
      "calls_of r (es_calls ?u) = []"
      using r work none ext(3) w unfolding gu
      by (simp_all add: next_ok_def window_ok_def)
    note pf = process_fits [OF u, of E e]
    have "seen_ok (get_task r ?t) (blocks_seen r es @ [b])"
      using ext(1,3) pf(2,3) unfolding t gu
      by (subst seen_ok_cong [where u = "(get_task r s)\<lparr>t_cur := b + 1\<rparr>"]) simp_all
    then show ?thesis
      by (intro seq_inv_local [OF inv wf' r]) (use pf(1) rest r False in \<open>simp_all add: t process_others\<close>)
  qed
qed

text \<open>A walk over the table asks for one block number per idle task.\<close>

lemma executeEventSubTask_calls:
  "es_calls (snd (executeEventSubTask E r s)) = es_calls s \<or>
   \<not> t_work (get_task r s) \<and> (\<exists>ns. es_calls (snd (executeEventSubTask E r s)) = es_calls s @ [PNumber ns r])"
  by (cases "env_service E (t_group (get_task r s))")
    (simp_all add: executeEventSubTask_def Let_def onTaskComplete_def unsubscribeEventSub_def)

lemma executeEventSubTasks_calls:
  assumes wf: "es_wf s" and "distinct order"
  shows "\<exists>new. es_calls (executeEventSubTasks E order s) = es_calls s @ new \<and> distinct (map call_ref new) \<and>
     (\<forall>c \<in> set new. is_number c \<and> \<not> t_work (get_task (call_ref c) s) \<and>
        (\<exists>i \<in> set order. fmlookup (es_tasks s) i = Some (call_ref c)))"
  using assms(2)
proof (induction order rule: rev_induct)
  case (snoc i "is")
  let ?t = "executeEventSubTasks E is s"
  obtain new where new: "es_calls ?t = es_calls s @ new" "distinct (map call_ref new)"
    "\<forall>c \<in> set new. is_number c \<and> \<not> t_work (get_task (call_ref c) s) \<and>
        (\<exists>i \<in> set is. fmlookup (es_tasks s) i = Some (call_ref c))"
    using snoc by auto
  show ?case
  proof (cases "fmlookup (es_tasks s) i")
    case None
    with new show ?thesis
      by (intro exI [of _ new]) (auto simp: executeEventSubTasks_snoc Let_def)
  next
    case (Some r)
    then have t: "executeEventSubTasks E (is @ [i]) s = snd (executeEventSubTask E r ?t)"
      by (simp add: executeEventSubTasks_snoc Let_def)
    from executeEventSubTask_calls [of E r ?t] show ?thesis
    proof (elim disjE conjE exE)
      assume "es_calls (snd (executeEventSubTask E r ?t)) = es_calls ?t"
      with new show ?thesis by (intro exI [of _ new]) (auto simp: t)
    next
      fix ns assume w: "\<not> t_work (get_task r ?t)"
        and c: "es_calls (snd (executeEventSubTask E r ?t)) = es_calls ?t @ [PNumber ns r]"
      have "r \<notin> call_ref ` set new"
      proof
        assume "r \<in> call_ref ` set new"
        then obtain c where "c \<in> set new" "call_ref c = r" by auto
        with new(3) obtain i' where "i' \<in> set is" "fmlookup (es_tasks s) i' = Some r"
          by auto
        with es_wf_table [OF wf] Some snoc.prems show False by auto
      qed
      with new c w Some show ?thesis
        by (intro exI [of _ "new @ [PNumber ns r]"]) (auto simp: t)
    qed
  qed
qed simp

lemma distinct_filter_le_1: "distinct (map f xs) \<Longrightarrow> length (filter (\<lambda>x. f x = a) xs) \<le> 1"
proof (induction xs)
  case (Cons x xs)
  show ?case
  proof (cases "f x = a")
    case True
    with Cons.prems have "filter (\<lambda>x. f x = a) xs = []"
      by (auto simp: filter_empty_conv rev_image_eqI)
    with True show ?thesis by simp
  qed (use Cons in simp)
qed simp

lemma seq_inv_worker:
  assumes inv: "seq_inv es s" and "distinct order"
    and idle: "\<And>c. c \<in> set (es_calls s) \<Longrightarrow> \<not> is_number c"
  shows "seq_inv (es @ [Worker E order]) (executeWorker E order s)"
proof -
  let ?u = "executeAddTasks (executeCancelTasks s)" and ?t = "executeWorker E order s"
  have wf: "es_wf s" by (rule seq_invD(1) [OF inv])
  have wfu: "es_wf ?u" by (simp add: wf executeAddTasks_wf executeCancelTasks_wf)
  obtain new where new: "es_calls ?t = es_calls s @ new" "distinct (map call_ref new)"
    "\<forall>c \<in> set new. is_number c \<and> \<not> t_work (get_task (call_ref c) s)"
    using executeEventSubTasks_calls [OF wfu assms(2), of E] by (auto simp: executeWorker_def)
  have g: "get_task r ?t = get_task r s" for r
    by (simp add: executeWorker_def)
  have h: "es_heap ?t = es_heap s" by (simp add: executeWorker_def)
  have "fits (get_task r s) (calls_of r (es_calls ?t))" if r: "r < length (es_heap s)" for r
  proof -
    note old = seq_invD(3) [OF inv r]
    have nw: "\<not> t_work (get_task r s)" if "c \<in> set (calls_of r new)" for c
      using that new(3) by (auto simp: calls_of_def)
    show ?thesis
    proof (cases "calls_of r new = []")
      case True
      with old new(1) show ?thesis by simp
    next
      case False
      then obtain c0 where "c0 \<in> set (calls_of r new)" by (cases "calls_of r new") auto
      then have idle_r: "\<not> t_work (get_task r s)" by (rule nw)
      have "\<not> call_fits (get_task r s) c" if "c \<in> set (es_calls s)" for c
        using idle_r idle [OF that] by (cases c) simp_all
      then have "c \<notin> set (calls_of r (es_calls s))" for c
        using old by (auto simp: fits_def calls_of_def)
      then have "set (calls_of r (es_calls s)) = {}" by (intro equals0I) auto
      then have "calls_of r (es_calls s) = []" by simp
      moreover have "length (calls_of r new) \<le> 1"
        unfolding calls_of_def by (rule distinct_filter_le_1 [OF new(2)])
      moreover have "call_fits (get_task r s) c" if "c \<in> set (calls_of r new)" for c
      proof -
        from that new(3) have "is_number c" and "call_ref c = r" by (auto simp: calls_of_def)
        with idle_r show ?thesis by (cases c) simp_all
      qed
      ultimately show ?thesis by (simp add: new(1) fits_def)
    qed
  qed
  then show ?thesis
    unfolding seq_inv_def using seq_invD(2,4) [OF inv] executeWorker_wf [OF wf] by (simp add: g h)
qed

lemma seq_inv_subscribe:
  assumes inv: "seq_inv es s" and J: "json_ranged (env_json E)"
  shows "seq_inv (es @ [Subscribe E m ss]) (onRecvSubscribeEvent E m ss s)"
proof -
  let ?t = "onRecvSubscribeEvent E m ss s"
  have wf: "es_wf s" by (rule seq_invD(1) [OF inv])
  have wft: "es_wf ?t" by (rule onRecvSubscribeEvent_wf [OF wf J])
  obtain ok rq where r: "request_fromJson (env_json E) (wm_data m) new_event_request = (ok, rq)"
    by fastforce
  show ?thesis
  proof (cases "ok \<and> env_service E (rq_group rq) \<noteq> None")
    case True
    then have h: "es_heap ?t = es_heap s @ [new_task rq ss]" and c: "es_calls ?t = es_calls s"
      by (auto simp: onRecvSubscribeEvent_def r Let_def subscribeEventSub_def)
    have "seen_ok (get_task r ?t) (blocks_seen r es) \<and> fits (get_task r ?t) (calls_of r (es_calls s))"
      if "r < Suc (length (es_heap s))" for r
    proof (cases "r < length (es_heap s)")
      case True
      with seq_invD(2,3) [OF inv True] show ?thesis
        by (simp add: get_task_def h nth_append)
    next
      case False
      with that have "get_task r ?t = new_task rq ss"
        by (simp add: get_task_def h nth_append)
      with seq_invD(4) [OF inv False] calls_of_fresh [OF wf False] show ?thesis
        by (simp add: seen_ok_def new_task_def fits_def)
    qed
    then show ?thesis
      unfolding seq_inv_def using seq_invD(4) [OF inv] wft by (simp add: h c)
  next
    case False
    then show ?thesis
      by (intro seq_inv_frame [OF inv wft]; cases ok) (auto simp: onRecvSubscribeEvent_def r)
  qed
qed

interpretation seqrun: history_invariant seq_step "new_es :: 'ns es" seq_inv
proof
  show "seq_inv [] (new_es :: 'ns es)"
    by (simp add: seq_inv_def es_wf_new) (simp add: new_es_def)
  fix es s ev t
  assume inv: "seq_inv es (s :: 'ns es)" and "seq_step s ev t"
  then have st: "es_step s ev t"
    and idle: "\<And>E order c. ev = Worker E order \<Longrightarrow> c \<in> set (es_calls s) \<Longrightarrow> \<not> is_number c"
    by (auto elim: seq_step.cases)
  have wf: "es_wf s" by (rule seq_invD(1) [OF inv])
  have wft: "es_wf t" by (rule es.inv_step [OF wf st])
  from st show "seq_inv (es @ [ev]) t"
  proof cases
    case (worker order E)
    with idle show ?thesis by (simp add: seq_inv_worker [OF inv])
  next
    case (unsubscribe E m ss)
    with wft show ?thesis
      by (intro seq_inv_frame [OF inv])
        (auto simp: onRecvUnsubscribeEvent_def unsubscribeEventSub_def split: prod.split)
  qed (use wft in \<open>auto simp: seq_inv_subscribe [OF inv] seq_inv_number_reply [OF inv]
      seq_inv_block_reply [OF inv] es_start_def es_stop_def intro!: seq_inv_frame [OF inv]\<close>)
qed

subsection \<open>A small scenario\<close>

definition demo_request :: json where
  "demo_request = JObject (jassign
     [(''id'', JString ''sub''), (''group'', JString ''group0''),
      (''params'', JObject (jassign [(''fromBlock'', JInt 5), (''toBlock'', JInt 6)] fmempty))] fmempty)"

definition demo_unsub :: json where
  "demo_unsub = JObject (jassign [(''id'', JString ''sub''), (''group'', JString ''group0'')] fmempty)"

definition demo_inverted :: json where
  "demo_inverted = JObject (jassign
     [(''id'', JString ''sub''), (''group'', JString ''group0''),
      (''params'', JObject (jassign [(''fromBlock'', JInt 6), (''toBlock'', JInt 5)] fmempty))] fmempty)"

definition demo_json :: jsoncpp where
  "demo_json = ref_jsoncpp
     (\<lambda>text. if text = ''subscribe'' then Inr (Some demo_request)
             else if text = ''inverted'' then Inr (Some demo_inverted)
             else if text = ''unsubscribe'' then Inr (Some demo_unsub) else Inr None) (\<lambda>_. ''text'')"

definition demo_env :: "unit es_env" where
  "demo_env = \<lparr>env_json = demo_json, env_hex = ref_hexlib, env_service = (\<lambda>g. if g = ''group0'' then Some () else None),
     env_connected = (\<lambda>_. True), env_message = blank_message\<rparr>"

definition demo_msg :: "string \<Rightarrow> ws_message" where
  "demo_msg text = \<lparr>wm_type = event_message_code EVENT_SUBSCRIBE, wm_status = 0, wm_seq = ''1'', wm_data = text\<rparr>"

definition demo_params :: params where
  "demo_params = \<lparr>m_fromBlock = 5, m_toBlock = 6, m_addresses = {||}, m_topics = []\<rparr>"

definition demo_log :: logEntry where
  "demo_log = \<lparr>le_address = ''a'', le_topics = [], le_data = []\<rparr>"

definition demo_receipt :: receipt where
  "demo_receipt = \<lparr>rc_version = 0, rc_contractAddress = '''', rc_gasUsed = 0, rc_status = 0,
     rc_blockNumber = 5, rc_output = [], rc_hash = [], rc_logEntries = [demo_log]\<rparr>"

definition demo_tx :: transaction where
  "demo_tx = \<lparr>tx_version = 0, tx_hash = [], tx_nonce = 0, tx_blockLimit = 0, tx_to = '''', tx_sender = [],
     tx_input = [], tx_importTime = 0, tx_chainId = '''', tx_groupId = '''', tx_signatureData = []\<rparr>"

definition demo_block :: block where
  "demo_block = \<lparr>bl_header = None, bl_transactionsSize = 1, bl_transaction = (\<lambda>_. demo_tx),
     bl_receipt = (\<lambda>_. demo_receipt)\<rparr>"

lemma demo_parse:
  "request_fromJson demo_json ''subscribe'' new_event_request =
     (True, \<lparr>rq_id = ''sub'', rq_group = ''group0'', rq_params = Some demo_params, rq_state = None\<rparr>)"
  "request_fromJson demo_json ''inverted'' new_event_request =
     (True, \<lparr>rq_id = ''sub'', rq_group = ''group0'',
             rq_params = Some (demo_params\<lparr>m_fromBlock := 6, m_toBlock := 5\<rparr>), rq_state = None\<rparr>)"
  "unsub_fromJson demo_json ''unsubscribe'' new_unsub_request = (True, \<lparr>rq_id = ''sub'', rq_group = ''group0''\<rparr>)"
proof -
  have J: "jsoncpp_ok demo_json" by (simp add: demo_json_def)
  note simps = parse_root_def parse_id_group_def required_object [OF J] json_ok [OF J]
  have j: "jparse demo_json ''subscribe'' = Inr (Some demo_request)"
    "jparse demo_json ''unsubscribe'' = Inr (Some demo_unsub)"
    "jparse demo_json ''inverted'' = Inr (Some demo_inverted)"
    by (simp_all add: demo_json_def)
  have "parse_params demo_json (JObject (jassign [(''fromBlock'', JInt 5), (''toBlock'', JInt 6)] fmempty))
      = Inr demo_params"
    by (simp add: parse_params_def optional_object [OF J] ok_asInt64 [OF J] jassign_def new_params_def
        demo_params_def in_i64_def)
  then have "parse_request demo_json ''subscribe'' = Inr (Inr (''sub'', ''group0'', demo_params))"
    by (simp add: parse_request_def simps j(1) demo_request_def)
  then show "request_fromJson demo_json ''subscribe'' new_event_request =
     (True, \<lparr>rq_id = ''sub'', rq_group = ''group0'', rq_params = Some demo_params, rq_state = None\<rparr>)"
    by (simp add: request_fromJson_def new_event_request_def)
  have "parse_params demo_json (JObject (jassign [(''fromBlock'', JInt 6), (''toBlock'', JInt 5)] fmempty))
      = Inr (demo_params\<lparr>m_fromBlock := 6, m_toBlock := 5\<rparr>)"
    by (simp add: parse_params_def optional_object [OF J] ok_asInt64 [OF J] new_params_def
        demo_params_def in_i64_def)
  then have "parse_request demo_json ''inverted'' =
      Inr (Inr (''sub'', ''group0'', demo_params\<lparr>m_fromBlock := 6, m_toBlock := 5\<rparr>))"
    by (simp add: parse_request_def simps j(3) demo_inverted_def)
  then show "request_fromJson demo_json ''inverted'' new_event_request =
     (True, \<lparr>rq_id = ''sub'', rq_group = ''group0'',
             rq_params = Some (demo_params\<lparr>m_fromBlock := 6, m_toBlock := 5\<rparr>), rq_state = None\<rparr>)"
    by (simp add: request_fromJson_def new_event_request_def)
  show "unsub_fromJson demo_json ''unsubscribe'' new_unsub_request = (True, \<lparr>rq_id = ''sub'', rq_group = ''group0''\<rparr>)"
    by (simp add: unsub_fromJson_def simps j(2) demo_unsub_def new_unsub_request_def jassign_def)
qed

text \<open>The service with the one subscription, at block \<open>cur\<close>, with its calls and messages.\<close>

definition demo_task :: "bool \<Rightarrow> int \<Rightarrow> task" where
  "demo_task w cur = \<lparr>t_id = ''sub'', t_group = ''group0'', t_params = demo_params, t_session = 1,
     t_work = w, t_cur = cur\<rparr>"

definition demo_es :: "bool \<Rightarrow> int \<Rightarrow> unit call list \<Rightarrow> (session \<times> ws_message) list \<Rightarrow> unit es" where
  "demo_es w cur cs out = \<lparr>es_running = True, es_addTasks = [], es_addTaskCount = 0, es_cancelTasks = [],
     es_cancelTaskCount = 0, es_tasks = fmupd ''sub'' 0 fmempty, es_maxBlockProcessPerLoop = 10,
     es_heap = [demo_task w cur], es_calls = cs, es_out = out\<rparr>"

definition demo_ack :: "session \<times> ws_message" where
  "demo_ack = (1, \<lparr>wm_type = event_message_code EVENT_SUBSCRIBE, wm_status = 0, wm_seq = ''1'', wm_data = ''text''\<rparr>)"

definition demo_push :: "session \<times> ws_message" where
  "demo_push = (1, \<lparr>wm_type = event_message_code EVENT_LOG_PUSH, wm_status = 0, wm_seq = ''seq'', wm_data = ''text''\<rparr>)"

definition demo_subscribed :: "unit es" where
  "demo_subscribed = \<lparr>es_running = True, es_addTasks = [0], es_addTaskCount = 1, es_cancelTasks = [],
     es_cancelTaskCount = 0, es_tasks = fmempty, es_maxBlockProcessPerLoop = 10,
     es_heap = [demo_task False (-1)], es_calls = [], es_out = [demo_ack]\<rparr>"

lemma demo_env_simps [simp]:
  "env_json demo_env = demo_json" "env_hex demo_env = ref_hexlib" "env_connected demo_env ss"
  "env_service demo_env ''group0'' = Some ()"
  "env_message demo_env = blank_message"
  by (simp_all add: demo_env_def)

lemma demo_write [simp]: "jwrite demo_json j = ''text''"
  by (simp add: demo_json_def)

lemma demo_subscribe: "onRecvSubscribeEvent demo_env (demo_msg ''subscribe'') 1 (es_start new_es) = demo_subscribed"
  by (simp add: onRecvSubscribeEvent_def demo_msg_def demo_parse subscribeEventSub_def es_start_def new_es_def
      new_task_def demo_subscribed_def demo_task_def demo_ack_def response_msgs_def)

lemma demo_worker1:
  "executeAddTasks (executeCancelTasks demo_subscribed) = demo_es False (-1) [] [demo_ack]"
  by (simp add: executeAddTasks_def executeCancelTasks_def demo_subscribed_def add_task_def get_task_def
      demo_es_def demo_task_def)

lemma demo_worker2:
  "executeAddTasks (executeCancelTasks (demo_es w cur cs out)) = demo_es w cur cs out"
  by (simp add: executeAddTasks_def executeCancelTasks_def demo_es_def)

lemma demo_walk:
  "executeEventSubTasks demo_env [''sub''] (demo_es False (-1) cs out) = demo_es False (-1) (cs @ [PNumber () 0]) out"
  by (simp add: executeEventSubTasks_def executeEventSubTask_def demo_es_def get_task_def demo_task_def isCompleted_def
      demo_params_def)

lemma demo_number:
  "onBlockNumber demo_env 0 None 5 (demo_es w (-1) cs out) = demo_es True (-1) (cs @ [PBlock () 0 5 5]) out"
  by (simp add: onBlockNumber_def executeEventSubTask_at_def demo_es_def get_task_def demo_task_def demo_params_def
      upd_task_def setWork_def process_def processNextBlock_def i64_def Let_def)

lemma topics_loop_empty: "topics_loop hx [] ts is"
  by (induction "is") simp_all

lemma demo_matches: "fst (matches_block ref_hexlib demo_params demo_block []) = 1"
  "length (snd (matches_block ref_hexlib demo_params demo_block [])) = 1"
  by (simp_all add: matches_block_def matches_receipt_def demo_block_def demo_receipt_def demo_log_def
      matches_log_def demo_params_def topics_loop_empty Let_def)

lemma demo_data:
  "onBlockData demo_env 0 5 5 None demo_block (demo_es w (if fresh then -1 else 6) cs out) =
     demo_es False 6 cs (out @ [demo_push])"
proof -
  obtain res where m: "matches_block ref_hexlib demo_params demo_block [] = (1, res)" "res \<noteq> []"
    using demo_matches by (metis One_nat_def list.size(3) prod.collapse zero_neq_one)
  show ?thesis
    by (cases fresh) (simp_all add: onBlockData_def demo_es_def get_task_def demo_task_def m upd_task_def
        setWork_def setCurrentBlockNumber_def process_def i64_def Let_def event_msgs_def push_message_def demo_push_def blank_message_def)
qed

subsection \<open>Properties of the service\<close>

text \<open>
  C17: in every reachable state a block the service waits for lies in a window of at most
  ten blocks that neither starts before the first nor ends after the last block the client
  asked for (where it asked for a positive one), and a task has never moved past the block
  after that last one. Ten is the default of \<^theory_text>\<open>m_maxBlockProcessPerLoop\<close>, which no part of the
  program sets.
\<close>

theorem event_windows:
  assumes "run es_step new_es es s"
  shows "(\<forall>ns r b e. PBlock ns r b e \<in> set (es_calls s) \<longrightarrow>
            0 \<le> b \<and> b \<le> e \<and> e < b + 10 \<and>
            (0 < m_fromBlock (t_params (get_task r s)) \<longrightarrow> m_fromBlock (t_params (get_task r s)) \<le> b) \<and>
            (0 < m_toBlock (t_params (get_task r s)) \<longrightarrow> e \<le> m_toBlock (t_params (get_task r s)))) \<and>
         (\<forall>r < length (es_heap s). 0 < m_toBlock (t_params (get_task r s)) \<longrightarrow>
            t_cur (get_task r s) \<le> m_toBlock (t_params (get_task r s)) + 1)"
proof -
  have wf: "es_wf s" by (rule es.run_inv [OF assms])
  have "window_ok (t_params (get_task r s)) b e" if "PBlock ns r b e \<in> set (es_calls s)" for ns r b e
    using wf that by (auto simp: es_wf_def get_task_def)
  with wf es_wf_task [OF wf] show ?thesis
    by (fastforce simp: window_ok_def es_wf_def task_ok_def)
qed

abbreviation demo_after :: "unit es_event list" where
  "demo_after \<equiv> [Start, Subscribe demo_env (demo_msg ''subscribe'') 1, Worker demo_env [''sub'']]"

lemma demo_run_worker:
  "run seq_step new_es demo_after (demo_es False (-1) [PNumber () 0] [demo_ack])"
proof (intro run_Cons run_nil seq_step.intros)
  show "es_step new_es Start (es_start new_es)" by (rule start)
  show "es_step (es_start new_es) (Subscribe demo_env (demo_msg ''subscribe'') 1) demo_subscribed"
    using subscribe [of demo_env "es_start new_es" "demo_msg ''subscribe''" 1]
    unfolding demo_subscribe by (simp add: demo_json_def)
  have "es_step demo_subscribed (Worker demo_env [''sub'']) (executeWorker demo_env [''sub''] demo_subscribed)"
    by (rule worker) (simp_all add: demo_worker1, simp_all add: demo_subscribed_def demo_es_def)
  then show "es_step demo_subscribed (Worker demo_env [''sub'']) (demo_es False (-1) [PNumber () 0] [demo_ack])"
    by (simp add: executeWorker_def demo_worker1 demo_walk)
qed (auto simp: demo_subscribed_def intro: run_nil)

lemma demo_number_step:
  "i < length cs \<Longrightarrow> cs ! i = PNumber () 0 \<Longrightarrow>
   es_step (demo_es w (-1) cs out) (NumberReply demo_env i () 0 None 5)
     (demo_es True (-1) (remove_at i cs @ [PBlock () 0 5 5]) out)"
  using number_reply [of i "demo_es w (-1) cs out" "()" 0 5 demo_env None] demo_number [of w "remove_at i cs" out]
  by (simp add: demo_es_def take_call_def)

lemma demo_block_step:
  "i < length cs \<Longrightarrow> cs ! i = PBlock () 0 5 5 \<Longrightarrow>
   es_step (demo_es w (if fresh then -1 else 6) cs out) (BlockReply demo_env i () 0 5 5 None demo_block)
     (demo_es False 6 (remove_at i cs) (out @ [demo_push]))"
  using block_reply [of i "demo_es w (if fresh then -1 else 6) cs out" "()" 0 5 5 demo_env None demo_block]
    demo_data [of w fresh "remove_at i cs" out]
  by (simp add: demo_es_def take_call_def)

lemma demo_run_window:
  "run seq_step new_es (demo_after @ [NumberReply demo_env 0 () 0 None 5])
     (demo_es True (-1) [PBlock () 0 5 5] [demo_ack])"
  by (rule run_snoc [OF demo_run_worker])
    (use demo_number_step [of 0 "[PNumber () 0]" False "[demo_ack]"] in
      \<open>auto intro!: seq_step.intros simp: remove_at_def\<close>)

lemma demo_run_delivered:
  "run seq_step new_es ((demo_after @ [NumberReply demo_env 0 () 0 None 5]) @
      [BlockReply demo_env 0 () 0 5 5 None demo_block])
     (demo_es False 6 [] [demo_ack, demo_push])"
  by (rule run_snoc [OF demo_run_window])
    (use demo_block_step [of 0 "[PBlock () 0 5 5]" True True "[demo_ack]"] in
      \<open>auto intro!: seq_step.intros simp: remove_at_def\<close>)

lemma seq_run_is_run: "run seq_step s es t \<Longrightarrow> run es_step s es t"
  by (erule run_mono) (auto elim: seq_step.cases)

lemma event_windows_witness:
  "let s = demo_es True (-1) [PBlock () 0 5 5] [demo_ack]
   in PBlock () 0 5 5 \<in> set (es_calls s) \<and> (5 :: int) < 5 + 10 \<and>
      m_fromBlock (t_params (get_task 0 s)) \<le> 5 \<and> 5 \<le> m_toBlock (t_params (get_task 0 s))"
  using event_windows [OF seq_run_is_run [OF demo_run_window]]
  by (simp add: demo_es_def get_task_def demo_task_def demo_params_def)

text \<open>
  C2: in a sequential run a task is given the blocks one after the other, each exactly once
  and none left out, up to the one before its current block. If the client asked for a positive
  \<open>fromBlock\<close>, that is the first. If \<open>toBlock\<close> is positive, a completed task has been given a
  block or more and the last is \<open>toBlock\<close>; so if both are positive, it has been given exactly
  \<open>fromBlock, ..., toBlock\<close>.
\<close>

theorem event_delivery:
  assumes "run seq_step new_es es s" and r: "r < length (es_heap s)"
    and t: "t = get_task r s"
  shows "(if t_cur t = -1 then blocks_seen r es = []
          else \<exists>b0 < t_cur t. blocks_seen r es = [b0..t_cur t - 1] \<and>
                 (0 < m_fromBlock (t_params t) \<longrightarrow> b0 = m_fromBlock (t_params t))) \<and>
         (0 < m_toBlock (t_params t) \<and> isCompleted t \<longrightarrow>
            (\<exists>b0 \<le> m_toBlock (t_params t). blocks_seen r es = [b0..m_toBlock (t_params t)] \<and>
               (0 < m_fromBlock (t_params t) \<longrightarrow> b0 = m_fromBlock (t_params t))))"
proof -
  have inv: "seq_inv es s" by (rule seqrun.run_hinv [OF assms(1)])
  have seen: "seen_ok t (blocks_seen r es)" unfolding t by (rule seq_invD(2) [OF inv r])
  have ok: "task_ok t" unfolding t by (rule es_wf_task [OF seq_invD(1) [OF inv] r])
  have "t_cur t = m_toBlock (t_params t) + 1" if "0 < m_toBlock (t_params t)" "isCompleted t"
    using ok that by (auto simp: task_ok_def isCompleted_def)
  with seen show ?thesis
    by (auto simp: seen_ok_def isCompleted_def split: if_split_asm)
qed

lemma event_delivery_witness:
  "blocks_seen 0 ((demo_after @ [NumberReply demo_env 0 () 0 None 5]) @
      [BlockReply demo_env 0 () 0 5 5 None demo_block]) = [5]"
  using event_delivery [OF demo_run_delivered _ refl, of 0]
  by (auto simp: demo_es_def get_task_def demo_task_def demo_params_def)

text \<open>A second walk of the worker before the block number is known.\<close>

lemma demo_walk_step:
  "es_step (demo_es False (-1) [PNumber () 0] [demo_ack]) (Worker demo_env [''sub''])
      (demo_es False (-1) [PNumber () 0, PNumber () 0] [demo_ack])"
proof -
  have "es_step (demo_es False (-1) [PNumber () 0] [demo_ack]) (Worker demo_env [''sub''])
     (executeWorker demo_env [''sub''] (demo_es False (-1) [PNumber () 0] [demo_ack]))"
    by (rule worker) (simp_all only: demo_worker2, simp_all add: demo_es_def)
  then show ?thesis
    by (simp only: executeWorker_def demo_worker2 demo_walk append.simps)
qed

lemma demo_overlap_run:
  "run es_step new_es (demo_after @ [Worker demo_env [''sub''], NumberReply demo_env 0 () 0 None 5,
       NumberReply demo_env 0 () 0 None 5, BlockReply demo_env 0 () 0 5 5 None demo_block,
       BlockReply demo_env 0 () 0 5 5 None demo_block])
     (demo_es False 6 [] [demo_ack, demo_push, demo_push])"
proof (rule run_append [OF seq_run_is_run [OF demo_run_worker]], intro run_Cons)
  show "es_step (demo_es False (-1) [PNumber () 0] [demo_ack]) (Worker demo_env [''sub''])
      (demo_es False (-1) [PNumber () 0, PNumber () 0] [demo_ack])"
    by (rule demo_walk_step)
  show "es_step (demo_es False (-1) [PNumber () 0, PNumber () 0] [demo_ack]) (NumberReply demo_env 0 () 0 None 5)
      (demo_es True (-1) [PNumber () 0, PBlock () 0 5 5] [demo_ack])"
    using demo_number_step [of 0 "[PNumber () 0, PNumber () 0]" False "[demo_ack]"] by (simp add: remove_at_def)
  show "es_step (demo_es True (-1) [PNumber () 0, PBlock () 0 5 5] [demo_ack]) (NumberReply demo_env 0 () 0 None 5)
      (demo_es True (-1) [PBlock () 0 5 5, PBlock () 0 5 5] [demo_ack])"
    using demo_number_step [of 0 "[PNumber () 0, PBlock () 0 5 5]" True "[demo_ack]"] by (simp add: remove_at_def)
  show "es_step (demo_es True (-1) [PBlock () 0 5 5, PBlock () 0 5 5] [demo_ack])
      (BlockReply demo_env 0 () 0 5 5 None demo_block) (demo_es False 6 [PBlock () 0 5 5] [demo_ack, demo_push])"
    using demo_block_step [of 0 "[PBlock () 0 5 5, PBlock () 0 5 5]" True True "[demo_ack]"]
    by (simp add: remove_at_def)
  show "es_step (demo_es False 6 [PBlock () 0 5 5] [demo_ack, demo_push])
      (BlockReply demo_env 0 () 0 5 5 None demo_block) (demo_es False 6 [] [demo_ack, demo_push, demo_push])"
    using demo_block_step [of 0 "[PBlock () 0 5 5]" False False "[demo_ack, demo_push]"]
    by (simp add: remove_at_def)
qed (rule run_nil)

text \<open>
  The sequential condition matters: here two walks before the first answer start two windows at
  the same block, the task is given block 5 twice and the client receives its events twice.
  \<open>EventProgress\<close> shows the same for any idle task.
\<close>

lemma event_overlap:
  "\<exists>es s. run es_step (new_es :: unit es) es s \<and> blocks_seen 0 es = [5, 5] \<and>
     es_out s = [demo_ack, demo_push, demo_push]"
  by (intro exI conjI, rule demo_overlap_run, simp add: blocks_seen_def, simp add: demo_es_def)

text \<open>
  C39: a task whose last block is positive and lies before its first one, which the parser and
  the service accept, is in every reachable state one that was never given a block, waits for
  none and does not count as completed, although the protocol has the code \<^theory_text>\<open>INVALID_REQUEST_RANGE\<close> for it.
\<close>

theorem inverted_range_stuck:
  assumes "run es_step new_es es s" and "r < length (es_heap s)" and "t = get_task r s"
    and "0 < m_toBlock (t_params t)" and "m_toBlock (t_params t) < m_fromBlock (t_params t)"
  shows "t_cur t = -1 \<and> \<not> isCompleted t \<and> (\<forall>ns b e. PBlock ns r b e \<notin> set (es_calls s))"
proof -
  have wf: "es_wf s" by (rule es.run_inv [OF assms(1)])
  have "t_cur t = -1"
    using es_wf_task [OF wf assms(2)] assms(3-5) by (auto simp: task_ok_def)
  moreover have "\<not> window_ok (t_params t) b e" for b e
    using assms(4,5) by (auto simp: window_ok_def)
  then have "PBlock ns r b e \<notin> set (es_calls s)" for ns b e
    using wf assms(3) by (fastforce simp: es_wf_def get_task_def)
  ultimately show ?thesis
    using assms(4) by (simp add: isCompleted_def)
qed

lemma demo_inverted_run:
  "run es_step new_es [Start, Subscribe demo_env (demo_msg ''inverted'') 1]
     (onRecvSubscribeEvent demo_env (demo_msg ''inverted'') 1 (es_start new_es))"
  by (intro run_Cons run_nil, rule start, rule subscribe, simp add: demo_json_def, rule run_nil)

lemma inverted_range_stuck_witness:
  "\<not> isCompleted (get_task 0 (onRecvSubscribeEvent demo_env (demo_msg ''inverted'') 1 (es_start new_es)))"
  using inverted_range_stuck [OF demo_inverted_run _ refl, of 0]
  by (simp add: onRecvSubscribeEvent_def demo_msg_def demo_parse es_start_def new_es_def get_task_def new_task_def
      demo_params_def subscribeEventSub_def)

end
