(* ===== verification/EventService.thy ===== *)
theory EventService
  imports EventSubProps
begin

text \<open>
  What the event service does for its clients: the table of tasks after a pass of the worker,
  the answer to a subscription request, the push for a delivered block, and what the worker
  announces and gives up. The small scenario of \<open>EventSubProps\<close> is used for the witnesses.
\<close>

subsection \<open>Counters and table\<close>

text \<open>The counters of the two queues agree with the queues.\<close>

lemma counted_out [simp]:
  "cancelq.counted (s\<lparr>es_out := x\<rparr>) = cancelq.counted s" "addq.counted (s\<lparr>es_out := x\<rparr>) = addq.counted s"
  "cancelq.counted (s\<lparr>es_calls := y\<rparr>) = cancelq.counted s" "addq.counted (s\<lparr>es_calls := y\<rparr>) = addq.counted s"
  "cancelq.counted (s\<lparr>es_running := b\<rparr>) = cancelq.counted s" "addq.counted (s\<lparr>es_running := b\<rparr>) = addq.counted s"
  "cancelq.counted (s\<lparr>es_heap := h\<rparr>) = cancelq.counted s" "addq.counted (s\<lparr>es_heap := h\<rparr>) = addq.counted s"
  by (simp_all add: cancelq.counted_def addq.counted_def)

lemma counted_task [simp]:
  "cancelq.counted (upd_task r f s) = cancelq.counted s" "addq.counted (upd_task r f s) = addq.counted s"
  "cancelq.counted (take_call i s) = cancelq.counted s" "addq.counted (take_call i s) = addq.counted s"
  by (simp_all add: upd_task_def take_call_def)

lemma counted_cross [simp]:
  "addq.counted (unsubscribeEventSub i s) = addq.counted s"
  "cancelq.counted (subscribeEventSub r s) = cancelq.counted s"
  "addq.counted (executeCancelTasks s) = addq.counted s"
  "cancelq.counted (executeAddTasks s) = cancelq.counted s"
  by (simp_all add: addq.counted_def cancelq.counted_def unsubscribeEventSub_def subscribeEventSub_def
      executeCancelTasks_def executeAddTasks_def cancel_task_fold add_task_fields)

definition queues_ok :: "'ns es \<Rightarrow> bool" where
  "queues_ok s \<longleftrightarrow> addq.counted s \<and> cancelq.counted s"

lemma queues_ok_process: "queues_ok s \<Longrightarrow> queues_ok (process E r b e s)"
  by (cases "env_service E (t_group (get_task r s))")
    (simp_all add: queues_ok_def process_def processNextBlock_def cancelq.counted_push)

lemma queues_ok_number: "queues_ok s \<Longrightarrow> queues_ok (onBlockNumber E r err n s)"
  using executeEventSubTask_at_form [of E r n s] queues_ok_process [of "upd_task r (setWork True) s" E r]
  by (auto simp: onBlockNumber_def) (simp add: queues_ok_def)

lemma queues_ok_data: "queues_ok s \<Longrightarrow> queues_ok (onBlockData E r b e err blk s)"
  by (cases "failed err")
    (auto simp: onBlockData_def Let_def queues_ok_def [of "upd_task r f t" for f t] split: prod.split
      intro!: queues_ok_process, auto simp: queues_ok_def)

lemma queues_ok_visit: "queues_ok s \<Longrightarrow> queues_ok (snd (executeEventSubTask E r s))"
  by (cases "env_service E (t_group (get_task r s))")
    (simp_all add: queues_ok_def executeEventSubTask_def Let_def onTaskComplete_def cancelq.counted_push)

lemma queues_ok_walk: "queues_ok s \<Longrightarrow> queues_ok (executeEventSubTasks E order s)"
  by (induction order rule: rev_induct)
    (auto simp: executeEventSubTasks_snoc Let_def queues_ok_visit split: option.split)

interpretation queues: step_invariant es_step "new_es :: 'ns es" queues_ok
proof
  show "queues_ok (new_es :: 'ns es)"
    by (simp add: queues_ok_def addq.counted_def cancelq.counted_def new_es_def)
  fix s t :: "'ns es" and ev
  assume q: "queues_ok s" and "es_step s ev t"
  from this(2) show "queues_ok t"
  proof cases
    case (subscribe E m ss)
    with q show ?thesis
      by (simp add: onRecvSubscribeEvent_def queues_ok_def addq.counted_push Let_def split: prod.split option.split)
  next
    case (unsubscribe E m ss)
    with q show ?thesis
      by (simp add: onRecvUnsubscribeEvent_def queues_ok_def cancelq.counted_push split: prod.split)
  next
    case (worker order E)
    from q have "queues_ok (executeAddTasks (executeCancelTasks s))"
      by (simp add: queues_ok_def addq.counted_drain cancelq.counted_drain)
    with worker show ?thesis
      by (simp add: executeWorker_def queues_ok_walk)
  qed (use q in \<open>auto simp: es_start_def es_stop_def queues_ok_number queues_ok_data queues_ok_def [of "take_call i s" for i]
      intro!: queues_ok_number queues_ok_data, auto simp: queues_ok_def\<close>)
qed

text \<open>
  C31: what a pass of the worker does to the task table: first every queued cancellation
  removes its id, then of the queued tasks the first with each id that is now free is
  entered; a task already in the table under the id keeps its place. So a subscription
  cancelled before the worker runs is not cancelled at all.
\<close>

theorem worker_table:
  assumes "run es_step new_es es s"
    and "length (es_addTasks s) < 2 ^ 32" and "length (es_cancelTasks s) < 2 ^ 32"
  shows "fmlookup (es_tasks (executeWorker E order s)) i =
    (case (if i \<in> set (es_cancelTasks s) then None else fmlookup (es_tasks s) i) of
       Some r \<Rightarrow> Some r
     | None \<Rightarrow> find (\<lambda>r. t_id (get_task r s) = i) (es_addTasks s))"
proof -
  have q: "addq.counted s" "cancelq.counted s"
    using queues.run_inv [OF assms(1)] by (simp_all add: queues_ok_def)
  have c: "es_cancelTaskCount s = 0 \<longleftrightarrow> es_cancelTasks s = []"
    using q(2) assms(3) by (simp add: cancelq.counted_def of_nat_32_eq_0)
  have a: "es_addTaskCount s = 0 \<longleftrightarrow> es_addTasks s = []"
    using q(1) assms(2) by (simp add: addq.counted_def of_nat_32_eq_0)
  have t: "fmlookup (es_tasks (executeCancelTasks s)) i =
      (if i \<in> set (es_cancelTasks s) then None else fmlookup (es_tasks s) i)"
    using c by (auto simp: executeCancelTasks_tasks)
  show ?thesis
  proof (cases "es_addTasks s")
    case Nil
    with a t show ?thesis
      by (simp add: executeWorker_def executeAddTasks_tasks split: option.split)
  next
    case (Cons r rs)
    with a have "es_addTaskCount s \<noteq> 0" by simp
    with t show ?thesis
      by (simp add: executeWorker_def executeAddTasks_tasks split: option.split)
  qed
qed

definition demo_cancelled :: "unit es" where
  "demo_cancelled = \<lparr>es_running = True, es_addTasks = [0], es_addTaskCount = 1, es_cancelTasks = [''sub''],
     es_cancelTaskCount = 1, es_tasks = fmempty, es_maxBlockProcessPerLoop = 10,
     es_heap = [demo_task False (-1)], es_calls = [], es_out = [demo_ack, demo_ack]\<rparr>"

lemma demo_unsubscribe: "onRecvUnsubscribeEvent demo_env (demo_msg ''unsubscribe'') 1 demo_subscribed = demo_cancelled"
  by (simp add: onRecvUnsubscribeEvent_def demo_msg_def demo_parse unsubscribeEventSub_def demo_subscribed_def
      demo_cancelled_def demo_ack_def response_msgs_def)

lemma demo_cancelled_run:
  "run es_step new_es [Start, Subscribe demo_env (demo_msg ''subscribe'') 1,
      Unsubscribe demo_env (demo_msg ''unsubscribe'') 1] demo_cancelled"
proof (intro run_Cons)
  show "es_step new_es Start (es_start new_es)" by (rule start)
  show "es_step (es_start new_es) (Subscribe demo_env (demo_msg ''subscribe'') 1) demo_subscribed"
    using subscribe [of demo_env "es_start new_es" "demo_msg ''subscribe''" 1]
    unfolding demo_subscribe by (simp add: demo_json_def)
  show "es_step demo_subscribed (Unsubscribe demo_env (demo_msg ''unsubscribe'') 1) demo_cancelled"
    using unsubscribe [of demo_subscribed demo_env "demo_msg ''unsubscribe''" 1]
    unfolding demo_unsubscribe .
qed (rule run_nil)

lemma worker_table_witness:
  "fmlookup (es_tasks (executeWorker demo_env [''sub''] demo_cancelled)) ''sub'' = Some 0"
  using worker_table [OF demo_cancelled_run, of demo_env "[''sub'']" "''sub''"]
  by (simp add: demo_cancelled_def get_task_def demo_task_def)

text \<open>
  C30: every subscription request on a live session is answered by one message, the request
  itself with the response as its data. A text that does not parse is answered
  \<^theory_text>\<open>INVALID_PARAMS\<close> with an empty id, whatever id it held; an unknown group
  \<^theory_text>\<open>GROUP_NOT_EXIST\<close> with the request's id; in both cases no task is made. Otherwise the answer is
  \<^theory_text>\<open>SUCCESS\<close> and a new idle task with the request's id, group and parameters is queued, even if
  a task with this id is already running.
\<close>

theorem subscribe_reply:
  assumes "env_connected E ss" and t: "t = onRecvSubscribeEvent E m ss s"
  shows "\<exists>i status. es_out t = es_out s @ [(ss, m\<lparr>wm_data := fst (response_generateJson (env_json E)
            \<lparr>rs_id = i, rs_status = ep_code status, rs_jResp = JNull\<rparr>)\<rparr>)] \<and>
     (case parse_request (env_json E) (wm_data m) of
        Inr (Inr (rid, g, p)) \<Rightarrow>
          i = rid \<and>
          (if env_service E g = None
           then status = GROUP_NOT_EXIST \<and> es_addTasks t = es_addTasks s \<and> es_heap t = es_heap s
           else status = SUCCESS \<and> es_addTasks t = es_addTasks s @ [length (es_heap s)] \<and>
                es_heap t = es_heap s @ [\<lparr>t_id = rid, t_group = g, t_params = p, t_session = ss,
                                         t_work = False, t_cur = -1\<rparr>])
      | _ \<Rightarrow> i = '''' \<and> status = INVALID_PARAMS \<and> es_addTasks t = es_addTasks s \<and> es_heap t = es_heap s)"
proof (cases "attempt_value (parse_request (env_json E) (wm_data m))")
  case None
  then have "request_fromJson (env_json E) (wm_data m) new_event_request = (False, new_event_request)"
    by (simp add: request_fromJson_def)
  with None assms(1) show ?thesis
    by (intro exI [of _ "''''"] exI [of _ INVALID_PARAMS])
      (auto simp: t onRecvSubscribeEvent_def response_msgs_def response_generateJson_def new_event_request_def
        Let_def split: sum.split)
next
  case (Some x)
  obtain rid g p where x: "x = (rid, g, p)" by (metis prod_cases3)
  with Some have parse: "parse_request (env_json E) (wm_data m) = Inr (Inr (rid, g, p))"
    by simp
  then have r: "request_fromJson (env_json E) (wm_data m) new_event_request =
      (True, \<lparr>rq_id = rid, rq_group = g, rq_params = Some p, rq_state = None\<rparr>)"
    by (simp add: request_fromJson_def new_event_request_def)
  show ?thesis
  proof (cases "env_service E g")
    case None
    with parse r assms(1) show ?thesis
      by (intro exI [of _ rid] exI [of _ GROUP_NOT_EXIST])
        (simp add: t onRecvSubscribeEvent_def response_msgs_def response_generateJson_def Let_def)
  next
    case (Some ns)
    with parse r assms(1) show ?thesis
      by (intro exI [of _ rid] exI [of _ SUCCESS])
        (simp add: t onRecvSubscribeEvent_def response_msgs_def response_generateJson_def new_task_def
          subscribeEventSub_def Let_def)
  qed
qed

lemma subscribe_reply_witness:
  "es_out (onRecvSubscribeEvent demo_env (demo_msg ''nonsense'') 1 new_es) =
     [(1, (demo_msg ''nonsense'')\<lparr>wm_data := ''text''\<rparr>)]"
  using subscribe_reply [of demo_env 1 _ "demo_msg ''nonsense''" new_es, OF _ refl]
  by (auto simp: new_es_def response_generateJson_def Let_def)

lemma process_frame:
  assumes "r < length (es_heap s)"
  shows "es_out (process E r b e s) = es_out s"
    and "t_cur (get_task r (process E r b e s)) = t_cur (get_task r s)"
  using assms
  by (cases "env_service E (t_group (get_task r s))",
    simp_all add: process_def processNextBlock_def unsubscribeEventSub_def)+

text \<open>
  When the ledger delivers a block to a task, a client with a live session is sent
  exactly one message, holding the events of the block that match the task's filter in the
  order of the block, or none if no event matches; a failed delivery sends nothing and
  leaves the task's block where it was, so the block is asked for again.
\<close>

lemma delivery_push:
  assumes "env_connected E (t_session (get_task r s))" and len: "length (block_events (env_hex E) (t_params (get_task r s)) blk) < 2 ^ 32"
    and r: "r < length (es_heap s)" and t: "t = onBlockData E r b e err blk s"
    and b: "in_i64 (b + 1)"
  shows "if failed err then es_out t = es_out s \<and> t_cur (get_task r t) = t_cur (get_task r s) \<and> \<not> t_work (get_task r t)
     else t_cur (get_task r t) = max (b + 1) (t_cur (get_task r s)) \<and>
       es_out t = es_out s @
         (let evs = block_events (env_hex E) (t_params (get_task r s)) blk
          in if evs = [] then []
             else [(t_session (get_task r s), (env_message E)\<lparr>wm_type := event_message_code EVENT_LOG_PUSH,
                     wm_data := jwrite (env_json E) (JObject (jassign
                       [(''id'', JString (t_id (get_task r s))), (''status'', JInt 0), (''result'', JArray evs)]
                       fmempty))\<rparr>)])"
proof (cases "failed err")
  case True
  with r show ?thesis by (simp add: t onBlockData_def)
next
  case False
  define evs where "evs = block_events (env_hex E) (t_params (get_task r s)) blk"
  have m: "matches_block (env_hex E) (t_params (get_task r s)) blk [] = (of_nat (length evs), evs)"
    by (simp add: matches_block_events evs_def)
  have c: "(of_nat (length evs) :: 32 word) = 0 \<longleftrightarrow> evs = []"
    using len by (simp add: of_nat_32_eq_0 evs_def)
  define u where "u = upd_task r (setCurrentBlockNumber (b + 1))
      (if evs = [] then s else snd (callback E r False evs s))"
  have tu: "t = process E r (b + 1) e u"
    unfolding t onBlockData_def m u_def Let_def i64_id [OF b] using False c by simp
  have ut: "get_task r u = setCurrentBlockNumber (b + 1) (get_task r s)"
    using r by (simp add: u_def)
  have "r < length (es_heap u)"
    using r by (simp add: u_def)
  then have p: "es_out t = es_out u" "t_cur (get_task r t) = t_cur (get_task r u)"
    unfolding tu by (simp_all add: process_frame)
  moreover have "es_out u = es_out s @ (if evs = [] then []
             else [(t_session (get_task r s), (env_message E)\<lparr>wm_type := event_message_code EVENT_LOG_PUSH,
                     wm_data := jwrite (env_json E) (JObject (jassign
                       [(''id'', JString (t_id (get_task r s))), (''status'', JInt 0), (''result'', JArray evs)]
                       fmempty))\<rparr>)])"
    using assms(1) by (simp add: u_def event_msgs_def push_message_def response_to_json_def)
  ultimately show ?thesis
    using False ut p by (simp only: Let_def evs_def [symmetric] if_False setCurrent_fields simp_thms)
qed

lemma delivery_push_witness:
  "es_out (onBlockData demo_env 0 5 5 None demo_block (demo_es True (-1) [] [])) = [demo_push]"
proof -
  have len: "length (block_events ref_hexlib demo_params demo_block) = 1"
    using demo_matches(2) by (simp add: matches_block_events)
  then have "block_events ref_hexlib demo_params demo_block \<noteq> []" by auto
  then show ?thesis
    using delivery_push [of demo_env 0 "demo_es True (-1) [] []" demo_block _ 5 5 None, OF _ _ _ refl] len
    by (simp add: demo_es_def get_task_def demo_task_def in_i64_def demo_push_def blank_message_def)
qed

subsection \<open>The walk of the worker\<close>

text \<open>What a visit to the task under one id sends and cancels.\<close>

definition visit_out :: "'ns es_env \<Rightarrow> 'ns es \<Rightarrow> string \<Rightarrow> (session \<times> ws_message) list" where
  "visit_out E s i =
     (case fmlookup (es_tasks s) i of None \<Rightarrow> []
      | Some r \<Rightarrow> if isCompleted (get_task r s)
                  then response_msgs E (t_session (get_task r s)) (push_message E) (t_id (get_task r s))
                         (ep_code PUSH_COMPLETED)
                  else [])"

definition visit_cancel :: "'ns es_env \<Rightarrow> 'ns es \<Rightarrow> string \<Rightarrow> string list" where
  "visit_cancel E s i =
     (case fmlookup (es_tasks s) i of None \<Rightarrow> []
      | Some r \<Rightarrow> let t = get_task r s
          in if \<not> env_connected E (t_session t) \<or> isCompleted t \<or>
                (\<not> t_work t \<and> env_service E (t_group t) = None) then [t_id t] else [])"

lemma visit_frame:
  "es_tasks t = es_tasks s \<Longrightarrow> es_heap t = es_heap s \<Longrightarrow>
     visit_out E t i = visit_out E s i \<and> visit_cancel E t i = visit_cancel E s i"
  by (cases "fmlookup (es_tasks s) i") (simp_all add: visit_out_def visit_cancel_def get_task_def)

lemma executeEventSubTask_visit:
  assumes "fmlookup (es_tasks s) i = Some r"
  shows "es_out (snd (executeEventSubTask E r s)) = es_out s @ visit_out E s i"
    and "es_cancelTasks (snd (executeEventSubTask E r s)) = es_cancelTasks s @ visit_cancel E s i"
  using assms
  by (cases "env_service E (t_group (get_task r s))",
      simp_all add: executeEventSubTask_def Let_def onTaskComplete_def unsubscribeEventSub_def
        visit_out_def visit_cancel_def event_msgs_def response_msgs_def get_task_def)+

lemma executeEventSubTasks_visits:
  "es_out (executeEventSubTasks E order s) = es_out s @ concat (map (visit_out E s) order)"
  "es_cancelTasks (executeEventSubTasks E order s) = es_cancelTasks s @ concat (map (visit_cancel E s) order)"
proof (induction order rule: rev_induct)
  case (snoc i "is")
  let ?t = "executeEventSubTasks E is s"
  have v: "visit_out E ?t i = visit_out E s i" "visit_cancel E ?t i = visit_cancel E s i"
    using visit_frame [of ?t s E i] by simp_all
  have "es_out (executeEventSubTasks E (is @ [i]) s) = es_out ?t @ visit_out E s i \<and>
        es_cancelTasks (executeEventSubTasks E (is @ [i]) s) = es_cancelTasks ?t @ visit_cancel E s i"
  proof (cases "fmlookup (es_tasks s) i")
    case None
    then show ?thesis
      by (simp add: executeEventSubTasks_snoc Let_def visit_out_def visit_cancel_def)
  next
    case (Some r)
    then show ?thesis
      using executeEventSubTask_visit [of ?t i r E] v by (simp add: executeEventSubTasks_snoc Let_def)
  qed
  with snoc show "es_out (executeEventSubTasks E (is @ [i]) s) = es_out s @ concat (map (visit_out E s) (is @ [i]))"
    and "es_cancelTasks (executeEventSubTasks E (is @ [i]) s) =
           es_cancelTasks s @ concat (map (visit_cancel E s) (is @ [i]))"
    by simp_all
qed simp_all

text \<open>
  C32: a pass of the worker tells each client with a live session of each of its completed
  subscriptions, once, and sends nothing else; exactly the ids of completed subscriptions,
  of closed sessions and of idle tasks whose group has no service are queued for removal.
  The next pass takes them out of the table, so a completion is not announced again unless
  the client subscribes anew under the id.
\<close>

theorem worker_retires:
  assumes run: "run es_step new_es es s" and E: "es_running s" "distinct order"
    and order: "fset_of_list order = fmdom (es_tasks (executeAddTasks (executeCancelTasks s)))"
    and t: "t = executeWorker E order s"
    and small: "length (es_cancelTasks t) < 2 ^ 32" "length (es_addTasks t) < 2 ^ 32"
    and i: "fmlookup (es_tasks t) i = Some r"
  shows "es_out t = es_out s @ concat (map (visit_out E t) order) \<and>
     (env_connected E (t_session (get_task r t)) \<and> isCompleted (get_task r t) \<longrightarrow>
        visit_out E t i = [(t_session (get_task r t), (env_message E)\<lparr>wm_type := event_message_code EVENT_LOG_PUSH,
            wm_data := jwrite (env_json E) (JObject (jassign
              [(''id'', JString i), (''status'', JInt (ep_code PUSH_COMPLETED))] fmempty))\<rparr>)]) \<and>
     (\<not> env_connected E (t_session (get_task r t)) \<or> isCompleted (get_task r t) \<longrightarrow>
        fmlookup (es_tasks (executeWorker E' order' t)) i = find (\<lambda>r. t_id (get_task r t) = i) (es_addTasks t))"
proof (intro conjI impI)
  let ?u = "executeAddTasks (executeCancelTasks s)"
  have st: "es_step s (Worker E order) t"
    unfolding t by (rule worker [OF E order])
  have run': "run es_step new_es (es @ [Worker E order]) t" by (rule run_snoc [OF run st])
  have wf: "es_wf t" by (rule es.run_inv [OF run'])
  have tab: "es_tasks t = es_tasks ?u" and heap: "es_heap t = es_heap ?u"
    by (simp_all add: t executeWorker_def)
  have v: "visit_out E ?u = visit_out E t" "visit_cancel E ?u = visit_cancel E t"
    using visit_frame [OF tab heap, of E] by (simp_all add: fun_eq_iff)
  show "es_out t = es_out s @ concat (map (visit_out E t) order)"
    using executeEventSubTasks_visits(1) [of E order ?u] by (simp add: t [symmetric] executeWorker_def v) (simp add: t executeWorker_def)
  have id: "t_id (get_task r t) = i" using es_wf_table [OF wf i] by simp
  {
    assume "env_connected E (t_session (get_task r t)) \<and> isCompleted (get_task r t)"
    with i id show "visit_out E t i = [(t_session (get_task r t), (env_message E)\<lparr>wm_type := event_message_code EVENT_LOG_PUSH,
            wm_data := jwrite (env_json E) (JObject (jassign
              [(''id'', JString i), (''status'', JInt (ep_code PUSH_COMPLETED))] fmempty))\<rparr>)]"
      by (simp add: visit_out_def response_msgs_def push_message_def response_to_json_def)
  next
    assume gone: "\<not> env_connected E (t_session (get_task r t)) \<or> isCompleted (get_task r t)"
    then have "i \<in> set (visit_cancel E t i)"
      using i id by (auto simp: visit_cancel_def Let_def)
    moreover have "i \<in> set order"
      using i order tab by (metis fmdomI fset_of_list_elem)
    ultimately have c: "i \<in> set (es_cancelTasks t)"
      using executeEventSubTasks_visits(2) [of E order ?u] by (auto simp: t executeWorker_def v [unfolded t executeWorker_def])
    have q: "addq.counted t" "cancelq.counted t"
      using queues.run_inv [OF run'] by (simp_all add: queues_ok_def)
    have n: "es_cancelTaskCount t \<noteq> 0"
      using q(2) c small(1) by (auto simp: cancelq.counted_def of_nat_32_eq_0)
    have a: "es_addTaskCount t = 0 \<longleftrightarrow> es_addTasks t = []"
      using q(1) small(2) by (simp add: addq.counted_def of_nat_32_eq_0)
    show "fmlookup (es_tasks (executeWorker E' order' t)) i = find (\<lambda>r. t_id (get_task r t) = i) (es_addTasks t)"
      using c n a by (cases "es_addTasks t")
        (simp_all add: executeWorker_def executeAddTasks_tasks executeCancelTasks_tasks)
  }
qed

definition demo_offline :: "unit es_env" where
  "demo_offline = demo_env\<lparr>env_connected := \<lambda>_. False\<rparr>"

lemma demo_offline_worker:
  "executeWorker demo_offline [''sub''] demo_subscribed =
     (demo_es False (-1) [] [demo_ack])\<lparr>es_cancelTasks := [''sub''], es_cancelTaskCount := 1\<rparr>"
  unfolding executeWorker_def demo_worker1
  by (simp add: executeEventSubTasks_def executeEventSubTask_def demo_es_def get_task_def demo_task_def
      demo_offline_def unsubscribeEventSub_def event_msgs_def)

lemma demo_subscribed_run:
  "run es_step new_es [Start, Subscribe demo_env (demo_msg ''subscribe'') 1] demo_subscribed"
proof (intro run_Cons)
  show "es_step new_es Start (es_start new_es)" by (rule start)
  show "es_step (es_start new_es) (Subscribe demo_env (demo_msg ''subscribe'') 1) demo_subscribed"
    using subscribe [of demo_env "es_start new_es" "demo_msg ''subscribe''" 1]
    unfolding demo_subscribe by (simp add: demo_json_def)
qed (rule run_nil)

lemma worker_retires_witness:
  "fmlookup (es_tasks (executeWorker demo_env [] (executeWorker demo_offline [''sub''] demo_subscribed))) ''sub'' = None"
proof -
  have run: "es_running demo_subscribed" "distinct [''sub'']"
    by (simp_all add: demo_subscribed_def)
  have order: "fset_of_list [''sub''] = fmdom (es_tasks (executeAddTasks (executeCancelTasks demo_subscribed)))"
    unfolding demo_worker1 by (simp add: demo_es_def)
  note ret = worker_retires [OF demo_subscribed_run run order refl, where E = demo_offline and i = "''sub''" and r = 0
      and E' = demo_env and order' = "[]"]
  show ?thesis
    using ret unfolding demo_offline_worker
    by (simp add: demo_es_def get_task_def demo_task_def demo_offline_def)
qed

end
