(* ===== verification/EventProgress.thy ===== *)
theory EventProgress
  imports EventService "HOL-Library.Sublist" "HOL-Library.Multiset"
begin

text \<open>
  How a subscription gets on. A round is a pass of the worker, the answer to the request for
  the block number and the answers for the blocks of one window; it moves an idle task on by a
  window. \<open>progress\<close> describes a stretch of a run in which the ledger, at height \<open>n\<close>
  with the blocks \<open>blk\<close>, answers the requests of the task \<open>r\<close> and the worker passes: the blocks
  delivered to the task in it, and messages that are among those sent in it.
\<close>

fun is_pass :: "'ns es_event \<Rightarrow> bool" where
  "is_pass (Worker E order) = True"
| "is_pass _ = False"

fun ledger_event :: "'ns es_env \<Rightarrow> nat \<Rightarrow> int \<Rightarrow> (int \<Rightarrow> block) \<Rightarrow> 'ns es_event \<Rightarrow> bool" where
  "ledger_event E r n blk (Worker E' order) \<longleftrightarrow> E' = E"
| "ledger_event E r n blk (NumberReply E' k ns r' err m) \<longleftrightarrow> E' = E \<and> r' = r \<and> err = None \<and> m = n"
| "ledger_event E r n blk (BlockReply E' k ns r' b e err d) \<longleftrightarrow> E' = E \<and> r' = r \<and> err = None \<and> d = blk b"
| "ledger_event E r n blk _ \<longleftrightarrow> False"

definition progress ::
  "'ns es_env \<Rightarrow> nat \<Rightarrow> int \<Rightarrow> (int \<Rightarrow> block) \<Rightarrow> 'ns es \<Rightarrow> 'ns es_event list \<Rightarrow> 'ns es
     \<Rightarrow> int list \<Rightarrow> (session \<times> ws_message) list \<Rightarrow> bool" where
  "progress E r n blk s es t bs msgs \<longleftrightarrow>
     run es_step s es t \<and> (\<forall>ev \<in> set es. ledger_event E r n blk ev) \<and> blocks_seen r es = bs \<and>
     (\<exists>out. es_out t = es_out s @ out \<and> subseq msgs out)"

lemma blocks_seen_append: "blocks_seen r (xs @ ys) = blocks_seen r xs @ blocks_seen r ys"
  by (simp add: blocks_seen_def)

lemma progress_append:
  assumes "progress E r n blk s es t bs msgs" and "progress E r n blk t es' u bs' msgs'"
  shows "progress E r n blk s (es @ es') u (bs @ bs') (msgs @ msgs')"
  using assms unfolding progress_def
  by (auto simp: blocks_seen_append intro: run_append list_emb_append_mono)

lemma progress_step:
  assumes "es_step s ev t" and "ledger_event E r n blk ev" and "es_out t = es_out s @ out" and "subseq msgs out"
  shows "progress E r n blk s [ev] t (delivered r ev) msgs"
proof -
  have "run es_step s [ev] t" by (rule run_Cons, rule assms(1), rule run_nil)
  with assms show ?thesis by (auto simp: progress_def blocks_seen_def)
qed

text \<open>What a delivered block sends to the client of a task.\<close>

definition block_msgs :: "'ns es_env \<Rightarrow> task \<Rightarrow> block \<Rightarrow> (session \<times> ws_message) list" where
  "block_msgs E t d =
     (case matches_block (env_hex E) (t_params t) d [] of
        (cnt, res) \<Rightarrow> if cnt \<noteq> 0 then event_msgs E (t_session t) False (t_id t) res else [])"

text \<open>
  The rest of the service stays as it is: the task is in the table, not about to be
  cancelled, its client connected and its group served.
\<close>

definition attended :: "'ns es_env \<Rightarrow> string \<Rightarrow> nat \<Rightarrow> 'ns es \<Rightarrow> bool" where
  "attended E i r s \<longleftrightarrow>
     es_wf s \<and> es_running s \<and> fmlookup (es_tasks s) i = Some r \<and> i \<notin> set (es_cancelTasks s) \<and>
     env_connected E (t_session (get_task r s)) \<and> env_service E (t_group (get_task r s)) \<noteq> None"

definition idle_task :: "'ns es_env \<Rightarrow> string \<Rightarrow> nat \<Rightarrow> 'ns es \<Rightarrow> bool" where
  "idle_task E i r s \<longleftrightarrow>
     attended E i r s \<and> calls_of r (es_calls s) = [] \<and> \<not> t_work (get_task r s)"

lemma attendedD:
  assumes "attended E i r s"
  shows "es_wf s" "es_running s" "fmlookup (es_tasks s) i = Some r" "i \<notin> set (es_cancelTasks s)"
    and "env_connected E (t_session (get_task r s))" "env_service E (t_group (get_task r s)) \<noteq> None"
    and "r < length (es_heap s)" "t_id (get_task r s) = i"
  using assms es_wf_table [of s i r] by (simp_all add: attended_def)

text \<open>
  The requests of a task that the ledger has yet to answer: each can be answered, which leaves
  the others.
\<close>

abbreviation asked :: "nat \<Rightarrow> 'ns es \<Rightarrow> 'ns call multiset" where
  "asked r s \<equiv> mset (calls_of r (es_calls s))"

lemma asked_call:
  assumes "mset (calls_of r cs) = add_mset c R"
  obtains k where "k < length cs" "cs ! k = c" "mset (calls_of r (remove_at k cs)) = R"
proof -
  have "c \<in># mset (calls_of r cs)" by (simp add: assms)
  then have c: "c \<in> set cs" "call_ref c = r" by (auto simp: calls_of_def)
  then obtain k where k: "k < length cs" "cs ! k = c" by (auto simp: in_set_conv_nth)
  have "calls_of r cs = calls_of r (take k cs) @ calls_of r [cs ! k] @ calls_of r (drop (Suc k) cs)"
    by (metis k(1) id_take_nth_drop calls_of_simps(2) append_Cons append_Nil)
  with k c(2) have "mset (calls_of r cs) = add_mset c (mset (calls_of r (remove_at k cs)))"
    by (simp add: calls_of_remove_at)
  with assms k show ?thesis by (intro that [of k]) simp_all
qed

subsection \<open>The blocks of a window\<close>

lemma onBlockData_next:
  assumes att: "attended E i r s" and w: "window_ok (t_params (get_task r s)) b e"
    and t: "t = onBlockData E r b e None d (take_call k s)"
    and rest: "mset (calls_of r (remove_at k (es_calls s))) = R"
  shows "es_out t = es_out s @ block_msgs E (get_task r s) d"
    and "es_running t = es_running s" "es_tasks t = es_tasks s" "es_cancelTasks t = es_cancelTasks s"
    and "get_task r t = (get_task r s)\<lparr>t_work := (b < e \<and> t_work (get_task r s)), t_cur := max (t_cur (get_task r s)) (b + 1)\<rparr>"
    and "b < e \<Longrightarrow> \<exists>ns. asked r t = add_mset (PBlock ns r (b + 1) e) R"
    and "\<not> b < e \<Longrightarrow> asked r t = R"
proof -
  note a = attendedD [OF att]
  obtain ns where ns: "env_service E (t_group (get_task r s)) = Some ns" using a(6) by auto
  have b1: "i64 (b + 1) = b + 1"
    using w by (intro i64_between) (auto simp: window_ok_def)
  obtain cnt res where m: "matches_block (env_hex E) (t_params (get_task r s)) d [] = (cnt, res)"
    by fastforce
  let ?u = "upd_task r (setCurrentBlockNumber (b + 1)) ((take_call k s)\<lparr>es_out := es_out s @ block_msgs E (get_task r s) d\<rparr>)"
  have t': "t = process E r (b + 1) e ?u"
    by (simp add: t onBlockData_def b1 m block_msgs_def take_call_def)
  have g: "get_task r ?u = setCurrentBlockNumber (b + 1) (get_task r s)" using a(7) by simp
  have c: "setCurrentBlockNumber (b + 1) (get_task r s) = (get_task r s)\<lparr>t_cur := max (t_cur (get_task r s)) (b + 1)\<rparr>"
    by (simp add: setCurrentBlockNumber_def max_def)
  have f: "es_running ?u = es_running s" "es_tasks ?u = es_tasks s" "es_cancelTasks ?u = es_cancelTasks s"
    "es_out ?u = es_out s @ block_msgs E (get_task r s) d" "es_calls ?u = remove_at k (es_calls s)"
    "length (es_heap ?u) = length (es_heap s)"
    by (simp_all add: take_call_def upd_task_def)
  show "es_out t = es_out s @ block_msgs E (get_task r s) d"
    "es_running t = es_running s" "es_tasks t = es_tasks s" "es_cancelTasks t = es_cancelTasks s"
    "get_task r t = (get_task r s)\<lparr>t_work := (b < e \<and> t_work (get_task r s)), t_cur := max (t_cur (get_task r s)) (b + 1)\<rparr>"
    "b < e \<Longrightarrow> \<exists>ns. asked r t = add_mset (PBlock ns r (b + 1) e) R"
    "\<not> b < e \<Longrightarrow> asked r t = R"
    using a(7) rest
    by (simp_all add: t' process_def processNextBlock_def g c f ns setWork_def)
      (simp_all add: upd_task_def take_call_def)
qed


lemma attended_cong:
  assumes "attended E i r s" and "es_wf t" and "es_running t = es_running s" and "es_tasks t = es_tasks s"
    and "es_cancelTasks t = es_cancelTasks s" and "t_session (get_task r t) = t_session (get_task r s)"
    and "t_group (get_task r t) = t_group (get_task r s)"
  shows "attended E i r t"
  using assms by (simp add: attended_def)

lemma block_msgs_cong:
  "t_params t = t_params u \<Longrightarrow> t_session t = t_session u \<Longrightarrow> t_id t = t_id u \<Longrightarrow> block_msgs E t = block_msgs E u"
  by (simp add: fun_eq_iff block_msgs_def split: prod.split)

lemma window_walk:
  assumes "attended E i r s" and "asked r s = add_mset (PBlock ns r b e) R"
    and "window_ok (t_params (get_task r s)) b e"
  shows "\<exists>es t. progress E r n blk s es t [b..e] (concat (map (\<lambda>b. block_msgs E (get_task r s) (blk b)) [b..e])) \<and>
     filter is_pass es = [] \<and> attended E i r t \<and> asked r t = R \<and>
     get_task r t = (get_task r s)\<lparr>t_work := False, t_cur := max (t_cur (get_task r s)) (e + 1)\<rparr>"
  using assms
proof (induction "nat (e - b)" arbitrary: b s ns)
  case 0
  note a = attendedD [OF 0(2)]
  obtain k where k: "k < length (es_calls s)" "es_calls s ! k = PBlock ns r b e"
    "mset (calls_of r (remove_at k (es_calls s))) = R"
    by (rule asked_call [OF 0(3)])
  define t where "t = onBlockData E r b e None (blk b) (take_call k s)"
  note nx = onBlockData_next [OF 0(2,4) t_def k(3)]
  have st: "es_step s (BlockReply E k ns r b e None (blk b)) t"
    unfolding t_def by (rule block_reply [OF k(1,2)])
  have be: "b = e" using 0(1,4) by (auto simp: window_ok_def)
  have "progress E r n blk s [BlockReply E k ns r b e None (blk b)] t [b] (block_msgs E (get_task r s) (blk b))"
    using progress_step [OF st _ nx(1), of E r n blk] by simp
  moreover have "attended E i r t"
    using nx(2-5) es.inv_step [OF a(1) st] by (intro attended_cong [OF 0(2)]) simp_all
  ultimately show ?case
    using nx(5,7) be by (intro exI [of _ "[BlockReply E k ns r b e None (blk b)]"] exI [of _ t]) simp
next
  case (Suc m)
  note a = attendedD [OF Suc(3)]
  obtain k where k: "k < length (es_calls s)" "es_calls s ! k = PBlock ns r b e"
    "mset (calls_of r (remove_at k (es_calls s))) = R"
    by (rule asked_call [OF Suc(4)])
  define t where "t = onBlockData E r b e None (blk b) (take_call k s)"
  note nx = onBlockData_next [OF Suc(3,5) t_def k(3)]
  have st: "es_step s (BlockReply E k ns r b e None (blk b)) t"
    unfolding t_def by (rule block_reply [OF k(1,2)])
  have be: "b < e" using Suc(2) by simp
  then obtain ns' where c: "asked r t = add_mset (PBlock ns' r (b + 1) e) R" using nx(6) by blast
  have att: "attended E i r t"
    using nx(2-5) es.inv_step [OF a(1) st] by (intro attended_cong [OF Suc(3)]) simp_all
  have "\<exists>es u. progress E r n blk t es u [b + 1..e] (concat (map (\<lambda>b. block_msgs E (get_task r t) (blk b)) [b + 1..e])) \<and>
     filter is_pass es = [] \<and> attended E i r u \<and> asked r u = R \<and>
     get_task r u = (get_task r t)\<lparr>t_work := False, t_cur := max (t_cur (get_task r t)) (e + 1)\<rparr>"
    by (rule Suc(1) [OF _ att c]) (use Suc(2,5) be nx(5) in \<open>auto simp: window_ok_def\<close>)
  then obtain es u where u: "progress E r n blk t es u [b + 1..e] (concat (map (\<lambda>b. block_msgs E (get_task r t) (blk b)) [b + 1..e]))"
     "filter is_pass es = []" "attended E i r u" "asked r u = R"
     "get_task r u = (get_task r t)\<lparr>t_work := False, t_cur := max (t_cur (get_task r t)) (e + 1)\<rparr>"
    by blast
  have p: "progress E r n blk s [BlockReply E k ns r b e None (blk b)] t [b] (block_msgs E (get_task r s) (blk b))"
    using progress_step [OF st _ nx(1), of E r n blk] by simp
  have "block_msgs E (get_task r t) = block_msgs E (get_task r s)"
    by (rule block_msgs_cong) (simp_all add: nx(5))
  with progress_append [OF p u(1)] be show ?case
    using u(2-5) nx(5) by (intro exI [of _ "BlockReply E k ns r b e None (blk b) # es"] exI [of _ u])
      (simp add: upto_rec1 [of b e])
qed

subsection \<open>A pass of the worker\<close>

lemma executeEventSubTasks_append:
  "executeEventSubTasks E (xs @ ys) s = executeEventSubTasks E ys (executeEventSubTasks E xs s)"
  by (simp add: executeEventSubTasks_def)

lemma visits_other:
  assumes "es_wf s" and "distinct order" and "fmlookup (es_tasks s) i = Some r" and "i \<notin> set order"
  shows "calls_of r (es_calls (executeEventSubTasks E order s)) = calls_of r (es_calls s)"
proof -
  obtain new where new: "es_calls (executeEventSubTasks E order s) = es_calls s @ new"
    "\<forall>c \<in> set new. \<exists>j \<in> set order. fmlookup (es_tasks s) j = Some (call_ref c)"
    using executeEventSubTasks_calls [OF assms(1,2), of E] by blast
  have "call_ref c \<noteq> r" if "c \<in> set new" for c
  proof
    assume "call_ref c = r"
    with new(2) that obtain j where "j \<in> set order" "fmlookup (es_tasks s) j = Some r" by blast
    with es_wf_table [OF assms(1), of j r] es_wf_table [OF assms(1,3)] assms(4) show False by simp
  qed
  then have "calls_of r new = []" by (auto simp: calls_of_def filter_empty_conv)
  with new(1) show ?thesis by simp
qed

lemma visit_calls:
  assumes "attended E i r s" and "distinct order" and "i \<in> set order"
  shows "\<exists>new. calls_of r (es_calls (executeEventSubTasks E order s)) = calls_of r (es_calls s) @ new \<and>
    (if isCompleted (get_task r s) \<or> t_work (get_task r s) then new = [] else \<exists>ns. new = [PNumber ns r])"
proof -
  note a = attendedD [OF assms(1)]
  obtain ns where ns: "env_service E (t_group (get_task r s)) = Some ns" using a(6) by auto
  obtain xs ys where o: "order = xs @ i # ys" using assms(3) by (auto simp: in_set_conv_decomp)
  let ?s1 = "executeEventSubTasks E xs s" and ?s2 = "executeEventSubTasks E (xs @ [i]) s"
  have wf: "es_wf ?s2" by (rule executeEventSubTasks_wf [OF a(1)])
  have 1: "calls_of r (es_calls ?s1) = calls_of r (es_calls s)"
    using assms(2) o by (intro visits_other [OF a(1) _ a(3)]) auto
  have 3: "calls_of r (es_calls (executeEventSubTasks E ys ?s2)) = calls_of r (es_calls ?s2)"
    using assms(2) o a(3) by (intro visits_other [OF wf]) auto
  have g: "get_task r ?s1 = get_task r s" by simp
  have 2: "?s2 = snd (executeEventSubTask E r ?s1)"
    using a(3) by (simp add: executeEventSubTasks_snoc Let_def)
  have "es_calls ?s2 = es_calls ?s1 @ (if isCompleted (get_task r s) \<or> t_work (get_task r s) then [] else [PNumber ns r])"
    unfolding 2 using a(5) ns
    by (simp add: executeEventSubTask_def Let_def g onTaskComplete_def unsubscribeEventSub_def)
  moreover have "executeEventSubTasks E order s = executeEventSubTasks E ys ?s2"
    using executeEventSubTasks_append [of E "xs @ [i]" ys s] by (simp add: o)
  ultimately show ?thesis using 1 3 by auto
qed

lemma drained_attended:
  assumes "attended E i r s"
  shows "attended E i r (executeAddTasks (executeCancelTasks s))"
proof -
  note a = attendedD [OF assms]
  have "set (es_cancelTasks (executeCancelTasks s)) \<subseteq> set (es_cancelTasks s)"
    by (simp add: executeCancelTasks_def)
  moreover have "es_running (executeAddTasks u) = es_running u" "es_running (executeCancelTasks u) = es_running u" for u :: "'a es"
    by (simp_all add: executeAddTasks_def add_task_fields executeCancelTasks_def cancel_task_fold)
  ultimately show ?thesis
    using a executeAddTasks_wf [OF executeCancelTasks_wf [OF a(1)]]
    by (auto simp: attended_def executeAddTasks_tasks executeCancelTasks_tasks)
qed

lemma visits_running:
  "es_running (executeEventSubTasks E order s) = es_running s"
proof (induction order rule: rev_induct)
  case (snoc i "is")
  have "es_running (snd (executeEventSubTask E r u)) = es_running u" for r and u :: "'a es"
    by (cases "env_service E (t_group (get_task r u))")
      (simp_all add: executeEventSubTask_def Let_def onTaskComplete_def unsubscribeEventSub_def)
  with snoc show ?case by (simp add: executeEventSubTasks_snoc Let_def split: option.split)
qed simp

lemma worker_pass:
  assumes att: "attended E i r s" and nw: "\<not> t_work (get_task r s)"
  obtains order t where "es_step s (Worker E order) t" and "get_task r t = get_task r s"
    and "\<not> isCompleted (get_task r s) \<Longrightarrow> attended E i r t \<and> (\<exists>ns. asked r t = add_mset (PNumber ns r) (asked r s))"
    and "\<exists>out. es_out t = es_out s @ out \<and> subseq (visit_out E s i) out"
proof -
  let ?u = "executeAddTasks (executeCancelTasks s)"
  note a = attendedD [OF att]
  have u: "attended E i r ?u" by (rule drained_attended [OF att])
  note au = attendedD [OF u]
  define order where "order = fset_list (fmdom (es_tasks ?u))"
  define t where "t = executeWorker E order s"
  have st: "es_step s (Worker E order) t"
    unfolding t_def order_def by (rule worker [OF a(2)]) simp_all
  have i: "i \<in> set order" "distinct order"
    using au(3) by (auto simp: order_def fmlookup_dom_iff)
  have t: "t = executeEventSubTasks E order ?u" by (simp add: t_def executeWorker_def)
  have g: "get_task r t = get_task r s" by (simp add: t)
  have busy: "attended E i r t \<and> (\<exists>ns. asked r t = add_mset (PNumber ns r) (asked r s))"
    if nc: "\<not> isCompleted (get_task r s)"
  proof
    have "i \<notin> set (visit_cancel E ?u j)" for j
    proof (cases "fmlookup (es_tasks ?u) j")
      case (Some r')
      with es_wf_table [OF au(1) Some] au(3,5,6) nc show ?thesis
        by (cases "j = i") (auto simp: visit_cancel_def Let_def)
    qed (simp add: visit_cancel_def)
    then have "i \<notin> set (es_cancelTasks t)"
      using au(4) by (simp add: t executeEventSubTasks_visits)
    then show "attended E i r t"
      using au es.inv_step [OF a(1) st] by (simp add: attended_def t visits_running)
    show "\<exists>ns. asked r t = add_mset (PNumber ns r) (asked r s)"
      using visit_calls [OF u i(2,1)] nc nw by (auto simp: t)
  qed
  have "visit_out E ?u i = visit_out E s i"
    using au(3) a(3) by (simp add: visit_out_def)
  then have "subseq (visit_out E s i) (concat (map (visit_out E ?u) order))"
    using i(1) by (auto simp: in_set_conv_decomp intro: list_emb_append2 list_emb_prefix)
  moreover have "es_out t = es_out s @ concat (map (visit_out E ?u) order)"
    by (simp add: t executeEventSubTasks_visits)
  ultimately show ?thesis
    using that [OF st g busy] by blast
qed


text \<open>
  With a ledger at height \<open>n\<close>, the last block a task may be given now, and when \<open>b\<close> is the next
  one it is given: its range may be bounded or not.
\<close>

definition last_block :: "task \<Rightarrow> int \<Rightarrow> int" where
  "last_block t n = (if 0 < m_toBlock (t_params t) \<and> m_toBlock (t_params t) < n then m_toBlock (t_params t) else n)"

definition ready :: "task \<Rightarrow> int \<Rightarrow> int \<Rightarrow> bool" where
  "ready t n b \<longleftrightarrow> b = first_block t n \<and> b \<le> last_block t n \<and> \<not> isCompleted t \<and> 0 \<le> n \<and> n < 2 ^ 63 - 1"

lemma ready_task:
  assumes "ready t n b" and "task_ok t" and "e = min (last_block t n) (b + 9)"
  shows "window_ok (t_params t) b e" and "t_cur t \<le> b" and "0 \<le> b" and "last_block t n \<le> n"
  using assms by (auto simp: ready_def first_block_def last_block_def task_ok_def window_ok_def isCompleted_def
      split: if_split_asm)

lemma ready_work [simp]: "ready (t\<lparr>t_work := w\<rparr>) = ready t" "last_block (t\<lparr>t_work := w\<rparr>) = last_block t"
  by (simp_all add: fun_eq_iff ready_def last_block_def first_block_def isCompleted_def)

text \<open>The answer to the request for the block number opens a window of at most ten blocks.\<close>

lemma window_opens:
  assumes att: "attended E i r s" and c: "asked r s = add_mset (PNumber ns r) R"
    and ready: "ready (get_task r s) n b" and e: "e = min (last_block (get_task r s) n) (b + 9)"
  obtains t k ns' ns'' where "es_step s (NumberReply E k ns' r None n) t" and "attended E i r t" and "es_out t = es_out s"
    and "get_task r t = (get_task r s)\<lparr>t_work := True\<rparr>" and "asked r t = add_mset (PBlock ns'' r b e) R"
proof -
  let ?last = "last_block (get_task r s) n"
  note a = attendedD [OF att]
  note b = ready_task [OF ready es_wf_task [OF a(1,7)] e]
  have n: "b = first_block (get_task r s) n" "b \<le> ?last" "0 \<le> n" "n < 2 ^ 63 - 1"
    using ready by (simp_all add: ready_def)
  obtain ns'' where ns: "env_service E (t_group (get_task r s)) = Some ns''" using a(6) by auto
  obtain k where k: "k < length (es_calls s)" "es_calls s ! k = PNumber ns r"
    "mset (calls_of r (remove_at k (es_calls s))) = R"
    by (rule asked_call [OF c])
  define t where "t = onBlockNumber E r None n (take_call k s)"
  have st: "es_step s (NumberReply E k ns r None n) t"
    unfolding t_def by (rule number_reply [OF k(1,2)]) (use n in simp_all)
  let ?can = "if 10 \<le> ?last - b then 10 else ?last - b + 1"
  have can: "i64 (i64 (?last - b) + 1) = ?last - b + 1" "i64 (i64 (b + ?can) - 1) = e"
    using b(3,4) n by (auto simp: i64_between e)
  have m: "es_maxBlockProcessPerLoop (take_call k s) = 10"
    using a(1) by (simp add: es_wf_def take_call_def)
  have f: "(if t_cur (get_task r s) < 0
      then if 0 < m_fromBlock (t_params (get_task r s)) then m_fromBlock (t_params (get_task r s)) else n
      else t_cur (get_task r s)) = b"
    by (simp add: n(1) first_block_def)
  have "\<not> n < b" using b(4) n(2) by simp
  then have "t = process E r b e (upd_task r (setWork True) (take_call k s))"
    by (simp add: t_def onBlockNumber_def executeEventSubTask_at_def f last_block_def [symmetric] can m Let_def
        cong: if_cong split del: if_split)
  also have "\<dots> = (upd_task r (setWork True) (take_call k s))\<lparr>es_calls := remove_at k (es_calls s) @ [PBlock ns'' r b e]\<rparr>"
    using n(2) a(7) ns by (simp add: process_def processNextBlock_def e)
  finally have t: "t = (upd_task r (setWork True) (take_call k s))\<lparr>es_calls := remove_at k (es_calls s) @ [PBlock ns'' r b e]\<rparr>" .
  have g: "get_task r t = (get_task r s)\<lparr>t_work := True\<rparr>"
    using a(7) by (simp add: t upd_task_def take_call_def get_task_def setWork_def)
  have "es_running t = es_running s" "es_tasks t = es_tasks s" "es_cancelTasks t = es_cancelTasks s" "es_out t = es_out s"
    by (simp_all add: t upd_task_def take_call_def)
  then have "attended E i r t" "es_out t = es_out s"
    using es.inv_step [OF a(1) st] by (auto intro: attended_cong [OF att] simp: g)
  with that st g show ?thesis by (simp add: t k(3))
qed

subsection \<open>Rounds\<close>

definition window_msgs :: "'ns es_env \<Rightarrow> task \<Rightarrow> (int \<Rightarrow> block) \<Rightarrow> int list \<Rightarrow> (session \<times> ws_message) list" where
  "window_msgs E t blk bs = concat (map (\<lambda>b. block_msgs E t (blk b)) bs)"

lemma window_msgs_append [simp]: "window_msgs E t blk (xs @ ys) = window_msgs E t blk xs @ window_msgs E t blk ys"
  by (simp add: window_msgs_def)

lemma window_msgs_task [simp]:
  "window_msgs E (t\<lparr>t_work := w\<rparr>) = window_msgs E t" "window_msgs E (t\<lparr>t_cur := c\<rparr>) = window_msgs E t"
proof -
  have "block_msgs E (t\<lparr>t_work := w\<rparr>) = block_msgs E t" "block_msgs E (t\<lparr>t_cur := c\<rparr>) = block_msgs E t"
    by (rule block_msgs_cong; simp)+
  then show "window_msgs E (t\<lparr>t_work := w\<rparr>) = window_msgs E t" "window_msgs E (t\<lparr>t_cur := c\<rparr>) = window_msgs E t"
    by (simp_all add: fun_eq_iff window_msgs_def)
qed

text \<open>What a task still has to be given, with a ledger at height \<open>n\<close>.\<close>

definition due :: "task \<Rightarrow> int \<Rightarrow> int \<Rightarrow> bool" where
  "due t n b \<longleftrightarrow> b = first_block t n \<and> b \<le> m_toBlock (t_params t) \<and>
     0 < m_toBlock (t_params t) \<and> m_toBlock (t_params t) \<le> n \<and> n < 2 ^ 63 - 1"

lemma due_task:
  assumes "due t n b" and "task_ok t" and "e = min (m_toBlock (t_params t)) (b + 9)"
  shows "window_ok (t_params t) b e" and "t_cur t \<le> b" and "\<not> isCompleted t"
  using assms by (auto simp: due_def first_block_def task_ok_def window_ok_def isCompleted_def)

lemma due_ready:
  assumes "due t n b" and "task_ok t"
  shows "ready t n b" and "last_block t n = m_toBlock (t_params t)"
  using assms due_task(3) [OF assms refl] by (auto simp: due_def ready_def last_block_def)

lemma round:
  assumes idle: "idle_task E i r s" and due: "due (get_task r s) n b"
    and e: "e = min (m_toBlock (t_params (get_task r s))) (b + 9)"
  shows "\<exists>es t. progress E r n blk s es t [b..e] (window_msgs E (get_task r s) blk [b..e]) \<and>
     length (filter is_pass es) = 1 \<and> idle_task E i r t \<and> get_task r t = (get_task r s)\<lparr>t_cur := e + 1\<rparr>"
proof -
  have att: "attended E i r s" using idle by (simp add: idle_task_def)
  note a = attendedD [OF att]
  note d = due_task [OF due es_wf_task [OF a(1,7)] e]
  have idle': "asked r s = {#}" "\<not> t_work (get_task r s)" using idle by (simp_all add: idle_task_def)
  obtain order s1 out where s1: "es_step s (Worker E order) s1" "get_task r s1 = get_task r s" "attended E i r s1"
      "es_out s1 = es_out s @ out" and c1: "\<exists>ns. asked r s1 = add_mset (PNumber ns r) (asked r s)"
    by (rule worker_pass [OF att idle'(2)]) (use d(3) in blast)
  from c1 obtain ns where c1: "asked r s1 = add_mset (PNumber ns r) {#}" unfolding idle'(1) by blast
  obtain s2 k ns' ns'' where s2: "es_step s1 (NumberReply E k ns' r None n) s2" "attended E i r s2" "es_out s2 = es_out s1"
      "get_task r s2 = (get_task r s1)\<lparr>t_work := True\<rparr>" "asked r s2 = add_mset (PBlock ns'' r b e) {#}"
    by (rule window_opens [OF s1(3) c1, of n b e]) (use e in \<open>simp_all add: s1(2) due_ready [OF due es_wf_task [OF a(1,7)]]\<close>)
  obtain es t where t: "progress E r n blk s2 es t [b..e] (concat (map (\<lambda>b. block_msgs E (get_task r s2) (blk b)) [b..e]))"
      "filter is_pass es = []" "attended E i r t" "asked r t = {#}"
      "get_task r t = (get_task r s2)\<lparr>t_work := False, t_cur := max (t_cur (get_task r s2)) (e + 1)\<rparr>"
    using window_walk [OF s2(2,5), of n blk] d(1) by (auto simp: s1(2) s2(4))
  have "max (t_cur (get_task r s)) (e + 1) = e + 1" using d(1,2) by (auto simp: window_ok_def)
  then have t5: "get_task r t = (get_task r s)\<lparr>t_cur := e + 1\<rparr>"
    using idle'(2) by (simp add: t(5) s2(4) s1(2))
  then have idle_t: "idle_task E i r t"
    using t(3,4) idle'(2) by (simp add: idle_task_def)
  have p1: "progress E r n blk s [Worker E order] s1 [] []"
    using progress_step [OF s1(1) _ s1(4), of E r n blk "[]"] by simp
  have p2: "progress E r n blk s1 [NumberReply E k ns' r None n] s2 [] []"
    using progress_step [OF s2(1), of E r n blk "[]" "[]"] by (simp add: s2(3))
  note p = progress_append [OF progress_append [OF p1 p2] t(1)]
  with t(2) t5 idle_t show ?thesis
    by (intro exI [of _ "([Worker E order] @ [NumberReply E k ns' r None n]) @ es"] exI [of _ t])
      (simp add: window_msgs_def [symmetric] s2(4) s1(2))
qed

lemma rounds:
  assumes "idle_task E i r s" and "due (get_task r s) n b" and "t0 = get_task r s" and "to = m_toBlock (t_params t0)"
  shows "\<exists>es t. progress E r n blk s es t [b..to] (window_msgs E t0 blk [b..to]) \<and>
     length (filter is_pass es) = nat ((to - b) div 10) + 1 \<and> idle_task E i r t \<and>
     get_task r t = t0\<lparr>t_cur := to + 1\<rparr>"
  using assms
proof (induction "nat ((to - b) div 10)" arbitrary: b s t0)
  case 0
  have le: "b \<le> to" using 0(3,4,5) by (simp add: due_def)
  have "(to - b) div 10 \<le> 0" using 0(1) by linarith
  with le have "to \<le> b + 9" by presburger
  then have "to = min to (b + 9)" by simp
  from round [OF 0(2,3) this [unfolded 0(4,5)], of blk] 0(1,4,5) show ?case by auto
next
  case (Suc m)
  have le: "b \<le> to" using Suc(4,5,6) by (simp add: due_def)
  have "(to - b) div 10 = int m + 1" using Suc(2) by linarith
  then have "b + 10 \<le> to" "(to - (b + 10)) div 10 = int m" by presburger+
  then have far: "b + 10 \<le> to" "nat ((to - (b + 10)) div 10) = m" by simp_all
  then have e: "b + 9 = min (m_toBlock (t_params (get_task r s))) (b + 9)"
    using Suc(5,6) by simp
  obtain es t where t: "progress E r n blk s es t [b..b + 9] (window_msgs E (get_task r s) blk [b..b + 9])"
      "length (filter is_pass es) = 1" "idle_task E i r t" "get_task r t = (get_task r s)\<lparr>t_cur := b + 10\<rparr>"
    using round [OF Suc(3,4) e, of blk] by auto
  have att: "attended E i r s" using Suc(3) by (simp add: idle_task_def)
  have b0: "0 \<le> b" using due_task(1) [OF Suc(4) es_wf_task [OF attendedD(1,7) [OF att]] refl] by (simp add: window_ok_def)
  have due': "due (get_task r t) n (b + 10)"
    using Suc(4,5,6) far(1) b0 by (simp add: due_def first_block_def t(4))
  have to': "to = m_toBlock (t_params (get_task r t))" using Suc(5,6) by (simp add: t(4))
  obtain es' t' where t': "progress E r n blk t es' t' [b + 10..to] (window_msgs E (get_task r t) blk [b + 10..to])"
      "length (filter is_pass es') = m + 1" "idle_task E i r t'" "get_task r t' = (get_task r t)\<lparr>t_cur := to + 1\<rparr>"
    using Suc(1) [OF far(2) [symmetric] t(3) due' refl to'] far(2) by auto
  have split: "[b..to] = [b..b + 9] @ [b + 10..to]"
    using upto_split1 [of b "b + 10" to] far(1) by (simp add: add.commute)
  from progress_append [OF t(1) t'(1)] t(2) t'(2-4) Suc(2,5) show ?case
    by (intro exI [of _ "es @ es'"] exI [of _ t']) (simp add: split t(4))
qed


subsection \<open>Property\<close>

text \<open>
  C18: a subscription whose range the chain has reached can be brought to its end. Take any
  state of the service in which the task is idle, its client connected and its group served,
  and a ledger that answers, at a height not below \<open>toBlock\<close>: passes of the worker and
  answers to the requests of this task alone lead to the completion message. On the way the
  task is given the blocks from its next one up to \<open>toBlock\<close>, each once and in order, its client
  is sent their events and then the completion, and the worker passes once for every ten
  blocks begun and once more.
\<close>

theorem event_completion:
  assumes run: "run es_step new_es es0 s" and idle: "idle_task E i r s" and due: "due (get_task r s) n b"
    and t0: "t0 = get_task r s" and to: "to = m_toBlock (t_params t0)"
  shows "\<exists>es t out. run es_step new_es (es0 @ es) t \<and> (\<forall>ev \<in> set es. ledger_event E r n blk ev) \<and>
     blocks_seen r es = [b..to] \<and> length (filter is_pass es) = nat ((to - b) div 10) + 2 \<and>
     es_out t = es_out s @ out \<and>
     subseq (window_msgs E t0 blk [b..to] @
       [(t_session t0, (push_message E)\<lparr>wm_data := jwrite (env_json E) (JObject (jassign
          [(''id'', JString (t_id t0)), (''status'', JInt (ep_code PUSH_COMPLETED))] fmempty))\<rparr>)]) out"
proof -
  obtain es u where u: "progress E r n blk s es u [b..to] (window_msgs E t0 blk [b..to])"
      "length (filter is_pass es) = nat ((to - b) div 10) + 1" "idle_task E i r u" "get_task r u = t0\<lparr>t_cur := to + 1\<rparr>"
    using rounds [OF idle due t0 to, of blk] by blast
  obtain order t where st: "es_step u (Worker E order) t" and out: "\<exists>out. es_out t = es_out u @ out \<and> subseq (visit_out E u i) out"
    by (rule worker_pass [of E i r u]) (use u(3) in \<open>simp_all add: idle_task_def\<close>)
  have "0 < to" using due by (simp add: due_def t0 to)
  then have fin: "isCompleted (get_task r u)" by (simp add: u(4) isCompleted_def to)
  have a: "fmlookup (es_tasks u) i = Some r" "env_connected E (t_session t0)"
    using attendedD(3,5) [of E i r u] u(3,4) by (simp_all add: idle_task_def)
  then have v: "visit_out E u i = [(t_session t0, (push_message E)\<lparr>wm_data := jwrite (env_json E) (JObject (jassign
          [(''id'', JString (t_id t0)), (''status'', JInt (ep_code PUSH_COMPLETED))] fmempty))\<rparr>)]"
    using fin by (simp add: visit_out_def u(4) response_msgs_def response_to_json_def)
  obtain out where "es_out t = es_out u @ out" "subseq (visit_out E u i) out" using out by blast
  then have "progress E r n blk u [Worker E order] t [] (visit_out E u i)"
    using progress_step [OF st, of E r n blk out "visit_out E u i"] by simp
  note p = progress_append [OF u(1) this]
  then have "run es_step new_es (es0 @ (es @ [Worker E order])) t"
    by (auto simp: progress_def intro: run_append [OF run])
  with p u(2) show ?thesis
    unfolding progress_def v by (intro exI [of _ "es @ [Worker E order]"] exI [of _ t]) auto
qed

text \<open>The small scenario with block 5 delivered and block 6 to come.\<close>

abbreviation demo_to_5 :: "unit es_event list" where
  "demo_to_5 \<equiv> (demo_after @ [NumberReply demo_env 0 () 0 None 5]) @ [BlockReply demo_env 0 () 0 5 5 None demo_block]"

abbreviation demo_at_6 :: "unit es" where
  "demo_at_6 \<equiv> demo_es False 6 [] [demo_ack, demo_push]"

lemma demo_at_6_idle:
  "run es_step new_es demo_to_5 demo_at_6" "idle_task demo_env ''sub'' 0 demo_at_6"
  "due (get_task 0 demo_at_6) 6 6" "6 = m_toBlock (t_params (get_task 0 demo_at_6))"
proof -
  show run: "run es_step new_es demo_to_5 demo_at_6"
    by (rule seq_run_is_run [OF demo_run_delivered])
  have g: "get_task 0 demo_at_6 = demo_task False 6" by (simp add: demo_es_def get_task_def)
  show "idle_task demo_env ''sub'' 0 demo_at_6"
    using es.run_inv [OF run] by (simp add: idle_task_def attended_def g) (simp add: demo_es_def demo_task_def)
  show "due (get_task 0 demo_at_6) 6 6"
    by (simp add: g due_def first_block_def demo_task_def demo_params_def)
  show "6 = m_toBlock (t_params (get_task 0 demo_at_6))"
    by (simp add: g demo_task_def demo_params_def)
qed

lemma event_completion_witness:
  "\<exists>es t. run es_step new_es (demo_to_5 @ es) t \<and> blocks_seen 0 es = [6] \<and> length (filter is_pass es) = 2"
proof -
  obtain es t where "run es_step new_es (demo_to_5 @ es) t" "blocks_seen 0 es = [6..6]"
      "length (filter is_pass es) = nat ((6 - 6) div 10) + 2"
    using event_completion [OF demo_at_6_idle(1-3) refl demo_at_6_idle(4), of "\<lambda>_. demo_block"] by blast
  then show ?thesis by (intro exI [of _ es] exI [of _ t]) simp
qed

subsection \<open>Two walks at once\<close>

lemma pass_progress:
  assumes "attended E i r s" and "\<not> t_work (get_task r s)" and "\<not> isCompleted (get_task r s)"
  obtains t ns order where "progress E r n blk s [Worker E order] t [] []" and "attended E i r t"
    and "get_task r t = get_task r s" and "asked r t = add_mset (PNumber ns r) (asked r s)"
proof -
  obtain order t out where st: "es_step s (Worker E order) t" "get_task r t = get_task r s"
      "es_out t = es_out s @ out" and b: "attended E i r t \<and> (\<exists>ns. asked r t = add_mset (PNumber ns r) (asked r s))"
    by (rule worker_pass [OF assms(1,2)]) (use assms(3) in blast)
  have "progress E r n blk s [Worker E order] t [] []"
    using progress_step [OF st(1) _ st(3), of E r n blk "[]"] by simp
  with b st(2) that show ?thesis by blast
qed

lemma number_progress:
  assumes "attended E i r s" and "asked r s = add_mset (PNumber ns r) R" and "ready (get_task r s) n b"
    and "e = min (last_block (get_task r s) n) (b + 9)"
  obtains t k ns' ns'' where "progress E r n blk s [NumberReply E k ns' r None n] t [] []" and "attended E i r t"
    and "get_task r t = (get_task r s)\<lparr>t_work := True\<rparr>" and "asked r t = add_mset (PBlock ns'' r b e) R"
proof -
  obtain t k ns' ns'' where t: "es_step s (NumberReply E k ns' r None n) t" "attended E i r t" "es_out t = es_out s"
      "get_task r t = (get_task r s)\<lparr>t_work := True\<rparr>" "asked r t = add_mset (PBlock ns'' r b e) R"
    by (rule window_opens [OF assms])
  have "progress E r n blk s [NumberReply E k ns' r None n] t [] []"
    using progress_step [OF t(1), of E r n blk "[]" "[]"] by (simp add: t(3))
  with t that show ?thesis by blast
qed

text \<open>
  C38: without the sequential condition a task is given blocks more than once. The worker tests
  \<^theory_text>\<open>work()\<close> before it asks for the block number, but nothing tests it when the answer arrives.
  So whenever a task is idle and not completed, its client connected, its group served, and the
  ledger's height \<open>n\<close> has reached its next block \<open>b\<close> - be its range bounded or, as by default, not -
  two passes of the worker before the ledger's first answer give it its next window of blocks
  twice, and its client is sent the events of the whole window twice; then the task is idle
  again as if nothing had happened.
\<close>

theorem overlapping_walks:
  assumes run: "run es_step new_es es0 s" and idle: "idle_task E i r s"
    and b: "b = first_block (get_task r s) n" "b \<le> last_block (get_task r s) n" and open_task: "\<not> isCompleted (get_task r s)"
    and n: "0 \<le> n" "n < 2 ^ 63 - 1"
    and t0: "t0 = get_task r s" and e: "e = min (last_block t0 n) (b + 9)"
  shows "\<exists>es t out. run es_step new_es (es0 @ es) t \<and> (\<forall>ev \<in> set es. ledger_event E r n blk ev) \<and>
     length (filter is_pass es) = 2 \<and> blocks_seen r es = [b..e] @ [b..e] \<and>
     es_out t = es_out s @ out \<and>
     subseq (window_msgs E t0 blk [b..e] @ window_msgs E t0 blk [b..e]) out \<and>
     idle_task E i r t \<and> get_task r t = t0\<lparr>t_cur := e + 1\<rparr>"
proof -
  have att: "attended E i r s" and none: "asked r s = {#}" and nw: "\<not> t_work t0"
    using idle by (simp_all add: idle_task_def t0)
  note e' = e [unfolded t0] and a = attendedD [OF att]
  have ready: "ready (get_task r s) n b" using b open_task n by (simp add: ready_def)
  note d = ready_task [OF ready es_wf_task [OF a(1,7)] e']
  obtain s1 ns1 o1 where s1: "progress E r n blk s [Worker E o1] s1 [] []" "attended E i r s1"
      "get_task r s1 = t0" "asked r s1 = {#PNumber ns1 r#}"
    by (rule pass_progress [OF att _ open_task, of n blk]) (use nw none in \<open>simp_all add: t0\<close>)
  obtain s2 ns2 o2 where s2: "progress E r n blk s1 [Worker E o2] s2 [] []" "attended E i r s2"
      "get_task r s2 = t0" "asked r s2 = {#PNumber ns2 r, PNumber ns1 r#}"
    by (rule pass_progress [OF s1(2), of n blk]) (use nw open_task s1 in \<open>simp_all add: t0\<close>)
  obtain s3 k3 m3 n3 where s3: "progress E r n blk s2 [NumberReply E k3 m3 r None n] s3 [] []" "attended E i r s3"
      "get_task r s3 = t0\<lparr>t_work := True\<rparr>" "asked r s3 = {#PBlock n3 r b e, PNumber ns1 r#}"
    by (rule number_progress [OF s2(2,4), of n b e blk]) (use ready e s2(3) in \<open>simp_all add: t0\<close>)
  have c3: "asked r s3 = add_mset (PNumber ns1 r) {#PBlock n3 r b e#}"
    by (simp add: s3(4) add_mset_commute)
  have "ready (get_task r s3) n b" using ready by (simp add: s3(3) t0)
  then obtain s4 k4 m4 n4 where s4: "progress E r n blk s3 [NumberReply E k4 m4 r None n] s4 [] []" "attended E i r s4"
      "get_task r s4 = t0\<lparr>t_work := True\<rparr>" "asked r s4 = {#PBlock n4 r b e, PBlock n3 r b e#}"
    by (rule number_progress [OF s3(2) c3, of n b e blk]) (use e s3(3) in simp_all)
  have w4: "window_ok (t_params (get_task r s4)) b e" using d(1) by (simp add: s4(3) t0)
  obtain es5 s5 where s5: "progress E r n blk s4 es5 s5 [b..e] (window_msgs E (get_task r s4) blk [b..e])"
      "filter is_pass es5 = []" "attended E i r s5" "asked r s5 = {#PBlock n3 r b e#}"
      "get_task r s5 = (get_task r s4)\<lparr>t_work := False, t_cur := max (t_cur (get_task r s4)) (e + 1)\<rparr>"
    using window_walk [OF s4(2,4) w4, of n blk] unfolding window_msgs_def by blast
  have w5: "window_ok (t_params (get_task r s5)) b e" using d(1) by (simp add: s5(5) s4(3) t0)
  obtain es6 s6 where s6: "progress E r n blk s5 es6 s6 [b..e] (window_msgs E (get_task r s5) blk [b..e])"
      "filter is_pass es6 = []" "attended E i r s6" "asked r s6 = {#}"
      "get_task r s6 = (get_task r s5)\<lparr>t_work := False, t_cur := max (t_cur (get_task r s5)) (e + 1)\<rparr>"
    using window_walk [OF s5(3,4) w5, of n blk] unfolding window_msgs_def by blast
  have "max (t_cur t0) (e + 1) = e + 1" using d(1,2) by (auto simp: window_ok_def t0)
  then have g6: "get_task r s6 = t0\<lparr>t_cur := e + 1\<rparr>"
    using nw by (simp add: s6(5) s5(5) s4(3))
  with s6(3,4) nw have idle6: "idle_task E i r s6" by (simp add: idle_task_def)
  note p = progress_append [OF progress_append [OF progress_append [OF s1(1) s2(1)]
      progress_append [OF s3(1) s4(1)]] progress_append [OF s5(1) s6(1)]]
  let ?es = "(([Worker E o1] @ [Worker E o2]) @ [NumberReply E k3 m3 r None n] @ [NumberReply E k4 m4 r None n]) @ es5 @ es6"
  have "run es_step new_es (es0 @ ?es) s6"
    using p by (auto simp: progress_def intro: run_append [OF run])
  with p g6 idle6 s5(2) s6(2) show ?thesis
    unfolding progress_def by (intro exI [of _ ?es] exI [of _ s6]) (auto simp: s5(5) s4(3))
qed

lemma overlapping_walks_witness:
  "\<exists>es t. run es_step new_es (demo_to_5 @ es) t \<and> blocks_seen 0 es = [6, 6] \<and> length (filter is_pass es) = 2"
proof -
  have "task_ok (get_task 0 demo_at_6)"
    using es_wf_task [OF es.run_inv [OF demo_at_6_idle(1)]] by (simp add: demo_es_def)
  note d = due_ready [OF demo_at_6_idle(3) this]
  then have c: "6 = first_block (get_task 0 demo_at_6) 6" "6 \<le> last_block (get_task 0 demo_at_6) 6"
      "\<not> isCompleted (get_task 0 demo_at_6)" and e: "6 = min (last_block (get_task 0 demo_at_6) 6) (6 + 9)"
    using demo_at_6_idle(4) by (simp_all add: ready_def)
  obtain es t where "run es_step new_es (demo_to_5 @ es) t" "blocks_seen 0 es = [6..6] @ [6..6]"
      "length (filter is_pass es) = 2"
    using overlapping_walks [OF demo_at_6_idle(1,2) c _ _ refl e, of "\<lambda>_. demo_block"] by auto
  then show ?thesis by (intro exI [of _ es] exI [of _ t]) simp
qed

end
