(* ===== verification/GroupData.thy ===== *)
theory GroupData
  imports JsonLib
begin

text \<open>
  The group and node descriptions of bcos-framework as the records of what their accessors
  return (\<^theory_text>\<open>ChainNodeInfo\<close>, \<^theory_text>\<open>GroupInfo\<close>), and the two mutators, the size and the lookup of
  \<^theory_text>\<open>GroupInfo\<close> as the parameter \<open>group_api\<close>. \<open>group_api_ok\<close> is what the program relies on:
  appending adds the node under its name and touches no other node, removing takes away that
  name only, and neither changes the group's id. Nothing is said of which of the two
  descriptions stays when a node is appended twice. \<^theory_text>\<open>nodeInfos()\<close> is read as a copy, so a
  loop over it is not disturbed by a removal.
\<close>

record nodeInfo =
  ni_nodeName :: string
  ni_nodeID :: string
  ni_nodeType :: int
  ni_microService :: bool
  ni_iniConfig :: string
  ni_serviceInfo :: "(int \<times> string) list"     \<comment> \<open>service type and name, in the container's order\<close>

record groupInfo =
  gi_chainID :: string
  gi_groupID :: string
  gi_genesisConfig :: string
  gi_iniConfig :: string
  gi_nodeInfos :: "(string, nodeInfo) fmap"

record group_api =
  api_append :: "nodeInfo \<Rightarrow> groupInfo \<Rightarrow> groupInfo"     \<comment> \<open>\<^theory_text>\<open>appendNodeInfo\<close>\<close>
  api_remove :: "nodeInfo \<Rightarrow> groupInfo \<Rightarrow> groupInfo"     \<comment> \<open>\<^theory_text>\<open>removeNodeInfo\<close>\<close>
  api_nodesNum :: "groupInfo \<Rightarrow> nat"                  \<comment> \<open>\<^theory_text>\<open>nodesNum\<close>\<close>
  api_nodeInfo :: "string \<Rightarrow> groupInfo \<Rightarrow> nodeInfo option" \<comment> \<open>\<^theory_text>\<open>nodeInfo\<close>\<close>

definition group_api_ok :: "group_api \<Rightarrow> bool" where
  "group_api_ok A \<longleftrightarrow>
     (\<forall>ni gi. gi_groupID (api_append A ni gi) = gi_groupID gi) \<and>
     (\<forall>ni gi n. n \<noteq> ni_nodeName ni \<longrightarrow>
        fmlookup (gi_nodeInfos (api_append A ni gi)) n = fmlookup (gi_nodeInfos gi) n) \<and>
     (\<forall>ni gi. fmlookup (gi_nodeInfos (api_append A ni gi)) (ni_nodeName ni)
                \<in> {Some ni, fmlookup (gi_nodeInfos gi) (ni_nodeName ni)} - {None}) \<and>
     (\<forall>ni gi. gi_groupID (api_remove A ni gi) = gi_groupID gi) \<and>
     (\<forall>ni gi. gi_nodeInfos (api_remove A ni gi) = fmdrop (ni_nodeName ni) (gi_nodeInfos gi)) \<and>
     (\<forall>gi. api_nodesNum A gi = fcard (fmdom (gi_nodeInfos gi))) \<and>
     (\<forall>n gi. api_nodeInfo A n gi = fmlookup (gi_nodeInfos gi) n)"

lemma group_api_okD:
  assumes "group_api_ok A"
  shows api_append_group: "gi_groupID (api_append A ni gi) = gi_groupID gi"
    and api_append_other: "n \<noteq> ni_nodeName ni \<Longrightarrow>
          fmlookup (gi_nodeInfos (api_append A ni gi)) n = fmlookup (gi_nodeInfos gi) n"
    and api_append_self: "fmlookup (gi_nodeInfos (api_append A ni gi)) (ni_nodeName ni) = Some ni \<or>
          fmlookup (gi_nodeInfos (api_append A ni gi)) (ni_nodeName ni)
            = fmlookup (gi_nodeInfos gi) (ni_nodeName ni) \<and>
          fmlookup (gi_nodeInfos gi) (ni_nodeName ni) \<noteq> None"
    and api_remove_group: "gi_groupID (api_remove A ni gi) = gi_groupID gi"
    and api_remove_nodes: "gi_nodeInfos (api_remove A ni gi) = fmdrop (ni_nodeName ni) (gi_nodeInfos gi)"
    and api_nodesNum_eq: "api_nodesNum A gi = fcard (fmdom (gi_nodeInfos gi))"
    and api_nodeInfo_eq: "api_nodeInfo A n' gi = fmlookup (gi_nodeInfos gi) n'"
proof -
  note ok = assms [unfolded group_api_ok_def]
  show "gi_groupID (api_append A ni gi) = gi_groupID gi"
    using ok by (elim conjE) simp
  show "n \<noteq> ni_nodeName ni \<Longrightarrow>
          fmlookup (gi_nodeInfos (api_append A ni gi)) n = fmlookup (gi_nodeInfos gi) n"
    using ok by (elim conjE) simp
  have "fmlookup (gi_nodeInfos (api_append A ni gi)) (ni_nodeName ni)
          \<in> {Some ni, fmlookup (gi_nodeInfos gi) (ni_nodeName ni)} - {None}"
    using ok by (elim conjE) (erule allE, erule allE, assumption)
  then show "fmlookup (gi_nodeInfos (api_append A ni gi)) (ni_nodeName ni) = Some ni \<or>
          fmlookup (gi_nodeInfos (api_append A ni gi)) (ni_nodeName ni)
            = fmlookup (gi_nodeInfos gi) (ni_nodeName ni) \<and>
          fmlookup (gi_nodeInfos gi) (ni_nodeName ni) \<noteq> None"
    by auto
  show "gi_groupID (api_remove A ni gi) = gi_groupID gi"
    using ok by (elim conjE) simp
  show "gi_nodeInfos (api_remove A ni gi) = fmdrop (ni_nodeName ni) (gi_nodeInfos gi)"
    using ok by (elim conjE) simp
  show "api_nodesNum A gi = fcard (fmdom (gi_nodeInfos gi))"
    using ok by (elim conjE) simp
  show "api_nodeInfo A n' gi = fmlookup (gi_nodeInfos gi) n'"
    using ok by (elim conjE) simp
qed

lemmas group_api = api_append_group api_append_other api_remove_group api_remove_nodes
  api_nodesNum_eq api_nodeInfo_eq

text \<open>A description is well formed when its nodes are filed under their names.\<close>

definition group_wf :: "groupInfo \<Rightarrow> bool" where
  "group_wf gi \<longleftrightarrow> fmpred (\<lambda>n ni. ni_nodeName ni = n) (gi_nodeInfos gi)"

lemma group_wfD: "group_wf gi \<Longrightarrow> fmlookup (gi_nodeInfos gi) n = Some ni \<Longrightarrow> ni_nodeName ni = n"
  by (auto simp: group_wf_def)

lemma group_wf_append:
  assumes "group_api_ok A" and "group_wf gi" shows "group_wf (api_append A ni gi)"
  unfolding group_wf_def
proof
  fix n ni' assume l: "fmlookup (gi_nodeInfos (api_append A ni gi)) n = Some ni'"
  show "ni_nodeName ni' = n"
  proof (cases "n = ni_nodeName ni")
    case True
    with l api_append_self [OF assms(1), of ni gi] show ?thesis
      using group_wfD [OF assms(2)] by auto
  next
    case False
    with l show ?thesis
      using group_wfD [OF assms(2)] by (simp add: api_append_other [OF assms(1)])
  qed
qed

lemma group_wf_remove:
  assumes "group_api_ok A" and "group_wf gi" shows "group_wf (api_remove A ni gi)"
  using assms by (simp add: group_wf_def api_remove_nodes fmpred_drop)

lemma fmdom_append:
  assumes "group_api_ok A"
  shows "fmdom (gi_nodeInfos (api_append A ni gi)) = finsert (ni_nodeName ni) (fmdom (gi_nodeInfos gi))"
proof (rule fset_eqI)
  fix n
  show "n |\<in>| fmdom (gi_nodeInfos (api_append A ni gi)) \<longleftrightarrow>
        n |\<in>| finsert (ni_nodeName ni) (fmdom (gi_nodeInfos gi))"
    using api_append_self [OF assms, of ni gi] api_append_other [OF assms, of n ni gi]
    by (cases "n = ni_nodeName ni") (auto simp: fmlookup_dom_iff)
qed

subsection \<open>An instance\<close>

definition ref_group_api :: group_api where
  "ref_group_api =
     \<lparr>api_append = (\<lambda>ni gi. gi\<lparr>gi_nodeInfos := fmupd (ni_nodeName ni) ni (gi_nodeInfos gi)\<rparr>),
      api_remove = (\<lambda>ni gi. gi\<lparr>gi_nodeInfos := fmdrop (ni_nodeName ni) (gi_nodeInfos gi)\<rparr>),
      api_nodesNum = (\<lambda>gi. fcard (fmdom (gi_nodeInfos gi))),
      api_nodeInfo = (\<lambda>n gi. fmlookup (gi_nodeInfos gi) n)\<rparr>"

lemma ref_group_api_ok [simp]: "group_api_ok ref_group_api"
  by (simp add: group_api_ok_def ref_group_api_def)

end
