(* ===== verification/GroupManager.thy ===== *)
theory GroupManager
  imports GroupData
begin

text \<open>
  \<^theory_text>\<open>jsonrpc/groupmgr/GroupManager.{h,cpp}\<close> and \<^theory_text>\<open>LocalGroupManager.h\<close>.

  The state is the record of the member maps; node services are values of a type \<open>'ns\<close>.
  The calls that leave the component are arguments: \<open>build\<close> is
  \<^theory_text>\<open>NodeServiceFactory::buildNodeService\<close> (\<open>None\<close> is a null pointer), \<open>unreach\<close> is
  \<^theory_text>\<open>NodeService::unreachable\<close> and \<open>rnd\<close> the value of \<^theory_text>\<open>rand()\<close>. The notifier registered
  by the RPC front end is called for its effect, so the state keeps the list of group
  descriptions it was called with; an unset notifier throws where the code does not test it.
  The shared mutex of each map makes every operation below atomic, and the tick is the
  sequence of three such operations.
\<close>

record 'ns gm =
  gm_chainID :: string
  gm_groupInfos :: "(string, groupInfo) fmap"
  gm_nodeServiceList :: "(string, (string, 'ns) fmap) fmap"
  gm_nodesWithLatest :: "(string, string fset) fmap"
  gm_groupBlockInfos :: "(string, int) fmap"
  gm_startTime :: "64 word"
  gm_hasNotifier :: bool
  gm_notified :: "groupInfo list"

definition new_gm :: "string \<Rightarrow> 64 word \<Rightarrow> 'ns gm" where
  "new_gm chain now =
     \<lparr>gm_chainID = chain, gm_groupInfos = fmempty, gm_nodeServiceList = fmempty,
      gm_nodesWithLatest = fmempty, gm_groupBlockInfos = fmempty, gm_startTime = now,
      gm_hasNotifier = False, gm_notified = []\<rparr>"

definition registerGroupInfoNotifier :: "'ns gm \<Rightarrow> 'ns gm" where
  "registerGroupInfoNotifier s = s\<lparr>gm_hasNotifier := True\<rparr>"

definition notify :: "groupInfo \<Rightarrow> 'ns gm \<Rightarrow> exn option \<times> 'ns gm" where
  "notify gi s =
     (if gm_hasNotifier s then (None, s\<lparr>gm_notified := gm_notified s @ [gi]\<rparr>)
      else (Some (StdException ''bad_function_call''), s))"

subsection \<open>Group announcements\<close>

definition hasService :: "string \<Rightarrow> string \<Rightarrow> 'ns gm \<Rightarrow> bool" where
  "hasService g n s \<longleftrightarrow>
     (case fmlookup (gm_nodeServiceList s) g of None \<Rightarrow> False | Some m \<Rightarrow> n |\<in>| fmdom m)"

definition addService :: "string \<Rightarrow> string \<Rightarrow> 'ns \<Rightarrow> 'ns gm \<Rightarrow> 'ns gm" where
  "addService g n ns s =
     s\<lparr>gm_nodeServiceList :=
        fmupd g (fmupd n ns (case fmlookup (gm_nodeServiceList s) g of None \<Rightarrow> fmempty | Some m \<Rightarrow> m))
          (gm_nodeServiceList s)\<rparr>"

text \<open>The group is known whenever this runs, so the lookup of its description succeeds.\<close>

definition updateNodeServiceWithoutLock ::
  "group_api \<Rightarrow> (string \<Rightarrow> string \<Rightarrow> nodeInfo \<Rightarrow> 'ns option) \<Rightarrow> string \<Rightarrow> nodeInfo \<Rightarrow> 'ns gm
     \<Rightarrow> exn option \<times> 'ns gm" where
  "updateNodeServiceWithoutLock A build g ni s =
     (if hasService g (ni_nodeName ni) s then (None, s)
      else case build (gm_chainID s) g ni of
             None \<Rightarrow> (None, s)
           | Some ns \<Rightarrow>
               let s1 = addService g (ni_nodeName ni) ns s
               in case fmlookup (gm_groupInfos s1) g of
                    None \<Rightarrow> (Some (StdException ''null group info''), s1)
                  | Some gi \<Rightarrow>
                      let gi' = api_append A ni gi
                      in notify gi' (s1\<lparr>gm_groupInfos := fmupd g gi' (gm_groupInfos s1)\<rparr>))"

fun update_nodes ::
  "group_api \<Rightarrow> (string \<Rightarrow> string \<Rightarrow> nodeInfo \<Rightarrow> 'ns option) \<Rightarrow> string \<Rightarrow> nodeInfo list \<Rightarrow> 'ns gm
     \<Rightarrow> exn option \<times> 'ns gm" where
  "update_nodes A build g [] s = (None, s)"
| "update_nodes A build g (ni # nis) s =
     (case updateNodeServiceWithoutLock A build g ni s of
        (None, s') \<Rightarrow> update_nodes A build g nis s'
      | (Some e, s') \<Rightarrow> (Some e, s'))"

definition updateGroupInfo ::
  "group_api \<Rightarrow> (string \<Rightarrow> string \<Rightarrow> nodeInfo \<Rightarrow> 'ns option) \<Rightarrow> groupInfo \<Rightarrow> 'ns gm
     \<Rightarrow> exn option \<times> 'ns gm" where
  "updateGroupInfo A build gi s =
     (if gi_groupID gi |\<notin>| fmdom (gm_groupInfos s)
      then notify gi (s\<lparr>gm_groupInfos := fmupd (gi_groupID gi) gi (gm_groupInfos s)\<rparr>)
      else update_nodes A build (gi_groupID gi) (map snd (fmap_list (gi_nodeInfos gi))) s)"

subsection \<open>Block numbers\<close>

definition updateGroupBlockInfo :: "string \<Rightarrow> string \<Rightarrow> int \<Rightarrow> 'ns gm \<Rightarrow> 'ns gm" where
  "updateGroupBlockInfo g n b s =
     (let known = fmlookup (gm_groupBlockInfos s) g;
          latest = fmlookup (gm_nodesWithLatest s) g
      in if (case known of None \<Rightarrow> False
             | Some old \<Rightarrow> old > b \<or>
                 old = b \<and> (case latest of None \<Rightarrow> False | Some A \<Rightarrow> n |\<in>| A))
         then s
         else let old = (case known of None \<Rightarrow> 0 | Some old \<Rightarrow> old);
                  A = (case latest of None \<Rightarrow> {||} | Some A \<Rightarrow> A)
              in if old < b
                 then s\<lparr>gm_groupBlockInfos := fmupd g b (gm_groupBlockInfos s),
                        gm_nodesWithLatest := fmupd g {|n|} (gm_nodesWithLatest s)\<rparr>
                 else s\<lparr>gm_nodesWithLatest := fmupd g (finsert n A) (gm_nodesWithLatest s)\<rparr>)"

definition getBlockNumberByGroup :: "string \<Rightarrow> 'ns gm \<Rightarrow> int" where
  "getBlockNumberByGroup g s =
     (case fmlookup (gm_groupBlockInfos s) g of None \<Rightarrow> -1 | Some b \<Rightarrow> b)"

subsection \<open>Choosing a node\<close>

definition selectNodeByBlockNumber :: "nat \<Rightarrow> string \<Rightarrow> 'ns gm \<Rightarrow> string" where
  "selectNodeByBlockNumber rnd g s =
     (case fmlookup (gm_nodesWithLatest s) g of
        None \<Rightarrow> ''''
      | Some A \<Rightarrow> if fcard A = 0 then '''' else fset_list A ! (rnd mod fcard A))"

definition queryNodeService :: "string \<Rightarrow> string \<Rightarrow> 'ns gm \<Rightarrow> 'ns option" where
  "queryNodeService g n s =
     (case fmlookup (gm_nodeServiceList s) g of None \<Rightarrow> None | Some m \<Rightarrow> fmlookup m n)"

fun first_service :: "(string, 'ns) fmap \<Rightarrow> nodeInfo list \<Rightarrow> 'ns option" where
  "first_service m [] = None"
| "first_service m (ni # nis) =
     (case fmlookup m (ni_nodeName ni) of Some ns \<Rightarrow> Some ns | None \<Rightarrow> first_service m nis)"

definition selectNodeRandomly :: "string \<Rightarrow> 'ns gm \<Rightarrow> 'ns option" where
  "selectNodeRandomly g s =
     (case fmlookup (gm_groupInfos s) g of
        None \<Rightarrow> None
      | Some gi \<Rightarrow>
          (case fmlookup (gm_nodeServiceList s) g of
             None \<Rightarrow> None
           | Some m \<Rightarrow> first_service m (map snd (fmap_list (gi_nodeInfos gi)))))"

definition selectNode :: "nat \<Rightarrow> string \<Rightarrow> 'ns gm \<Rightarrow> 'ns option" where
  "selectNode rnd g s =
     (let nodeName = selectNodeByBlockNumber rnd g s
      in if length nodeName = 0 then selectNodeRandomly g s else queryNodeService g nodeName s)"

definition getNodeService :: "nat \<Rightarrow> string \<Rightarrow> string \<Rightarrow> 'ns gm \<Rightarrow> 'ns option" where
  "getNodeService rnd g n s =
     (if length n > 0 then queryNodeService g n s else selectNode rnd g s)"

subsection \<open>Other reads\<close>

definition getGroupInfo :: "string \<Rightarrow> 'ns gm \<Rightarrow> groupInfo option" where
  "getGroupInfo g s = fmlookup (gm_groupInfos s) g"

definition getNodeInfo :: "group_api \<Rightarrow> string \<Rightarrow> string \<Rightarrow> 'ns gm \<Rightarrow> nodeInfo option" where
  "getNodeInfo A g n s =
     (case fmlookup (gm_groupInfos s) g of None \<Rightarrow> None | Some gi \<Rightarrow> api_nodeInfo A n gi)"

definition groupList :: "group_api \<Rightarrow> 'ns gm \<Rightarrow> string fset" where
  "groupList A s =
     fset_of_list (map fst (filter (\<lambda>(g, gi). api_nodesNum A gi \<noteq> 0) (fmap_list (gm_groupInfos s))))"

definition groupInfoList :: "'ns gm \<Rightarrow> groupInfo list" where
  "groupInfoList s = map snd (fmap_list (gm_groupInfos s))"

subsection \<open>The status tick\<close>

definition node_gone :: "('ns \<Rightarrow> bool) \<Rightarrow> 'ns gm \<Rightarrow> string \<Rightarrow> string \<Rightarrow> bool" where
  "node_gone unreach s g n =
     (case fmlookup (gm_nodeServiceList s) g of
        None \<Rightarrow> True
      | Some m \<Rightarrow> (case fmlookup m n of None \<Rightarrow> True | Some ns \<Rightarrow> unreach ns))"

definition check_group ::
  "group_api \<Rightarrow> ('ns \<Rightarrow> bool) \<Rightarrow> 'ns gm \<Rightarrow> groupInfo \<Rightarrow> groupInfo \<times> string fset" where
  "check_group A unreach s gi =
     fold (\<lambda>(n, ni) (gi', gone).
             if node_gone unreach s (gi_groupID gi) n
             then (api_remove A ni gi', finsert n gone) else (gi', gone))
       (fmap_list (gi_nodeInfos gi)) (gi, {||})"

definition check_step ::
  "group_api \<Rightarrow> ('ns \<Rightarrow> bool) \<Rightarrow> string \<times> groupInfo \<Rightarrow> 'ns gm \<times> (string, string fset) fmap
     \<Rightarrow> 'ns gm \<times> (string, string fset) fmap" where
  "check_step A unreach kgi sb =
     (let (k, gi) = kgi; (s, bad) = sb; (gi', gone) = check_group A unreach s gi
      in if gone = {||} then (s, bad)
         else let s1 = s\<lparr>gm_groupInfos := fmupd k gi' (gm_groupInfos s)\<rparr>;
                  old = (case fmlookup bad (gi_groupID gi) of None \<Rightarrow> {||} | Some B \<Rightarrow> B)
              in (if gm_hasNotifier s1 then snd (notify gi' s1) else s1,
                  fmupd (gi_groupID gi) (gone |\<union>| old) bad))"

definition checkNodeStatus ::
  "group_api \<Rightarrow> ('ns \<Rightarrow> bool) \<Rightarrow> 'ns gm \<Rightarrow> 'ns gm \<times> (string, string fset) fmap" where
  "checkNodeStatus A unreach s =
     fold (check_step A unreach) (fmap_list (gm_groupInfos s)) (s, fmempty)"

definition remove_services :: "string \<times> string fset \<Rightarrow> 'ns gm \<Rightarrow> 'ns gm" where
  "remove_services gb s =
     (let (g, B) = gb
      in case fmlookup (gm_nodeServiceList s) g of
           None \<Rightarrow> s
         | Some m \<Rightarrow>
             let m' = fold fmdrop (fset_list B) m
             in s\<lparr>gm_nodeServiceList :=
                    (if fcard (fmdom m') = 0 then fmdrop g (gm_nodeServiceList s)
                     else fmupd g m' (gm_nodeServiceList s))\<rparr>)"

definition removeUnreachableNodeService :: "(string, string fset) fmap \<Rightarrow> 'ns gm \<Rightarrow> 'ns gm" where
  "removeUnreachableNodeService bad s = fold remove_services (fmap_list bad) s"

definition remove_block_info :: "string \<times> string fset \<Rightarrow> 'ns gm \<Rightarrow> 'ns gm" where
  "remove_block_info gb s =
     (let (g, B) = gb
      in case fmlookup (gm_nodesWithLatest s) g of
           None \<Rightarrow> s\<lparr>gm_groupBlockInfos := fmdrop g (gm_groupBlockInfos s)\<rparr>
         | Some A \<Rightarrow>
             if g |\<notin>| fmdom (gm_groupBlockInfos s)
             then s\<lparr>gm_nodesWithLatest := fmdrop g (gm_nodesWithLatest s)\<rparr>
             else let A' = fold (\<lambda>n A. A |-| {|n|}) (fset_list B) A
                  in if fcard A' = 0
                     then s\<lparr>gm_groupBlockInfos := fmdrop g (gm_groupBlockInfos s),
                            gm_nodesWithLatest := fmdrop g (gm_nodesWithLatest s)\<rparr>
                     else s\<lparr>gm_nodesWithLatest := fmupd g A' (gm_nodesWithLatest s)\<rparr>)"

definition removeGroupBlockInfo :: "(string, string fset) fmap \<Rightarrow> 'ns gm \<Rightarrow> 'ns gm" where
  "removeGroupBlockInfo bad s = fold remove_block_info (fmap_list bad) s"

definition c_tarsAdminRefreshInitTime :: "64 word" where
  "c_tarsAdminRefreshInitTime = 120 * 1000"

definition updateGroupStatus ::
  "group_api \<Rightarrow> ('ns \<Rightarrow> bool) \<Rightarrow> 64 word \<Rightarrow> 'ns gm \<Rightarrow> 'ns gm" where
  "updateGroupStatus A unreach now s =
     (if now - gm_startTime s \<le> c_tarsAdminRefreshInitTime then s
      else let (s1, bad) = checkNodeStatus A unreach s
           in if fcard (fmdom bad) = 0 then s1
              else removeGroupBlockInfo bad (removeUnreachableNodeService bad s1))"

subsection \<open>Local group manager\<close>

text \<open>
  \<^theory_text>\<open>LocalGroupManager\<close> answers for the one group it was built with; its
  \<^theory_text>\<open>updateGroupBlockInfo\<close> does nothing.
\<close>

record 'ns lgm =
  lgm_nodeService :: "'ns option"
  lgm_groupInfo :: groupInfo

definition lgm_getNodeService :: "string \<Rightarrow> string \<Rightarrow> 'ns lgm \<Rightarrow> 'ns option" where
  "lgm_getNodeService g n s =
     (if length g > 0 \<and> g \<noteq> gi_groupID (lgm_groupInfo s) then None else lgm_nodeService s)"

definition lgm_groupList :: "'ns lgm \<Rightarrow> string fset" where
  "lgm_groupList s = {|gi_groupID (lgm_groupInfo s)|}"

definition lgm_getGroupInfo :: "string \<Rightarrow> 'ns lgm \<Rightarrow> groupInfo option" where
  "lgm_getGroupInfo g s =
     (if gi_groupID (lgm_groupInfo s) = g then Some (lgm_groupInfo s) else None)"

definition lgm_getNodeInfo :: "group_api \<Rightarrow> string \<Rightarrow> string \<Rightarrow> 'ns lgm \<Rightarrow> nodeInfo option" where
  "lgm_getNodeInfo A g n s =
     (if gi_groupID (lgm_groupInfo s) \<noteq> g then None else api_nodeInfo A n (lgm_groupInfo s))"

definition lgm_updateGroupBlockInfo :: "string \<Rightarrow> string \<Rightarrow> int \<Rightarrow> 'ns lgm \<Rightarrow> 'ns lgm" where
  "lgm_updateGroupBlockInfo g n b s = s"

definition lgm_groupInfoList :: "'ns lgm \<Rightarrow> groupInfo list" where
  "lgm_groupInfoList s = [lgm_groupInfo s]"

end
