(* ===== verification/GroupManagerProps.thy ===== *)
theory GroupManagerProps
  imports GroupManager
begin

text \<open>
  Correctness of the group manager: what a status tick does to each group, the invariant
  every operation keeps, the history the block-number tables stand for, and which node a
  request is given.
\<close>

subsection \<open>One group under a status tick\<close>

lemma check_group_fold:
  assumes "group_api_ok A" and "\<And>n ni. (n, ni) \<in> set xs \<Longrightarrow> ni_nodeName ni = n"
    and "fold (\<lambda>(n, ni) (gi', gone). if gone_at n then (api_remove A ni gi', finsert n gone)
            else (gi', gone)) xs (gi, G) = (gi', G')"
  shows "gi_groupID gi' = gi_groupID gi \<and>
         G' = G |\<union>| fset_of_list (filter gone_at (map fst xs)) \<and>
         (\<forall>n. fmlookup (gi_nodeInfos gi') n =
            (if n \<in> set (map fst xs) \<and> gone_at n then None else fmlookup (gi_nodeInfos gi) n))"
  using assms(2,3)
proof (induction xs arbitrary: gi G)
  case Nil
  then show ?case by simp
next
  case (Cons x xs)
  obtain n ni where x: "x = (n, ni)" by fastforce
  with Cons.prems(1) have ni: "ni_nodeName ni = n" by simp
  show ?case
  proof (cases "gone_at n")
    case True
    with Cons.prems(2) x have "fold (\<lambda>(n, ni) (gi', gone). if gone_at n
        then (api_remove A ni gi', finsert n gone) else (gi', gone)) xs
        (api_remove A ni gi, finsert n G) = (gi', G')"
      by simp
    from Cons.IH [OF _ this] Cons.prems(1)
    have "gi_groupID gi' = gi_groupID (api_remove A ni gi)"
      and "G' = finsert n G |\<union>| fset_of_list (filter gone_at (map fst xs))"
      and "\<And>k. fmlookup (gi_nodeInfos gi') k = (if k \<in> set (map fst xs) \<and> gone_at k then None
              else fmlookup (gi_nodeInfos (api_remove A ni gi)) k)"
      by simp_all
    then show ?thesis
      using True by (simp add: x ni api_remove_group [OF assms(1)] api_remove_nodes [OF assms(1)])
  next
    case False
    with Cons.prems(2) x have "fold (\<lambda>(n, ni) (gi', gone). if gone_at n
        then (api_remove A ni gi', finsert n gone) else (gi', gone)) xs (gi, G) = (gi', G')"
      by simp
    from Cons.IH [OF _ this] Cons.prems(1)
    have "gi_groupID gi' = gi_groupID gi"
      and "G' = G |\<union>| fset_of_list (filter gone_at (map fst xs))"
      and "\<And>k. fmlookup (gi_nodeInfos gi') k = (if k \<in> set (map fst xs) \<and> gone_at k then None
              else fmlookup (gi_nodeInfos gi) k)"
      by simp_all
    then show ?thesis
      using False by (auto simp: x)
  qed
qed

lemma check_group_spec:
  assumes A: "group_api_ok A" and wf: "group_wf gi"
  shows "gi_groupID (fst (check_group A u s gi)) = gi_groupID gi"
    and "snd (check_group A u s gi) = ffilter (node_gone u s (gi_groupID gi)) (fmdom (gi_nodeInfos gi))"
    and "gi_nodeInfos (fst (check_group A u s gi)) =
           fmfilter (\<lambda>n. \<not> node_gone u s (gi_groupID gi) n) (gi_nodeInfos gi)"
proof -
  obtain gi' G' where r: "check_group A u s gi = (gi', G')" by fastforce
  have "gi_groupID gi' = gi_groupID gi \<and>
     G' = {||} |\<union>| fset_of_list (filter (node_gone u s (gi_groupID gi)) (map fst (fmap_list (gi_nodeInfos gi)))) \<and>
     (\<forall>n. fmlookup (gi_nodeInfos gi') n =
        (if n \<in> set (map fst (fmap_list (gi_nodeInfos gi))) \<and> node_gone u s (gi_groupID gi) n then None
         else fmlookup (gi_nodeInfos gi) n))"
    by (rule check_group_fold [OF A])
      (use wf r in \<open>auto simp: check_group_def dest: group_wfD\<close>)
  note * = this
  show "gi_groupID (fst (check_group A u s gi)) = gi_groupID gi"
    using * r by simp
  show "snd (check_group A u s gi) = ffilter (node_gone u s (gi_groupID gi)) (fmdom (gi_nodeInfos gi))"
    using * r by (auto simp: fset_of_list_elem)
  show "gi_nodeInfos (fst (check_group A u s gi)) =
           fmfilter (\<lambda>n. \<not> node_gone u s (gi_groupID gi) n) (gi_nodeInfos gi)"
    by (rule fmap_ext) (use * r in \<open>auto simp: fmlookup_dom_iff\<close>)
qed

lemma node_gone_cong:
  "gm_nodeServiceList s = gm_nodeServiceList t \<Longrightarrow> node_gone u s = node_gone u t"
  by (simp add: node_gone_def fun_eq_iff)

lemma check_group_cong:
  "gm_nodeServiceList s = gm_nodeServiceList t \<Longrightarrow> check_group A u s = check_group A u t"
  by (simp add: check_group_def fun_eq_iff node_gone_cong [of s t])

lemma check_group_none:
  assumes "group_api_ok A" and "group_wf gi" and "snd (check_group A u s gi) = {||}"
  shows "check_group A u s gi = (gi, {||})"
proof -
  have "\<not> node_gone u s (gi_groupID gi) n" if "(n, ni) \<in> set (fmap_list (gi_nodeInfos gi))" for n ni
    using assms(3) check_group_spec(2) [OF assms(1,2), of u s] that
    by (metis ffmember_filter fempty_iff fmdomI in_fmap_list_iff)
  then show ?thesis
    unfolding check_group_def by (intro fold_keeps [where P = "\<lambda>r. r = (gi, {||})"]) auto
qed

definition groups_ok :: "'ns gm \<Rightarrow> bool" where
  "groups_ok s \<longleftrightarrow> fmpred (\<lambda>g gi. gi_groupID gi = g \<and> group_wf gi) (gm_groupInfos s)"

lemma groups_okD:
  "groups_ok s \<Longrightarrow> fmlookup (gm_groupInfos s) g = Some gi \<Longrightarrow> gi_groupID gi = g \<and> group_wf gi"
  by (auto simp: groups_ok_def)

lemma check_step_frame:
  "gm_nodeServiceList (fst (check_step A u kgi sb)) = gm_nodeServiceList (fst sb)"
  "gm_nodesWithLatest (fst (check_step A u kgi sb)) = gm_nodesWithLatest (fst sb)"
  "gm_groupBlockInfos (fst (check_step A u kgi sb)) = gm_groupBlockInfos (fst sb)"
  "gm_hasNotifier (fst (check_step A u kgi sb)) = gm_hasNotifier (fst sb)"
  "gm_startTime (fst (check_step A u kgi sb)) = gm_startTime (fst sb)"
  by (auto simp: check_step_def Let_def notify_def split: prod.splits)

lemma checkNodeStatus_frame:
  assumes "checkNodeStatus A u s = (s', bad)"
  shows "gm_nodeServiceList s' = gm_nodeServiceList s" "gm_nodesWithLatest s' = gm_nodesWithLatest s"
    "gm_groupBlockInfos s' = gm_groupBlockInfos s" "gm_startTime s' = gm_startTime s"
    "gm_hasNotifier s' = gm_hasNotifier s"
proof -
  let ?P = "\<lambda>sb. gm_nodeServiceList (fst sb) = gm_nodeServiceList s \<and>
      gm_nodesWithLatest (fst sb) = gm_nodesWithLatest s \<and>
      gm_groupBlockInfos (fst sb) = gm_groupBlockInfos s \<and> gm_startTime (fst sb) = gm_startTime s \<and>
      gm_hasNotifier (fst sb) = gm_hasNotifier s"
  have "?P (checkNodeStatus A u s)"
    unfolding checkNodeStatus_def by (rule fold_keeps) (simp_all add: check_step_frame)
  with assms show "gm_nodeServiceList s' = gm_nodeServiceList s"
    "gm_nodesWithLatest s' = gm_nodesWithLatest s" "gm_groupBlockInfos s' = gm_groupBlockInfos s"
    "gm_startTime s' = gm_startTime s" "gm_hasNotifier s' = gm_hasNotifier s"
    by simp_all
qed

text \<open>What the walk over the groups does to one of them.\<close>

lemma check_step_lookup:
  assumes "gi_groupID gi = k"
  shows "fmlookup (gm_groupInfos (fst (check_step A u (k, gi) (s, bad)))) g =
           (if g = k \<and> snd (check_group A u s gi) \<noteq> {||} then Some (fst (check_group A u s gi))
            else fmlookup (gm_groupInfos s) g)"
    and "fmlookup (snd (check_step A u (k, gi) (s, bad))) g =
           (if g = k \<and> snd (check_group A u s gi) \<noteq> {||}
            then Some (snd (check_group A u s gi) |\<union>| (case fmlookup bad k of None \<Rightarrow> {||} | Some B \<Rightarrow> B))
            else fmlookup bad g)"
  using assms by (cases "check_group A u s gi", simp add: check_step_def Let_def notify_def)+

lemma checkNodeStatus_spec:
  fixes s :: "'a gm"
  assumes A: "group_api_ok A" and ok: "groups_ok s" and r: "checkNodeStatus A u s = (s', bad)"
  shows "fmlookup (gm_groupInfos s') g =
           map_option (\<lambda>gi. fst (check_group A u s gi)) (fmlookup (gm_groupInfos s) g)"
    and "fmlookup bad g =
           (case fmlookup (gm_groupInfos s) g of None \<Rightarrow> None
            | Some gi \<Rightarrow> if snd (check_group A u s gi) = {||} then None
                         else Some (snd (check_group A u s gi)))"
proof -
  let ?get = "\<lambda>(sb :: 'a gm \<times> (string, string fset) fmap) g.
      (fmlookup (gm_groupInfos (fst sb)) g, fmlookup (snd sb) g)"
  let ?F = "\<lambda>g gi oo. if snd (check_group A u s gi) = {||} then oo
      else (Some (fst (check_group A u s gi)),
            Some (snd (check_group A u s gi) |\<union>| (case snd oo of None \<Rightarrow> {||} | Some B \<Rightarrow> B)))"
  let ?P = "\<lambda>sb :: 'a gm \<times> (string, string fset) fmap. gm_nodeServiceList (fst sb) = gm_nodeServiceList s"
  have key: "gi_groupID gi = g" if "(g, gi) \<in> set (fmap_list (gm_groupInfos s))" for g gi
    using that groups_okD [OF ok] by simp
  have "?get (fold (check_step A u) (fmap_list (gm_groupInfos s)) (s, fmempty)) g =
      (case map_of (fmap_list (gm_groupInfos s)) g of None \<Rightarrow> ?get (s, fmempty) g
       | Some gi \<Rightarrow> ?F g gi (?get (s, fmempty) g))"
  proof (rule fold_pointwise [where P = ?P])
    fix k gi and sb :: "'a gm \<times> (string, string fset) fmap"
    assume *: "(k, gi) \<in> set (fmap_list (gm_groupInfos s))" "?P sb"
    obtain t b where sb: "sb = (t, b)" by fastforce
    with * have c: "check_group A u t = check_group A u s"
      by (auto intro: check_group_cong)
    show "?get (check_step A u (k, gi) sb) k = ?F k gi (?get sb k)"
      by (simp add: sb check_step_lookup [OF key [OF *(1)]] c)
    fix k' assume "k' \<noteq> k"
    then show "?get (check_step A u (k, gi) sb) k' = ?get sb k'"
      by (simp add: sb check_step_lookup [OF key [OF *(1)]])
  qed (simp_all add: check_step_frame)
  then have *: "(fmlookup (gm_groupInfos s') g, fmlookup bad g) =
      (case fmlookup (gm_groupInfos s) g of None \<Rightarrow> (None, None) | Some gi \<Rightarrow> ?F g gi (Some gi, None))"
    using r by (cases "fmlookup (gm_groupInfos s) g") (simp_all add: checkNodeStatus_def)
  have "fst (check_group A u s gi) = gi"
    if "fmlookup (gm_groupInfos s) g = Some gi" and "snd (check_group A u s gi) = {||}" for gi
    using check_group_none [OF A _ that(2)] groups_okD [OF ok that(1)] by simp
  with * show "fmlookup (gm_groupInfos s') g =
           map_option (\<lambda>gi. fst (check_group A u s gi)) (fmlookup (gm_groupInfos s) g)"
    by (cases "fmlookup (gm_groupInfos s) g") (simp_all split: if_split_asm)
  from * show "fmlookup bad g =
           (case fmlookup (gm_groupInfos s) g of None \<Rightarrow> None
            | Some gi \<Rightarrow> if snd (check_group A u s gi) = {||} then None
                         else Some (snd (check_group A u s gi)))"
    by (cases "fmlookup (gm_groupInfos s) g") (simp_all split: if_split_asm)
qed

subsection \<open>Removing nodes from the service and block-number tables\<close>

lemma remove_services_lookup:
  "fmlookup (gm_nodeServiceList (remove_services (g, B) s)) k =
     (if k = g then (case fmlookup (gm_nodeServiceList s) g of None \<Rightarrow> None
        | Some m \<Rightarrow> if fmdrop_fset B m = fmempty then None else Some (fmdrop_fset B m))
      else fmlookup (gm_nodeServiceList s) k)"
proof (cases "fmlookup (gm_nodeServiceList s) g")
  case None
  then show ?thesis by (simp add: remove_services_def)
next
  case (Some m)
  then show ?thesis
    by (simp only: remove_services_def Let_def fold_fmdrop_fset prod.case option.case fcard_fmdom_0)
      simp
qed

lemma removeUnreachableNodeService_spec:
  "fmlookup (gm_nodeServiceList (removeUnreachableNodeService bad s)) g =
     (case fmlookup bad g of None \<Rightarrow> fmlookup (gm_nodeServiceList s) g
      | Some B \<Rightarrow> (case fmlookup (gm_nodeServiceList s) g of None \<Rightarrow> None
          | Some m \<Rightarrow> if fmdrop_fset B m = fmempty then None else Some (fmdrop_fset B m)))"
proof -
  let ?F = "\<lambda>g B o1. case o1 of None \<Rightarrow> None
          | Some m \<Rightarrow> if fmdrop_fset B m = fmempty then None else Some (fmdrop_fset B m)"
  have "fmlookup (gm_nodeServiceList (fold remove_services (fmap_list bad) s)) g =
      (case map_of (fmap_list bad) g of None \<Rightarrow> fmlookup (gm_nodeServiceList s) g
       | Some B \<Rightarrow> ?F g B (fmlookup (gm_nodeServiceList s) g))"
    by (rule fold_pointwise [where P = "\<lambda>_. True" and get = "\<lambda>s. fmlookup (gm_nodeServiceList s)"])
      (simp_all add: remove_services_lookup)
  then show ?thesis
    by (simp add: removeUnreachableNodeService_def)
qed

lemma remove_services_frame [frame]:
  "gm_groupInfos (remove_services gb s) = gm_groupInfos s"
  "gm_nodesWithLatest (remove_services gb s) = gm_nodesWithLatest s"
  "gm_groupBlockInfos (remove_services gb s) = gm_groupBlockInfos s"
  by (auto simp: remove_services_def Let_def split: prod.split option.split)

lemma removeUnreachableNodeService_frame [frame]:
  "gm_groupInfos (removeUnreachableNodeService bad s) = gm_groupInfos s"
  "gm_nodesWithLatest (removeUnreachableNodeService bad s) = gm_nodesWithLatest s"
  "gm_groupBlockInfos (removeUnreachableNodeService bad s) = gm_groupBlockInfos s"
proof -
  have "gm_groupInfos (fold remove_services xs s) = gm_groupInfos s \<and>
        gm_nodesWithLatest (fold remove_services xs s) = gm_nodesWithLatest s \<and>
        gm_groupBlockInfos (fold remove_services xs s) = gm_groupBlockInfos s" for xs
    by (rule fold_keeps) (simp_all add: frame)
  then show "gm_groupInfos (removeUnreachableNodeService bad s) = gm_groupInfos s"
    "gm_nodesWithLatest (removeUnreachableNodeService bad s) = gm_nodesWithLatest s"
    "gm_groupBlockInfos (removeUnreachableNodeService bad s) = gm_groupBlockInfos s"
    by (simp_all add: removeUnreachableNodeService_def)
qed

lemma remove_block_info_frame [frame]:
  "gm_groupInfos (remove_block_info gb s) = gm_groupInfos s"
  "gm_nodeServiceList (remove_block_info gb s) = gm_nodeServiceList s"
  by (auto simp: remove_block_info_def Let_def split: prod.split option.split)

lemma removeGroupBlockInfo_frame [frame]:
  "gm_groupInfos (removeGroupBlockInfo bad s) = gm_groupInfos s"
  "gm_nodeServiceList (removeGroupBlockInfo bad s) = gm_nodeServiceList s"
proof -
  have "gm_groupInfos (fold remove_block_info xs s) = gm_groupInfos s \<and>
        gm_nodeServiceList (fold remove_block_info xs s) = gm_nodeServiceList s" for xs
    by (rule fold_keeps) (simp_all add: frame)
  then show "gm_groupInfos (removeGroupBlockInfo bad s) = gm_groupInfos s"
    "gm_nodeServiceList (removeGroupBlockInfo bad s) = gm_nodeServiceList s"
    by (simp_all add: removeGroupBlockInfo_def)
qed

text \<open>The two block-number entries of one group, and what removing the nodes \<open>B\<close> leaves.\<close>

definition block_info :: "'ns gm \<Rightarrow> string \<Rightarrow> string fset option \<times> int option" where
  "block_info s g = (fmlookup (gm_nodesWithLatest s) g, fmlookup (gm_groupBlockInfos s) g)"

definition drop_nodes :: "string fset \<Rightarrow> string fset option \<times> int option \<Rightarrow> string fset option \<times> int option" where
  "drop_nodes B ab =
     (case ab of (Some A, Some b) \<Rightarrow> if A |-| B = {||} then (None, None) else (Some (A |-| B), Some b)
      | _ \<Rightarrow> (None, None))"

lemma remove_block_info_lookup:
  "block_info (remove_block_info (g, B) s) k =
     (if k = g then drop_nodes B (block_info s g) else block_info s k)"
proof (cases "fmlookup (gm_nodesWithLatest s) g")
  case None
  then show ?thesis by (simp add: remove_block_info_def block_info_def drop_nodes_def)
next
  case A: (Some A)
  show ?thesis
  proof (cases "fmlookup (gm_groupBlockInfos s) g")
    case None
    then have "g |\<notin>| fmdom (gm_groupBlockInfos s)"
      by (simp add: fmlookup_None_iff)
    with None A show ?thesis
      by (simp add: remove_block_info_def block_info_def drop_nodes_def)
  next
    case (Some b)
    then have "g |\<in>| fmdom (gm_groupBlockInfos s)"
      by (rule fmdomI)
    with Some A show ?thesis
      by (simp add: remove_block_info_def block_info_def drop_nodes_def Let_def fold_fminus)
  qed
qed

lemma removeGroupBlockInfo_spec:
  "block_info (removeGroupBlockInfo bad s) g =
     (case fmlookup bad g of None \<Rightarrow> block_info s g | Some B \<Rightarrow> drop_nodes B (block_info s g))"
proof -
  have "block_info (fold remove_block_info (fmap_list bad) s) g =
      (case map_of (fmap_list bad) g of None \<Rightarrow> block_info s g | Some B \<Rightarrow> drop_nodes B (block_info s g))"
    by (rule fold_pointwise [where P = "\<lambda>_. True" and get = block_info and F = "\<lambda>g. drop_nodes"])
      (simp_all add: remove_block_info_lookup)
  then show ?thesis
    by (simp add: removeGroupBlockInfo_def)
qed

text \<open>What a block-number notification does to the two entries of the group.\<close>

definition note_block ::
  "string \<Rightarrow> int \<Rightarrow> string fset option \<times> int option \<Rightarrow> string fset option \<times> int option" where
  "note_block n b ab =
     (let A = (case fst ab of None \<Rightarrow> {||} | Some A \<Rightarrow> A);
          old = (case snd ab of None \<Rightarrow> 0 | Some old \<Rightarrow> old)
      in if snd ab \<noteq> None \<and> b < old then ab
         else if old < b then (Some {|n|}, Some b) else (Some (finsert n A), snd ab))"

lemma updateGroupBlockInfo_info:
  "block_info (updateGroupBlockInfo g n b s) k =
     (if k = g then note_block n b (block_info s g) else block_info s k)"
proof (cases "fmlookup (gm_groupBlockInfos s) g"; cases "fmlookup (gm_nodesWithLatest s) g")
  fix old A
  assume *: "fmlookup (gm_groupBlockInfos s) g = Some old" "fmlookup (gm_nodesWithLatest s) g = Some A"
  show ?thesis
  proof (cases "old = b \<and> n |\<in>| A")
    case True
    then have "finsert n A = A" by (simp add: finsert_absorb)
    with * True show ?thesis
      by (simp add: updateGroupBlockInfo_def block_info_def note_block_def)
  next
    case False
    with * show ?thesis
      by (simp add: updateGroupBlockInfo_def block_info_def note_block_def)
  qed
qed (simp_all add: updateGroupBlockInfo_def block_info_def note_block_def)

lemma updateGroupBlockInfo_frame [frame]:
  "gm_groupInfos (updateGroupBlockInfo g n b s) = gm_groupInfos s"
  "gm_nodeServiceList (updateGroupBlockInfo g n b s) = gm_nodeServiceList s"
  by (simp_all add: updateGroupBlockInfo_def Let_def)

subsection \<open>The invariant\<close>

text \<open>
  Groups are filed under their ids and nodes under their names; every node service belongs
  to a listed node, and no group is left with an empty table of services; a recorded block
  number is positive and has nodes that reached it. While a status tick is under way some
  services may belong to nodes it has unlisted already: \<open>B\<close> says which nodes of a group are
  excused.
\<close>

definition services_within :: "(string \<Rightarrow> string fset) \<Rightarrow> 'ns gm \<Rightarrow> bool" where
  "services_within B s \<longleftrightarrow> (\<forall>g m. fmlookup (gm_nodeServiceList s) g = Some m \<longrightarrow> m \<noteq> fmempty \<and>
        (\<exists>gi. fmlookup (gm_groupInfos s) g = Some gi \<and> fmdom m |\<subseteq>| fmdom (gi_nodeInfos gi) |\<union>| B g))"

definition entry_ok :: "string fset option \<times> int option \<Rightarrow> bool" where
  "entry_ok ab \<longleftrightarrow> fst ab \<noteq> Some {||} \<and>
     (case snd ab of None \<Rightarrow> True | Some b \<Rightarrow> 0 < b \<and> fst ab \<noteq> None)"

definition gm_within :: "(string \<Rightarrow> string fset) \<Rightarrow> 'ns gm \<Rightarrow> bool" where
  "gm_within B s \<longleftrightarrow> groups_ok s \<and> services_within B s \<and> (\<forall>g. entry_ok (block_info s g))"

abbreviation services_ok :: "'ns gm \<Rightarrow> bool" where
  "services_ok \<equiv> services_within (\<lambda>_. {||})"

abbreviation gm_wf :: "'ns gm \<Rightarrow> bool" where
  "gm_wf \<equiv> gm_within (\<lambda>_. {||})"

lemmas gm_wf_def = gm_within_def [of "\<lambda>_. {||}"]

lemma services_withinD:
  assumes "services_within B s" and "fmlookup (gm_nodeServiceList s) g = Some m"
  shows "m \<noteq> fmempty" and
    "\<exists>gi. fmlookup (gm_groupInfos s) g = Some gi \<and> fmdom m |\<subseteq>| fmdom (gi_nodeInfos gi) |\<union>| B g"
  using assms by (simp_all add: services_within_def)

lemma services_withinI:
  assumes "\<And>g m. fmlookup (gm_nodeServiceList s) g = Some m \<Longrightarrow> m \<noteq> fmempty \<and>
        (\<exists>gi. fmlookup (gm_groupInfos s) g = Some gi \<and> fmdom m |\<subseteq>| fmdom (gi_nodeInfos gi) |\<union>| B g)"
  shows "services_within B s"
  using assms by (simp add: services_within_def)

lemmas services_okD = services_withinD [where B = "\<lambda>_. {||}", simplified]

lemma entry_ok_note: "entry_ok ab \<Longrightarrow> entry_ok (note_block n b ab)"
  by (cases "fst ab"; cases "snd ab") (auto simp: entry_ok_def note_block_def Let_def)

lemma entry_ok_drop: "entry_ok ab \<Longrightarrow> entry_ok (drop_nodes B ab)"
  by (cases ab; cases "fst ab"; cases "snd ab") (auto simp: entry_ok_def drop_nodes_def)

lemma notify_frame [frame]:
  "gm_groupInfos (snd (notify gi s)) = gm_groupInfos s"
  "gm_nodeServiceList (snd (notify gi s)) = gm_nodeServiceList s"
  "gm_nodesWithLatest (snd (notify gi s)) = gm_nodesWithLatest s"
  "gm_groupBlockInfos (snd (notify gi s)) = gm_groupBlockInfos s"
  "gm_hasNotifier (snd (notify gi s)) = gm_hasNotifier s"
  "gm_chainID (snd (notify gi s)) = gm_chainID s"
  by (simp_all add: notify_def)

lemma gm_within_notify [simp]: "gm_within B (snd (notify gi s)) = gm_within B s"
  by (simp add: gm_within_def groups_ok_def services_within_def block_info_def frame)

lemma new_gm_within: "gm_within B (new_gm chain now)"
  by (simp add: gm_within_def groups_ok_def services_within_def block_info_def entry_ok_def new_gm_def)

lemma registerGroupInfoNotifier_within: "gm_within B s \<Longrightarrow> gm_within B (registerGroupInfoNotifier s)"
  by (simp add: registerGroupInfoNotifier_def gm_within_def groups_ok_def services_within_def block_info_def)

lemma updateGroupBlockInfo_within:
  "gm_within B s \<Longrightarrow> gm_within B (updateGroupBlockInfo g n b s)"
  by (simp add: gm_within_def groups_ok_def services_within_def frame updateGroupBlockInfo_info entry_ok_note)

text \<open>A node service is filed, and its node listed, in one go.\<close>

definition file_node :: "group_api \<Rightarrow> string \<Rightarrow> nodeInfo \<Rightarrow> 'ns \<Rightarrow> groupInfo \<Rightarrow> 'ns gm \<Rightarrow> 'ns gm" where
  "file_node A g ni ns gi s =
     (addService g (ni_nodeName ni) ns s)
       \<lparr>gm_groupInfos := fmupd g (api_append A ni gi) (gm_groupInfos s)\<rparr>"

lemma updateNodeServiceWithoutLock_eq:
  assumes "fmlookup (gm_groupInfos s) g = Some gi"
  shows "updateNodeServiceWithoutLock A build g ni s =
     (if hasService g (ni_nodeName ni) s then (None, s)
      else case build (gm_chainID s) g ni of None \<Rightarrow> (None, s)
           | Some ns \<Rightarrow> notify (api_append A ni gi) (file_node A g ni ns gi s))"
  using assms
  by (cases "build (gm_chainID s) g ni")
    (simp_all add: updateNodeServiceWithoutLock_def file_node_def addService_def Let_def)

lemma file_node_services:
  "fmlookup (gm_nodeServiceList (file_node A g ni ns gi s)) k =
     (if k = g then Some (fmupd (ni_nodeName ni) ns
        (case fmlookup (gm_nodeServiceList s) g of None \<Rightarrow> fmempty | Some m \<Rightarrow> m))
      else fmlookup (gm_nodeServiceList s) k)"
  by (simp add: file_node_def addService_def)

lemma file_node_groups:
  "gm_groupInfos (file_node A g ni ns gi s) = fmupd g (api_append A ni gi) (gm_groupInfos s)"
  by (simp add: file_node_def addService_def)

lemma file_node_info: "block_info (file_node A g ni ns gi s) = block_info s"
  by (simp add: file_node_def addService_def block_info_def fun_eq_iff)

lemma file_node_within:
  assumes A: "group_api_ok A" and wf: "gm_within B s" and gi: "fmlookup (gm_groupInfos s) g = Some gi"
  shows "gm_within B (file_node A g ni ns gi s)"
proof -
  have ok: "groups_ok s" and sv: "services_within B s" using wf by (simp_all add: gm_within_def)
  have "groups_ok (file_node A g ni ns gi s)"
    unfolding groups_ok_def
  proof
    fix k gi'
    assume "fmlookup (gm_groupInfos (file_node A g ni ns gi s)) k = Some gi'"
    then show "gi_groupID gi' = k \<and> group_wf gi'"
      using groups_okD [OF ok gi] groups_okD [OF ok, of k gi']
      by (cases "k = g") (auto simp: file_node_groups api_append_group [OF A] group_wf_append [OF A])
  qed
  moreover have "services_within B (file_node A g ni ns gi s)"
  proof (rule services_withinI)
    fix k m
    assume m: "fmlookup (gm_nodeServiceList (file_node A g ni ns gi s)) k = Some m"
    show "m \<noteq> fmempty \<and> (\<exists>gi'. fmlookup (gm_groupInfos (file_node A g ni ns gi s)) k = Some gi' \<and>
        fmdom m |\<subseteq>| fmdom (gi_nodeInfos gi') |\<union>| B k)"
    proof (cases "k = g")
      case True
      define m0 where "m0 = (case fmlookup (gm_nodeServiceList s) g of None \<Rightarrow> fmempty | Some m \<Rightarrow> m)"
      have "fmdom m0 |\<subseteq>| fmdom (gi_nodeInfos gi) |\<union>| B g"
        using services_withinD(2) [OF sv, of g] gi
        by (cases "fmlookup (gm_nodeServiceList s) g") (auto simp: m0_def)
      moreover have "m = fmupd (ni_nodeName ni) ns m0"
        using m True by (simp add: file_node_services m0_def)
      moreover have "fmupd (ni_nodeName ni) ns m0 \<noteq> fmempty"
        by (metis fmdom_empty fmdom_fmupd finsert_not_fempty)
      ultimately show ?thesis
        using True by (auto simp: file_node_groups fmdom_append [OF A])
    next
      case False
      with m services_withinD [OF sv, of k m] show ?thesis
        by (simp add: file_node_services file_node_groups)
    qed
  qed
  ultimately show ?thesis
    using wf by (simp add: gm_within_def file_node_info)
qed

lemma updateNodeService_within:
  assumes A: "group_api_ok A" and wf: "gm_within B s" and g: "fmlookup (gm_groupInfos s) g = Some gi"
  shows "gm_within B (snd (updateNodeServiceWithoutLock A build g ni s)) \<and>
         fmlookup (gm_groupInfos (snd (updateNodeServiceWithoutLock A build g ni s))) g \<noteq> None"
  using wf g file_node_within [OF A wf g]
  by (cases "build (gm_chainID s) g ni")
    (simp_all add: updateNodeServiceWithoutLock_eq [OF g] frame file_node_groups)

lemma update_nodes_within:
  assumes A: "group_api_ok A" and "gm_within B s" and "fmlookup (gm_groupInfos s) g \<noteq> None"
  shows "gm_within B (snd (update_nodes A build g nis s))"
  using assms(2,3)
proof (induction nis arbitrary: s)
  case (Cons ni nis)
  obtain r s' where r: "updateNodeServiceWithoutLock A build g ni s = (r, s')" by fastforce
  with updateNodeService_within [OF A Cons.prems(1), of g _ build ni] Cons.prems(2)
  have "gm_within B s'" and "fmlookup (gm_groupInfos s') g \<noteq> None"
    by auto
  with Cons.IH [of s'] r show ?case
    by (cases r) simp_all
qed simp

lemma updateGroupInfo_within:
  assumes A: "group_api_ok A" and wf: "gm_within B s" and gi: "group_wf gi"
  shows "gm_within B (snd (updateGroupInfo A build gi s))"
proof (cases "gi_groupID gi |\<in>| fmdom (gm_groupInfos s)")
  case True
  then have "fmlookup (gm_groupInfos s) (gi_groupID gi) \<noteq> None"
    by (simp add: fmlookup_None_iff)
  with True update_nodes_within [OF A wf] show ?thesis
    by (simp add: updateGroupInfo_def)
next
  case False
  let ?s = "s\<lparr>gm_groupInfos := fmupd (gi_groupID gi) gi (gm_groupInfos s)\<rparr>"
  have ok: "groups_ok s" and sv: "services_within B s" using wf by (simp_all add: gm_within_def)
  have "groups_ok ?s"
    using ok gi by (simp add: groups_ok_def fmpred_upd)
  moreover have "services_within B ?s"
  proof (rule services_withinI)
    fix k m assume "fmlookup (gm_nodeServiceList ?s) k = Some m"
    then have "fmlookup (gm_nodeServiceList s) k = Some m" by simp
    from services_withinD [OF sv this] False
    show "m \<noteq> fmempty \<and> (\<exists>gi'. fmlookup (gm_groupInfos ?s) k = Some gi' \<and>
        fmdom m |\<subseteq>| fmdom (gi_nodeInfos gi') |\<union>| B k)"
      by (auto simp: fmdomI)
  qed
  ultimately have "gm_within B ?s"
    using wf by (simp add: gm_within_def block_info_def)
  with False show ?thesis
    by (simp add: updateGroupInfo_def)
qed

subsection \<open>The effect of a tick\<close>

text \<open>
  The nodes of a group that the tick drops, and the lemma that says so for each of the four
  tables at once.
\<close>

definition gone_nodes :: "('ns \<Rightarrow> bool) \<Rightarrow> 'ns gm \<Rightarrow> string \<Rightarrow> string fset" where
  "gone_nodes u s g =
     (case fmlookup (gm_groupInfos s) g of None \<Rightarrow> {||}
      | Some gi \<Rightarrow> ffilter (node_gone u s g) (fmdom (gi_nodeInfos gi)))"

definition tick_time :: "64 word \<Rightarrow> 'ns gm \<Rightarrow> bool" where
  "tick_time now s \<longleftrightarrow> c_tarsAdminRefreshInitTime < now - gm_startTime s"

lemma checkNodeStatus_bad:
  assumes A: "group_api_ok A" and ok: "groups_ok s" and r: "checkNodeStatus A u s = (s', bad)"
  shows "fmlookup bad g = (if gone_nodes u s g = {||} then None else Some (gone_nodes u s g))"
proof (cases "fmlookup (gm_groupInfos s) g")
  case None
  then show ?thesis
    by (simp add: checkNodeStatus_spec(2) [OF A ok r] gone_nodes_def)
next
  case (Some gi)
  then have "snd (check_group A u s gi) = gone_nodes u s g"
    using check_group_spec(2) [OF A, of gi u s] groups_okD [OF ok Some] by (simp add: gone_nodes_def)
  with Some show ?thesis
    by (simp add: checkNodeStatus_spec(2) [OF A ok r])
qed

lemma checkNodeStatus_groups:
  assumes A: "group_api_ok A" and ok: "groups_ok s" and r: "checkNodeStatus A u s = (s', bad)"
  shows "rel_option (\<lambda>gi gi'. gi_groupID gi' = g \<and>
            gi_nodeInfos gi' = fmdrop_fset (gone_nodes u s g) (gi_nodeInfos gi))
           (fmlookup (gm_groupInfos s) g) (fmlookup (gm_groupInfos s') g)"
proof (cases "fmlookup (gm_groupInfos s) g")
  case None
  then show ?thesis
    by (simp add: checkNodeStatus_spec(1) [OF A ok r])
next
  case (Some gi)
  note gi = groups_okD [OF ok Some]
  have "fmfilter (\<lambda>n. \<not> node_gone u s g n) (gi_nodeInfos gi) =
      fmdrop_fset (gone_nodes u s g) (gi_nodeInfos gi)"
    by (rule fmap_ext) (auto simp: gone_nodes_def Some fmlookup_dom_iff)
  with Some gi check_group_spec(1,3) [OF A, of gi u s] show ?thesis
    by (simp add: checkNodeStatus_spec(1) [OF A ok r])
qed

text \<open>
  What a tick does, for each of the tables, in terms of the nodes that are gone: unlisted,
  without a service, their block-number entries dropped; everything else is as before.
\<close>

lemma updateGroupStatus_idle: "\<not> tick_time now s \<Longrightarrow> updateGroupStatus A u now s = s"
  by (simp add: updateGroupStatus_def tick_time_def)

lemma updateGroupStatus_work:
  assumes A: "group_api_ok A" and ok: "groups_ok s" and t: "tick_time now s"
  obtains s' bad where "checkNodeStatus A u s = (s', bad)"
    and "updateGroupStatus A u now s = removeGroupBlockInfo bad (removeUnreachableNodeService bad s')"
proof -
  obtain s' bad where r: "checkNodeStatus A u s = (s', bad)" by fastforce
  have "removeGroupBlockInfo fmempty (removeUnreachableNodeService fmempty s') = s'"
    by (simp add: removeGroupBlockInfo_def removeUnreachableNodeService_def)
  with r t have "updateGroupStatus A u now s =
      removeGroupBlockInfo bad (removeUnreachableNodeService bad s')"
    unfolding updateGroupStatus_def tick_time_def fcard_fmdom_0 by simp
  with r that show ?thesis by blast
qed

definition drop_services :: "string fset \<Rightarrow> (string, 'ns) fmap option \<Rightarrow> (string, 'ns) fmap option" where
  "drop_services B o1 =
     (case o1 of None \<Rightarrow> None
      | Some m \<Rightarrow> if fmdrop_fset B m = fmempty then None else Some (fmdrop_fset B m))"

lemma updateGroupStatus_tables:
  assumes A: "group_api_ok A" and wf: "gm_wf s" and t: "tick_time now s"
  shows "rel_option (\<lambda>gi gi'. gi_groupID gi' = g \<and>
            gi_nodeInfos gi' = fmdrop_fset (gone_nodes u s g) (gi_nodeInfos gi))
           (fmlookup (gm_groupInfos s) g) (fmlookup (gm_groupInfos (updateGroupStatus A u now s)) g)"
    and "fmlookup (gm_nodeServiceList (updateGroupStatus A u now s)) g =
           drop_services (gone_nodes u s g) (fmlookup (gm_nodeServiceList s) g)"
    and "block_info (updateGroupStatus A u now s) g =
           (if gone_nodes u s g = {||} then block_info s g
            else drop_nodes (gone_nodes u s g) (block_info s g))"
proof -
  have ok: "groups_ok s" and sv: "services_ok s" using wf by (simp_all add: gm_wf_def)
  obtain s' bad where r: "checkNodeStatus A u s = (s', bad)"
    and u: "updateGroupStatus A u now s = removeGroupBlockInfo bad (removeUnreachableNodeService bad s')"
    by (rule updateGroupStatus_work [OF A ok t])
  note fr = checkNodeStatus_frame [OF r] and bad = checkNodeStatus_bad [OF A ok r]
  show "rel_option (\<lambda>gi gi'. gi_groupID gi' = g \<and>
            gi_nodeInfos gi' = fmdrop_fset (gone_nodes u s g) (gi_nodeInfos gi))
           (fmlookup (gm_groupInfos s) g) (fmlookup (gm_groupInfos (updateGroupStatus A u now s)) g)"
    using checkNodeStatus_groups [OF A ok r] by (simp add: u frame)
  have "drop_services {||} (fmlookup (gm_nodeServiceList s) g) = fmlookup (gm_nodeServiceList s) g"
    using services_okD(1) [OF sv, of g]
    by (cases "fmlookup (gm_nodeServiceList s) g") (simp_all add: drop_services_def)
  then show "fmlookup (gm_nodeServiceList (updateGroupStatus A u now s)) g =
           drop_services (gone_nodes u s g) (fmlookup (gm_nodeServiceList s) g)"
    by (cases "gone_nodes u s g = {||}")
      (simp_all add: u frame removeUnreachableNodeService_spec fr bad drop_services_def)
  have "block_info (removeUnreachableNodeService bad s') g = block_info s g"
    by (simp add: block_info_def frame fr)
  then show "block_info (updateGroupStatus A u now s) g =
           (if gone_nodes u s g = {||} then block_info s g
            else drop_nodes (gone_nodes u s g) (block_info s g))"
    by (simp add: u removeGroupBlockInfo_spec bad)
qed

text \<open>
  The three parts of a tick and the invariant. The check unlists nodes, whose services are
  excused until the second part has removed them.
\<close>

definition condemned :: "(string, string fset) fmap \<Rightarrow> string \<Rightarrow> string fset" where
  "condemned bad g = (case fmlookup bad g of None \<Rightarrow> {||} | Some X \<Rightarrow> X)"

lemma checkNodeStatus_within:
  assumes A: "group_api_ok A" and wf: "gm_within B s" and r: "checkNodeStatus A u s = (s', bad)"
  shows "gm_within (\<lambda>g. B g |\<union>| condemned bad g) s'"
proof -
  have ok: "groups_ok s" and sv: "services_within B s" using wf by (simp_all add: gm_within_def)
  note fr = checkNodeStatus_frame [OF r] and gr = checkNodeStatus_groups [OF A ok r]
  have c: "condemned bad g = gone_nodes u s g" for g
    using checkNodeStatus_bad [OF A ok r] by (simp add: condemned_def)
  have "groups_ok s'"
    unfolding groups_ok_def
  proof
    fix g gi' assume gi': "fmlookup (gm_groupInfos s') g = Some gi'"
    with gr [of g] obtain gi where "fmlookup (gm_groupInfos s) g = Some gi"
      and "gi_groupID gi' = g" and n: "gi_nodeInfos gi' = fmdrop_fset (gone_nodes u s g) (gi_nodeInfos gi)"
      by (auto simp: option_rel_Some2)
    then show "gi_groupID gi' = g \<and> group_wf gi'"
      using groups_okD [OF ok] by (simp add: group_wf_def n fmpred_drop_fset)
  qed
  moreover have "services_within (\<lambda>g. B g |\<union>| condemned bad g) s'"
  proof (rule services_withinI)
    fix g m assume "fmlookup (gm_nodeServiceList s') g = Some m"
    then have m: "fmlookup (gm_nodeServiceList s) g = Some m" by (simp add: fr)
    from services_withinD [OF sv m] obtain gi where gi: "fmlookup (gm_groupInfos s) g = Some gi"
      and sub: "m \<noteq> fmempty" "fmdom m |\<subseteq>| fmdom (gi_nodeInfos gi) |\<union>| B g"
      by blast
    from gr [of g] gi obtain gi' where "fmlookup (gm_groupInfos s') g = Some gi'"
      and "gi_nodeInfos gi' = fmdrop_fset (gone_nodes u s g) (gi_nodeInfos gi)"
      by (auto simp: option_rel_Some1)
    with sub show "m \<noteq> fmempty \<and> (\<exists>gi. fmlookup (gm_groupInfos s') g = Some gi \<and>
        fmdom m |\<subseteq>| fmdom (gi_nodeInfos gi) |\<union>| (B g |\<union>| condemned bad g))"
      by (auto simp: c)
  qed
  ultimately show ?thesis
    using wf by (simp add: gm_within_def block_info_def fr)
qed

lemma removeUnreachableNodeService_within:
  assumes "gm_within (\<lambda>g. B g |\<union>| condemned bad g) s"
  shows "gm_within B (removeUnreachableNodeService bad s)"
proof -
  have sv: "services_within (\<lambda>g. B g |\<union>| condemned bad g) s" using assms by (simp add: gm_within_def)
  have "services_within B (removeUnreachableNodeService bad s)"
  proof (rule services_withinI)
    fix g m assume "fmlookup (gm_nodeServiceList (removeUnreachableNodeService bad s)) g = Some m"
    then obtain m0 where m0: "fmlookup (gm_nodeServiceList s) g = Some m0"
      and m: "fmdom m = fmdom m0 |-| condemned bad g" "m \<noteq> fmempty"
      using services_withinD(1) [OF sv, of g]
      by (auto simp: removeUnreachableNodeService_spec condemned_def split: option.split_asm if_split_asm)
    from services_withinD(2) [OF sv m0] m show "m \<noteq> fmempty \<and>
        (\<exists>gi. fmlookup (gm_groupInfos (removeUnreachableNodeService bad s)) g = Some gi \<and>
          fmdom m |\<subseteq>| fmdom (gi_nodeInfos gi) |\<union>| B g)"
      by (auto simp: frame)
  qed
  with assms show ?thesis
    by (simp add: gm_within_def groups_ok_def block_info_def frame)
qed

lemma removeGroupBlockInfo_within: "gm_within B s \<Longrightarrow> gm_within B (removeGroupBlockInfo bad s)"
  by (simp add: gm_within_def groups_ok_def services_within_def frame removeGroupBlockInfo_spec
      entry_ok_drop split: option.split)

lemma updateGroupStatus_within:
  assumes A: "group_api_ok A" and wf: "gm_within B s"
  shows "gm_within B (updateGroupStatus A u now s)"
proof (cases "tick_time now s")
  case True
  have ok: "groups_ok s" using wf by (simp add: gm_within_def)
  obtain s' bad where r: "checkNodeStatus A u s = (s', bad)"
    and u: "updateGroupStatus A u now s = removeGroupBlockInfo bad (removeUnreachableNodeService bad s')"
    by (rule updateGroupStatus_work [OF A ok True])
  show ?thesis
    unfolding u by (intro removeGroupBlockInfo_within removeUnreachableNodeService_within
        checkNodeStatus_within [OF A wf r])
qed (use wf in \<open>simp add: updateGroupStatus_idle\<close>)

subsection \<open>The manager as a step relation\<close>

datatype 'ns gm_event =
    Announce groupInfo "string \<Rightarrow> string \<Rightarrow> nodeInfo \<Rightarrow> 'ns option"
  | BlockNote string string int
  | Tick "64 word" "'ns \<Rightarrow> bool"
  | RegisterNotifier

inductive gm_step :: "group_api \<Rightarrow> 'ns gm \<Rightarrow> 'ns gm_event \<Rightarrow> 'ns gm \<Rightarrow> bool" for A where
  announce: "group_api_ok A \<Longrightarrow> group_wf gi \<Longrightarrow>
     gm_step A s (Announce gi build) (snd (updateGroupInfo A build gi s))"
| block_note: "gm_step A s (BlockNote g n b) (updateGroupBlockInfo g n b s)"
| tick: "group_api_ok A \<Longrightarrow> gm_step A s (Tick now u) (updateGroupStatus A u now s)"
| register: "gm_step A s RegisterNotifier (registerGroupInfoNotifier s)"

inductive_cases gm_step_cases: "gm_step A s e t"

lemma gm_step_within: "gm_step A s e t \<Longrightarrow> gm_within B s \<Longrightarrow> gm_within B t"
  by (erule gm_step_cases) (simp_all add: updateGroupInfo_within updateGroupBlockInfo_within
      updateGroupStatus_within registerGroupInfoNotifier_within)

interpretation gm: step_invariant "gm_step A" "new_gm chain now" gm_wf for A chain now
  by unfold_locales (simp_all add: new_gm_within gm_step_within)

subsection \<open>What the manager promises\<close>

lemma within_query:
  assumes wf: "gm_within B s" and q: "queryNodeService g n s = Some ns"
  shows "\<exists>gi. getGroupInfo g s = Some gi \<and> gi_groupID gi = g \<and>
     (n |\<in>| B g \<or> (\<exists>ni. fmlookup (gi_nodeInfos gi) n = Some ni \<and> ni_nodeName ni = n))"
proof -
  have sv: "services_within B s" and ok: "groups_ok s" using wf by (simp_all add: gm_within_def)
  obtain m where m: "fmlookup (gm_nodeServiceList s) g = Some m" "n |\<in>| fmdom m"
    using q by (auto simp: queryNodeService_def fmdomI split: option.split_asm)
  from services_withinD(2) [OF sv m(1)] obtain gi where gi: "fmlookup (gm_groupInfos s) g = Some gi"
    and sub: "fmdom m |\<subseteq>| fmdom (gi_nodeInfos gi) |\<union>| B g"
    by blast
  from sub m(2) have "n |\<in>| B g \<or> n |\<in>| fmdom (gi_nodeInfos gi)" by blast
  then have "n |\<in>| B g \<or> (\<exists>ni. fmlookup (gi_nodeInfos gi) n = Some ni \<and> ni_nodeName ni = n)"
    using groups_okD [OF ok gi] by (auto simp: fmlookup_dom_iff dest: group_wfD)
  with gi groups_okD [OF ok gi] show ?thesis by (simp add: getGroupInfo_def)
qed

lemma within_block_number:
  assumes wf: "gm_within B s" and n: "getBlockNumberByGroup g s \<noteq> -1"
  shows "0 < getBlockNumberByGroup g s \<and>
     (\<exists>X. fmlookup (gm_nodesWithLatest s) g = Some X \<and> selectNodeByBlockNumber rnd g s |\<in>| X)"
proof -
  obtain b where b: "fmlookup (gm_groupBlockInfos s) g = Some b" "getBlockNumberByGroup g s = b"
    using n by (auto simp: getBlockNumberByGroup_def split: option.split_asm)
  from wf have "entry_ok (block_info s g)" by (simp add: gm_within_def)
  with b obtain X where X: "0 < b" "fmlookup (gm_nodesWithLatest s) g = Some X" "X \<noteq> {||}"
    by (auto simp: entry_ok_def block_info_def)
  then have "0 < fcard X" by (metis fcard_0_eq gr0I)
  then have "fset_list X ! (rnd mod fcard X) \<in> set (fset_list X)"
    by (intro nth_mem) simp
  with X have "selectNodeByBlockNumber rnd g s |\<in>| X"
    by (simp add: selectNodeByBlockNumber_def)
  with b X show ?thesis by auto
qed

text \<open>
  In every state whole operations can reach, a node that has a service is listed in the
  description of its group, groups are filed under their ids and nodes under their names, and
  the block number reported for a group is \<open>-1\<close> or a positive number that a recorded node
  has reached. \<open>GroupManagerTicks\<close> has this for ticks that are interrupted, too.
\<close>

lemma gm_reachable:
  assumes "run (gm_step A) (new_gm chain now) es s"
  shows "(queryNodeService g n s = Some ns \<longrightarrow>
           (\<exists>gi ni. getGroupInfo g s = Some gi \<and> gi_groupID gi = g \<and>
              fmlookup (gi_nodeInfos gi) n = Some ni \<and> ni_nodeName ni = n)) \<and>
         (getBlockNumberByGroup g s \<noteq> -1 \<longrightarrow> 0 < getBlockNumberByGroup g s \<and>
           (\<exists>X. fmlookup (gm_nodesWithLatest s) g = Some X \<and> selectNodeByBlockNumber rnd g s |\<in>| X))"
proof -
  have wf: "gm_wf s" by (rule gm.run_inv [OF assms])
  show ?thesis
    using within_query [OF wf, of g n ns] within_block_number [OF wf, of g rnd] by auto
qed

definition demo_node :: "string \<Rightarrow> nodeInfo" where
  "demo_node n = \<lparr>ni_nodeName = n, ni_nodeID = ''id'' @ n, ni_nodeType = 0, ni_microService = True,
     ni_iniConfig = '''', ni_serviceInfo = []\<rparr>"

definition demo_group :: groupInfo where
  "demo_group = \<lparr>gi_chainID = ''chain0'', gi_groupID = ''group0'', gi_genesisConfig = '''',
     gi_iniConfig = '''',
     gi_nodeInfos = fmupd ''node1'' (demo_node ''node1'') (fmupd ''node0'' (demo_node ''node0'') fmempty)\<rparr>"

definition demo_build :: "string \<Rightarrow> string \<Rightarrow> nodeInfo \<Rightarrow> string option" where
  "demo_build chain g ni = Some (ni_nodeName ni)"

text \<open>A manager that has a notifier, knows the group, and has built both node services.\<close>

definition demo_gm :: "string gm" where
  "demo_gm = snd (updateGroupInfo ref_group_api demo_build demo_group
     (snd (updateGroupInfo ref_group_api demo_build demo_group
       (registerGroupInfoNotifier (new_gm ''chain0'' 0)))))"

lemma demo_group_wf [simp]: "group_wf demo_group"
  by (simp add: group_wf_def demo_group_def demo_node_def fmpred_upd)

lemma demo_gm_run:
  "run (gm_step ref_group_api) (new_gm ''chain0'' 0)
     [RegisterNotifier, Announce demo_group demo_build, Announce demo_group demo_build] demo_gm"
proof -
  have "run (gm_step ref_group_api) (new_gm ''chain0'' 0)
     ((([] @ [RegisterNotifier]) @ [Announce demo_group demo_build]) @ [Announce demo_group demo_build]) demo_gm"
    unfolding demo_gm_def
    by (rule run_snoc, rule run_snoc, rule run_snoc, rule run_nil, rule register,
      rule announce, simp, simp, rule announce, simp, simp)
  then show ?thesis by simp
qed

lemmas gm_eval = updateGroupInfo_def updateNodeServiceWithoutLock_def hasService_def addService_def
  notify_def registerGroupInfoNotifier_def new_gm_def ref_group_api_def queryNodeService_def
  updateGroupBlockInfo_def getBlockNumberByGroup_def Let_def

lemma fmupd_known: "fmlookup m k = Some v \<Longrightarrow> fmupd k v m = m"
  by (rule fmap_ext) auto

lemma demo_gm_value:
  "demo_gm = \<lparr>gm_chainID = ''chain0'', gm_groupInfos = fmupd ''group0'' demo_group fmempty,
     gm_nodeServiceList = fmupd ''group0''
       (fmupd ''node1'' ''node1'' (fmupd ''node0'' ''node0'' fmempty)) fmempty,
     gm_nodesWithLatest = fmempty, gm_groupBlockInfos = fmempty, gm_startTime = 0,
     gm_hasNotifier = True, gm_notified = [demo_group, demo_group, demo_group]\<rparr>"
  by (simp add: demo_gm_def demo_group_def demo_node_def demo_build_def gm_eval fmupd_known)

lemma gm_reachable_witness:
  "queryNodeService ''group0'' ''node1'' demo_gm = Some ''node1'' \<and>
   (\<exists>gi ni. getGroupInfo ''group0'' demo_gm = Some gi \<and> gi_groupID gi = ''group0'' \<and>
      fmlookup (gi_nodeInfos gi) ''node1'' = Some ni \<and> ni_nodeName ni = ''node1'')"
  using gm_reachable [OF demo_gm_run, of "''group0''" "''node1''" "''node1''" 0]
  by (simp add: demo_gm_value queryNodeService_def)

lemma query_in_listed:
  assumes wf: "gm_wf s" and q: "queryNodeService g n s = Some ns"
  shows "\<exists>gi. fmlookup (gm_groupInfos s) g = Some gi \<and> n |\<in>| fmdom (gi_nodeInfos gi)"
  using within_query [OF wf q] by (auto simp: getGroupInfo_def fmdomI)

lemma node_gone_query:
  "node_gone u s g n \<longleftrightarrow> (case queryNodeService g n s of None \<Rightarrow> True | Some ns \<Rightarrow> u ns)"
  by (simp add: node_gone_def queryNodeService_def split: option.split)

lemma drop_services_query:
  "(case drop_services B o1 of None \<Rightarrow> None | Some m \<Rightarrow> fmlookup m n) =
   (if n |\<in>| B then None else case o1 of None \<Rightarrow> None | Some m \<Rightarrow> fmlookup m n)"
proof (cases o1)
  case None
  then show ?thesis by (simp add: drop_services_def)
next
  case (Some m)
  show ?thesis
  proof (cases "fmdrop_fset B m = fmempty")
    case True
    then have "n |\<notin>| B \<Longrightarrow> fmlookup m n = None"
      by (metis fmempty_lookup fmlookup_drop_fset)
    with True Some show ?thesis by (auto simp: drop_services_def)
  next
    case False
    with Some show ?thesis by (simp add: drop_services_def)
  qed
qed

text \<open>
  C21: what a status tick later than the initial two minutes leaves of a group, in all four
  tables. \<open>gone\<close> are the nodes the group lists that have no service or an unreachable one. They,
  and only they, are unlisted and lose their service, so that a service stays exactly if it is
  reachable; a group without services loses its entry.
  If there are any, they are removed from the nodes with the latest block, and the entries of
  the group in both block-number tables are erased when no such node is left, or when one of
  the two was missing; else the block number stays. If there are none, the nodes, services
  and block-number entries of the group are as before. An earlier tick does nothing.
\<close>

theorem tick_effect:
  assumes "group_api_ok A" and "run (gm_step A) (new_gm chain start) es s"
    and t: "t = updateGroupStatus A u now s"
  shows "if now - gm_startTime s \<le> c_tarsAdminRefreshInitTime then t = s else
     \<exists>gone.
       (\<forall>n. n |\<in>| gone \<longleftrightarrow>
          (\<exists>gi. getGroupInfo g s = Some gi \<and> n |\<in>| fmdom (gi_nodeInfos gi)) \<and>
          (case queryNodeService g n s of None \<Rightarrow> True | Some ns \<Rightarrow> u ns)) \<and>
       rel_option (\<lambda>gi gi'. gi_groupID gi' = g \<and> gi_nodeInfos gi' = fmdrop_fset gone (gi_nodeInfos gi))
         (getGroupInfo g s) (getGroupInfo g t) \<and>
       fmlookup (gm_nodeServiceList t) g =
         (case fmlookup (gm_nodeServiceList s) g of None \<Rightarrow> None
          | Some m \<Rightarrow> if fmdrop_fset gone m = fmempty then None else Some (fmdrop_fset gone m)) \<and>
       (\<forall>n. queryNodeService g n t =
          (case queryNodeService g n s of None \<Rightarrow> None | Some ns \<Rightarrow> if u ns then None else Some ns)) \<and>
       (fmlookup (gm_nodesWithLatest t) g, fmlookup (gm_groupBlockInfos t) g) =
         (if gone = {||} then (fmlookup (gm_nodesWithLatest s) g, fmlookup (gm_groupBlockInfos s) g)
          else case (fmlookup (gm_nodesWithLatest s) g, fmlookup (gm_groupBlockInfos s) g) of
              (Some X, Some b) \<Rightarrow> if X |-| gone = {||} then (None, None) else (Some (X |-| gone), Some b)
            | _ \<Rightarrow> (None, None))"
proof (cases "tick_time now s")
  case False
  then show ?thesis
    using updateGroupStatus_idle [OF False] by (simp add: t tick_time_def not_less)
next
  case True
  have wf: "gm_wf s" by (rule gm.run_inv [OF assms(2)])
  note tab = updateGroupStatus_tables [OF assms(1) wf True, where u = u and g = g, folded t]
  have "n |\<in>| gone_nodes u s g \<longleftrightarrow>
          (\<exists>gi. getGroupInfo g s = Some gi \<and> n |\<in>| fmdom (gi_nodeInfos gi)) \<and>
          (case queryNodeService g n s of None \<Rightarrow> True | Some ns \<Rightarrow> u ns)" for n
    by (auto simp: gone_nodes_def getGroupInfo_def node_gone_query split: option.split)
  moreover have "queryNodeService g n t =
      (case queryNodeService g n s of None \<Rightarrow> None | Some ns \<Rightarrow> if u ns then None else Some ns)" for n
  proof -
    have "queryNodeService g n t = (if n |\<in>| gone_nodes u s g then None else queryNodeService g n s)"
      by (simp add: queryNodeService_def tab(2) drop_services_query)
    then show ?thesis
      using query_in_listed [OF wf, of g n]
      by (cases "queryNodeService g n s") (auto simp: gone_nodes_def node_gone_query)
  qed
  ultimately show ?thesis using True tab
    by (intro if_not_P [THEN iffD2] exI [of _ "gone_nodes u s g"])
      (simp_all add: tick_time_def block_info_def drop_nodes_def drop_services_def getGroupInfo_def)
qed

lemma tick_effect_witness:
  "queryNodeService ''group0'' ''node0'' (updateGroupStatus ref_group_api (\<lambda>ns. ns = ''node1'') 120001 demo_gm)
     = Some ''node0'' \<and>
   queryNodeService ''group0'' ''node1'' (updateGroupStatus ref_group_api (\<lambda>ns. ns = ''node1'') 120001 demo_gm)
     = None"
proof -
  have late: "\<not> 120001 - gm_startTime demo_gm \<le> c_tarsAdminRefreshInitTime"
    and q: "queryNodeService ''group0'' ''node0'' demo_gm = Some ''node0''"
      "queryNodeService ''group0'' ''node1'' demo_gm = Some ''node1''"
    by (simp_all add: demo_gm_value queryNodeService_def c_tarsAdminRefreshInitTime_def)
  from tick_effect [OF ref_group_api_ok demo_gm_run refl, where u = "\<lambda>ns. ns = ''node1''" and now = 120001
      and g = "''group0''"] late
  have "queryNodeService ''group0'' n (updateGroupStatus ref_group_api (\<lambda>ns. ns = ''node1'') 120001 demo_gm) =
      (case queryNodeService ''group0'' n demo_gm of None \<Rightarrow> None | Some ns \<Rightarrow> if ns = ''node1'' then None else Some ns)" for n
    by (simp only: if_False) blast
  then show ?thesis by (simp add: q)
qed

subsection \<open>The history the block-number tables stand for\<close>

definition latest_of :: "(string \<times> int) list \<Rightarrow> string fset option \<times> int option" where
  "latest_of h =
     (if h = [] then (None, None)
      else let m = Max (snd ` set h)
           in (Some (fset_of_list (map fst (filter (\<lambda>p. snd p = m) h))), if 0 < m then Some m else None))"

lemma latest_of_snoc:
  assumes "\<And>p. p \<in> set h \<Longrightarrow> 0 \<le> snd p" and "0 \<le> b"
  shows "latest_of (h @ [(n, b)]) = note_block n b (latest_of h)"
proof (cases "h = []")
  case True
  then show ?thesis by (simp add: latest_of_def note_block_def)
next
  case False
  define m where "m = Max (snd ` set h)"
  have fin: "finite (snd ` set h)" and ne: "snd ` set h \<noteq> {}" using False by simp_all
  have m0: "0 \<le> m"
    using Max_in [OF fin ne] assms(1) by (auto simp: m_def)
  have le: "\<And>p. p \<in> set h \<Longrightarrow> snd p \<le> m"
    by (simp add: m_def)
  have new: "Max (snd ` set (h @ [(n, b)])) = max b m"
    using Max_insert [OF fin ne, of b] by (simp add: m_def)
  have h: "latest_of h = (Some (fset_of_list (map fst (filter (\<lambda>p. snd p = m) h))), if 0 < m then Some m else None)"
    using False by (simp add: latest_of_def Let_def m_def)
  have l: "latest_of (h @ [(n, b)]) = (Some (fset_of_list (map fst (filter (\<lambda>p. snd p = max b m) (h @ [(n, b)])))),
      if 0 < max b m then Some (max b m) else None)"
    using new by (simp add: latest_of_def Let_def)
  consider "b < m" | "m < b" | "b = m" by linarith
  then show ?thesis
  proof cases
    case 1
    with m0 assms(2) show ?thesis by (simp add: h l note_block_def)
  next
    case 2
    then have "filter (\<lambda>p. snd p = b) h = []"
      using le by (fastforce simp: filter_empty_conv)
    with 2 m0 show ?thesis by (simp add: h l note_block_def)
  next
    case 3
    with m0 show ?thesis unfolding l h by (simp add: note_block_def)
  qed
qed

definition notes_of :: "string \<Rightarrow> (string \<times> string \<times> int) list \<Rightarrow> (string \<times> int) list" where
  "notes_of g evs = map snd (filter (\<lambda>e. fst e = g) evs)"

lemma block_history:
  assumes "\<And>e. e \<in> set evs \<Longrightarrow> 0 \<le> snd (snd e)"
  shows "block_info (fold (\<lambda>(g, n, b). updateGroupBlockInfo g n b) evs (new_gm chain now)) g =
           latest_of (notes_of g evs)"
  using assms
proof (induction evs rule: rev_induct)
  case Nil
  show ?case by (simp add: block_info_def new_gm_def latest_of_def notes_of_def)
next
  case (snoc e evs)
  obtain g' n b where e: "e = (g', n, b)" by (metis prod_cases3)
  with snoc.prems [of e] have "0 \<le> b" by simp
  moreover have "0 \<le> snd p" if "p \<in> set (notes_of g evs)" for p
    using that snoc.prems by (auto simp: notes_of_def)
  ultimately have "latest_of (notes_of g evs @ [(n, b)]) = note_block n b (latest_of (notes_of g evs))"
    by (intro latest_of_snoc)
  with snoc.IH snoc.prems e show ?case
    by (simp add: updateGroupBlockInfo_info) (auto simp: notes_of_def)
qed

text \<open>
  C9: after any sequence of block notifications with numbers from 0 on, the nodes recorded
  for a group are those that reported the largest number of that group, and this number is
  what \<^theory_text>\<open>getBlockNumberByGroup\<close> returns, except that a group whose nodes are all at block 0
  has the answer \<open>-1\<close> of an unknown group.
\<close>

theorem latest_block_history:
  assumes "\<forall>(g, n, b) \<in> set evs. 0 \<le> b"
    and s: "s = fold (\<lambda>(g, n, b). updateGroupBlockInfo g n b) evs (new_gm chain now)"
    and h: "h = map snd (filter (\<lambda>e. fst e = g) evs)"
  shows "fmlookup (gm_nodesWithLatest s) g =
           (if h = [] then None
            else Some (fset_of_list (map fst (filter (\<lambda>p. snd p = Max (snd ` set h)) h)))) \<and>
         getBlockNumberByGroup g s =
           (if h = [] \<or> Max (snd ` set h) = 0 then -1 else Max (snd ` set h))"
proof -
  have "0 \<le> snd (snd e)" if "e \<in> set evs" for e
    using that assms(1) by auto
  then have "block_info s g = latest_of h"
    unfolding s h by (rule block_history [unfolded notes_of_def])
  moreover have "0 \<le> Max (snd ` set h)" if "h \<noteq> []"
    using Max_in [of "snd ` set h"] that assms(1) by (fastforce simp: h)
  ultimately show ?thesis
    by (cases "h = []") (auto simp: block_info_def latest_of_def Let_def getBlockNumberByGroup_def)
qed

lemma latest_block_history_witness:
  "getBlockNumberByGroup ''g'' (fold (\<lambda>(g, n, b). updateGroupBlockInfo g n b)
     [(''g'', ''a'', 3), (''h'', ''a'', 9), (''g'', ''b'', 5), (''g'', ''c'', 4)] (new_gm ''c'' 0 :: string gm)) = 5"
  using latest_block_history [OF _ refl refl, where 'a = string and g = "''g''" and chain = "''c''" and now = 0 and
      evs = "[(''g'', ''a'', 3), (''h'', ''a'', 9), (''g'', ''b'', 5), (''g'', ''c'', 4)]"]
  by simp

subsection \<open>Announcements and the choice of a node\<close>

lemma update_node_query:
  assumes g: "fmlookup (gm_groupInfos s) g \<noteq> None" and n: "gm_hasNotifier s"
    and r: "updateNodeServiceWithoutLock A build g ni s = (r, t)"
  shows "r = None \<and> gm_hasNotifier t \<and> gm_chainID t = gm_chainID s \<and>
         fmlookup (gm_groupInfos t) g \<noteq> None \<and>
         (\<forall>g' k. queryNodeService g' k t =
            (if g' = g \<and> k = ni_nodeName ni \<and> queryNodeService g k s = None
             then build (gm_chainID s) g ni else queryNodeService g' k s))"
proof -
  obtain gi where gi: "fmlookup (gm_groupInfos s) g = Some gi" using g by blast
  have h: "hasService g k s \<longleftrightarrow> queryNodeService g k s \<noteq> None" for k
    by (auto simp: hasService_def queryNodeService_def fmlookup_dom_iff split: option.split)
  show ?thesis
  proof (cases "hasService g (ni_nodeName ni) s \<or> build (gm_chainID s) g ni = None")
    case True
    with r have "r = None \<and> t = s"
      by (cases "hasService g (ni_nodeName ni) s") (simp_all add: updateNodeServiceWithoutLock_eq [OF gi])
    with True gi n h show ?thesis by auto
  next
    case False
    then obtain ns where ns: "build (gm_chainID s) g ni = Some ns" by blast
    with False r n have "r = None" and
      t: "t = (file_node A g ni ns gi s)\<lparr>gm_notified := gm_notified s @ [api_append A ni gi]\<rparr>"
      by (auto simp: updateNodeServiceWithoutLock_eq [OF gi] notify_def file_node_def addService_def)
    moreover have "queryNodeService g' k t =
        (if g' = g \<and> k = ni_nodeName ni then Some ns else queryNodeService g' k s)" for g' k
      by (auto simp: t queryNodeService_def file_node_services split: option.split)
    ultimately show ?thesis
      using False n ns h by (auto simp: file_node_def addService_def)
  qed
qed

lemma update_nodes_query:
  assumes "fmlookup (gm_groupInfos s) g \<noteq> None" and "gm_hasNotifier s"
    and "distinct (map fst xs)" and "\<And>n ni. (n, ni) \<in> set xs \<Longrightarrow> ni_nodeName ni = n"
    and "update_nodes A build g (map snd xs) s = (r, t)"
  shows "r = None \<and> (\<forall>g' k. queryNodeService g' k t =
            (case queryNodeService g' k s of Some ns \<Rightarrow> Some ns
             | None \<Rightarrow> if g' = g then Option.bind (map_of xs k) (build (gm_chainID s) g) else None))"
  using assms
proof (induction xs arbitrary: s)
  case Nil
  then show ?case by (auto split: option.split)
next
  case (Cons x xs)
  obtain n ni where x: "x = (n, ni)" by fastforce
  with Cons.prems(4) have ni: "ni_nodeName ni = n" by simp
  obtain r1 s1 where r1: "updateNodeServiceWithoutLock A build g ni s = (r1, s1)" by fastforce
  note one = update_node_query [OF Cons.prems(1,2) r1]
  then have r1n: "r1 = None" by blast
  with Cons.prems(5) r1 have rest: "update_nodes A build g (map snd xs) s1 = (r, t)"
    by (simp add: x)
  have IH: "r = None \<and> (\<forall>g' k. queryNodeService g' k t =
            (case queryNodeService g' k s1 of Some ns \<Rightarrow> Some ns
             | None \<Rightarrow> if g' = g then Option.bind (map_of xs k) (build (gm_chainID s1) g) else None))"
  proof (rule Cons.IH)
    show "fmlookup (gm_groupInfos s1) g \<noteq> None" "gm_hasNotifier s1" using one by blast+
    show "distinct (map fst xs)" using Cons.prems(3) by simp
    show "update_nodes A build g (map snd xs) s1 = (r, t)" by (rule rest)
    fix n ni assume "(n, ni) \<in> set xs" then show "ni_nodeName ni = n" using Cons.prems(4) by simp
  qed
  have xs: "map_of xs n = None"
    using Cons.prems(3) by (simp add: x map_of_eq_None_iff)
  have c: "gm_chainID s1 = gm_chainID s" using one by blast
  have one': "queryNodeService g' k s1 = (if g' = g \<and> k = n \<and> queryNodeService g k s = None
             then build (gm_chainID s) g ni else queryNodeService g' k s)" for g' k
    using one by (simp add: ni)
  have "queryNodeService g' k t = (case queryNodeService g' k s of Some ns \<Rightarrow> Some ns
       | None \<Rightarrow> if g' = g then Option.bind (map_of (x # xs) k) (build (gm_chainID s) g) else None)" for g' k
  proof (cases "g' = g \<and> k = n \<and> queryNodeService g k s = None")
    case True
    then have k: "g' = g" "k = n" and q: "queryNodeService g n s = None" by auto
    from IH one' [of g n] q show ?thesis
      by (cases "build (gm_chainID s) g ni") (simp_all add: x c xs k)
  next
    case False
    with IH one' [of g' k] show ?thesis
      by (cases "queryNodeService g' k s") (auto simp: x c)
  qed
  with IH show ?case by blast
qed

text \<open>
  C23: the first announcement of a group only records its description (and passes it to the
  notifier); no service is built for its nodes. Each later one builds a service for exactly
  the listed nodes that have none, where the factory can, and keeps every service there is;
  services of other groups are untouched and nothing is thrown.
\<close>

theorem announcement_builds:
  assumes wf: "group_wf gi" and "gm_hasNotifier s"
    and r: "updateGroupInfo A build gi s = (r, t)"
  shows "r = None \<and>
     (if getGroupInfo (gi_groupID gi) s = None
      then getGroupInfo (gi_groupID gi) t = Some gi \<and> queryNodeService g n t = queryNodeService g n s \<and>
           gm_notified t = gm_notified s @ [gi]
      else queryNodeService g n t =
        (case queryNodeService g n s of
           Some ns \<Rightarrow> Some ns
         | None \<Rightarrow> if g = gi_groupID gi
                   then Option.bind (fmlookup (gi_nodeInfos gi) n) (build (gm_chainID s) g) else None))"
proof (cases "fmlookup (gm_groupInfos s) (gi_groupID gi)")
  case None
  with assms(2) r show ?thesis
    by (auto simp: updateGroupInfo_def notify_def getGroupInfo_def queryNodeService_def fmlookup_None_iff)
next
  case (Some gi0)
  then have "update_nodes A build (gi_groupID gi) (map snd (fmap_list (gi_nodeInfos gi))) s = (r, t)"
    using r by (simp add: updateGroupInfo_def fmdomI)
  note upd = this
  have nm: "ni_nodeName ni = n" if "(n, ni) \<in> set (fmap_list (gi_nodeInfos gi))" for n ni
    using that wf by (auto dest: group_wfD)
  have "r = None \<and> (\<forall>g' k. queryNodeService g' k t =
            (case queryNodeService g' k s of Some ns \<Rightarrow> Some ns
             | None \<Rightarrow> if g' = gi_groupID gi
                then Option.bind (fmlookup (gi_nodeInfos gi) k) (build (gm_chainID s) (gi_groupID gi)) else None))"
    using update_nodes_query [OF _ assms(2) _ nm upd, unfolded map_of_fmap_list] Some by simp
  with Some show ?thesis
    by (auto simp: getGroupInfo_def split: option.split)
qed

lemma announcement_builds_witness:
  "queryNodeService ''group0'' ''node1''
     (snd (updateGroupInfo ref_group_api demo_build demo_group
        (registerGroupInfoNotifier (new_gm ''chain0'' 0)))) = None \<and>
   queryNodeService ''group0'' ''node1'' demo_gm = Some ''node1''"
proof -
  let ?s = "registerGroupInfoNotifier (new_gm ''chain0'' 0) :: string gm"
  obtain r t where 1: "updateGroupInfo ref_group_api demo_build demo_group ?s = (r, t)" by fastforce
  obtain r' t' where 2: "updateGroupInfo ref_group_api demo_build demo_group t = (r', t')" by fastforce
  have n: "gm_hasNotifier t"
    using 1 by (auto simp: gm_eval)
  have "getGroupInfo ''group0'' t = Some demo_group \<and> queryNodeService ''group0'' ''node1'' t = None"
    using announcement_builds [OF demo_group_wf _ 1, of "''group0''" "''node1''"]
    by (simp add: registerGroupInfoNotifier_def new_gm_def getGroupInfo_def queryNodeService_def demo_group_def)
  moreover from this announcement_builds [OF demo_group_wf n 2, of "''group0''" "''node1''"]
  have "queryNodeService ''group0'' ''node1'' t' = Some ''node1''"
    by (simp add: demo_group_def demo_build_def demo_node_def)
  ultimately show ?thesis
    using 1 2 by (simp add: demo_gm_def)
qed

lemma first_service_Some:
  "first_service m nis = Some ns \<Longrightarrow> \<exists>ni \<in> set nis. fmlookup m (ni_nodeName ni) = Some ns"
  by (induction m nis rule: first_service.induct) (auto split: option.splits)

lemma first_service_None:
  "first_service m nis = None \<longleftrightarrow> (\<forall>ni \<in> set nis. fmlookup m (ni_nodeName ni) = None)"
  by (induction m nis rule: first_service.induct) (auto split: option.splits)

lemma selectNodeRandomly_Some:
  "selectNodeRandomly g s = Some ns \<Longrightarrow> \<exists>n. queryNodeService g n s = Some ns"
  by (auto simp: selectNodeRandomly_def queryNodeService_def dest: first_service_Some split: option.splits)

lemma selectNodeRandomly_None:
  assumes wf: "gm_wf s"
  shows "selectNodeRandomly g s = None \<longleftrightarrow> (\<forall>n. queryNodeService g n s = None)"
proof
  assume none: "selectNodeRandomly g s = None"
  show "\<forall>n. queryNodeService g n s = None"
  proof (rule ccontr)
    assume "\<not> (\<forall>n. queryNodeService g n s = None)"
    then obtain n ns where q: "queryNodeService g n s = Some ns" by auto
    then obtain m where m: "fmlookup (gm_nodeServiceList s) g = Some m" "fmlookup m n = Some ns"
      by (auto simp: queryNodeService_def split: option.split_asm)
    from query_in_listed [OF wf q] obtain gi ni where
      gi: "fmlookup (gm_groupInfos s) g = Some gi" "fmlookup (gi_nodeInfos gi) n = Some ni"
      by (auto simp: fmlookup_dom_iff)
    have "ni_nodeName ni = n"
      using groups_okD [of s g gi] wf gi group_wfD by (auto simp: gm_wf_def)
    moreover have "ni \<in> snd ` set (fmap_list (gi_nodeInfos gi))"
      by (rule image_eqI [of _ _ "(n, ni)"]) (use gi(2) in simp_all)
    ultimately show False
      using none m gi by (auto simp: selectNodeRandomly_def first_service_None)
  qed
next
  assume none: "\<forall>n. queryNodeService g n s = None"
  show "selectNodeRandomly g s = None"
    using selectNodeRandomly_Some [of g s] none by (cases "selectNodeRandomly g s") auto
qed

text \<open>
  C22: a request that names a node gets that node's service or nothing. A request that names
  none gets the service of a node that has the group's latest block, whatever the random
  number; when no such node is recorded it gets some service of the group, and nothing only
  if the group has none.
\<close>

theorem node_choice:
  assumes "run (gm_step A) (new_gm chain now) es s"
  shows "(n \<noteq> '''' \<longrightarrow> getNodeService rnd g n s = queryNodeService g n s) \<and>
         (\<forall>X. fmlookup (gm_nodesWithLatest s) g = Some X \<and> '''' |\<notin>| X \<longrightarrow>
            (\<exists>k. k |\<in>| X \<and> getNodeService rnd g '''' s = queryNodeService g k s)) \<and>
         (fmlookup (gm_nodesWithLatest s) g = None \<longrightarrow>
            (case getNodeService rnd g '''' s of
               Some ns \<Rightarrow> \<exists>k. queryNodeService g k s = Some ns
             | None \<Rightarrow> \<forall>k. queryNodeService g k s = None))"
proof (intro conjI allI impI)
  have wf: "gm_wf s" by (rule gm.run_inv [OF assms])
  {
    assume "n \<noteq> ''''"
    then show "getNodeService rnd g n s = queryNodeService g n s"
      by (simp add: getNodeService_def)
  next
    fix X assume "fmlookup (gm_nodesWithLatest s) g = Some X \<and> '''' |\<notin>| X"
    then have X: "fmlookup (gm_nodesWithLatest s) g = Some X" "'''' |\<notin>| X" by auto
    with wf have "X \<noteq> {||}"
      by (auto simp: gm_wf_def entry_ok_def block_info_def)
    then have "0 < fcard X" by (metis fcard_0_eq gr0I)
    then have "fset_list X ! (rnd mod fcard X) \<in> set (fset_list X)"
      by (intro nth_mem) simp
    with X \<open>X \<noteq> {||}\<close> have sel: "selectNodeByBlockNumber rnd g s |\<in>| X"
      by (simp add: selectNodeByBlockNumber_def)
    with X(2) have "selectNodeByBlockNumber rnd g s \<noteq> ''''" by auto
    with sel show "\<exists>k. k |\<in>| X \<and> getNodeService rnd g '''' s = queryNodeService g k s"
      by (intro exI [of _ "selectNodeByBlockNumber rnd g s"])
        (simp add: getNodeService_def selectNode_def Let_def)
  next
    assume "fmlookup (gm_nodesWithLatest s) g = None"
    then have "getNodeService rnd g '''' s = selectNodeRandomly g s"
      by (simp add: getNodeService_def selectNode_def selectNodeByBlockNumber_def)
    then show "case getNodeService rnd g '''' s of
               Some ns \<Rightarrow> \<exists>k. queryNodeService g k s = Some ns
             | None \<Rightarrow> \<forall>k. queryNodeService g k s = None"
      using selectNodeRandomly_Some [of g s] selectNodeRandomly_None [OF wf, of g]
      by (auto split: option.split)
  }
qed

lemma node_choice_witness:
  "getNodeService 7 ''group0'' ''node0'' demo_gm = Some ''node0'' \<and>
   getNodeService 7 ''group0'' '''' demo_gm \<noteq> None"
proof -
  have "getNodeService 7 ''group0'' ''node0'' demo_gm = queryNodeService ''group0'' ''node0'' demo_gm"
    and "case getNodeService 7 ''group0'' '''' demo_gm of
               Some ns \<Rightarrow> \<exists>k. queryNodeService ''group0'' k demo_gm = Some ns
             | None \<Rightarrow> \<forall>k. queryNodeService ''group0'' k demo_gm = None"
    using node_choice [OF demo_gm_run, of "''node0''" 7 "''group0''"] by (simp_all add: demo_gm_value)
  moreover have "queryNodeService ''group0'' ''node0'' demo_gm = Some ''node0''"
    by (simp add: demo_gm_value queryNodeService_def)
  ultimately show ?thesis
    by (auto split: option.split_asm)
qed

end
