(* ===== verification/GroupManagerTicks.thy ===== *)
theory GroupManagerTicks
  imports GroupManagerProps
begin

text \<open>
  Status ticks that other operations run between. \<^theory_text>\<open>updateGroupStatus\<close> takes the lock of the
  services and gives it back three times: to find the unreachable nodes and unlist them, to remove
  their services, and to forget them in the block-number tables. Announcements and block
  notifications may come between the three. \<open>ticking\<close> is the group manager with the ticks under
  way, each with the list of nodes its check condemned; a tick of \<open>gm_step\<close> is one without
  anything between.
\<close>

datatype tick_stage =
    Checked "(string, string fset) fmap"
  | Removed "(string, string fset) fmap"

record 'ns ticking =
  tk_gm :: "'ns gm"
  tk_ticks :: "tick_stage list"

definition new_ticking :: "string \<Rightarrow> 64 word \<Rightarrow> 'ns ticking" where
  "new_ticking chain now = \<lparr>tk_gm = new_gm chain now, tk_ticks = []\<rparr>"

text \<open>The beginning of \<^theory_text>\<open>updateGroupStatus\<close>, up to the end of the check; \<open>None\<close> is an early return.\<close>

definition tick_check ::
  "group_api \<Rightarrow> ('ns \<Rightarrow> bool) \<Rightarrow> 64 word \<Rightarrow> 'ns gm \<Rightarrow> (string, string fset) fmap option \<times> 'ns gm" where
  "tick_check A unreach now s =
     (if now - gm_startTime s \<le> c_tarsAdminRefreshInitTime then (None, s)
      else let (s1, bad) = checkNodeStatus A unreach s
           in (if fcard (fmdom bad) = 0 then None else Some bad, s1))"

lemma updateGroupStatus_parts:
  "updateGroupStatus A u now s =
     (case tick_check A u now s of
        (None, s1) \<Rightarrow> s1
      | (Some bad, s1) \<Rightarrow> removeGroupBlockInfo bad (removeUnreachableNodeService bad s1))"
  by (simp add: updateGroupStatus_def tick_check_def split: prod.split)

datatype 'ns tick_event =
    Whole "'ns gm_event"
  | TickChecks "64 word" "'ns \<Rightarrow> bool"
  | TickRemoves nat
  | TickForgets nat

inductive tick_step :: "group_api \<Rightarrow> 'ns ticking \<Rightarrow> 'ns tick_event \<Rightarrow> 'ns ticking \<Rightarrow> bool" for A where
  whole: "gm_step A (tk_gm s) e t \<Longrightarrow> tick_step A s (Whole e) (s\<lparr>tk_gm := t\<rparr>)"
| tick_returns: "group_api_ok A \<Longrightarrow> tick_check A u now (tk_gm s) = (None, t) \<Longrightarrow>
     tick_step A s (TickChecks now u) (s\<lparr>tk_gm := t\<rparr>)"
| tick_checks: "group_api_ok A \<Longrightarrow> tick_check A u now (tk_gm s) = (Some bad, t) \<Longrightarrow>
     tick_step A s (TickChecks now u) \<lparr>tk_gm = t, tk_ticks = tk_ticks s @ [Checked bad]\<rparr>"
| tick_removes: "i < length (tk_ticks s) \<Longrightarrow> tk_ticks s ! i = Checked bad \<Longrightarrow>
     tick_step A s (TickRemoves i)
       \<lparr>tk_gm = removeUnreachableNodeService bad (tk_gm s), tk_ticks = (tk_ticks s)[i := Removed bad]\<rparr>"
| tick_forgets: "i < length (tk_ticks s) \<Longrightarrow> tk_ticks s ! i = Removed bad \<Longrightarrow>
     tick_step A s (TickForgets i)
       \<lparr>tk_gm = removeGroupBlockInfo bad (tk_gm s), tk_ticks = take i (tk_ticks s) @ drop (Suc i) (tk_ticks s)\<rparr>"

inductive_cases tick_step_cases: "tick_step A s e t"

text \<open>A run of whole operations is a run.\<close>

lemma whole_run:
  assumes "run (gm_step A) s es t"
  shows "run (tick_step A) \<lparr>tk_gm = s, tk_ticks = ts\<rparr> (map Whole es) \<lparr>tk_gm = t, tk_ticks = ts\<rparr>"
  using assms
proof (induction rule: run.induct)
  case (run_snoc es t e u)
  then show ?case using whole [of A "\<lparr>tk_gm = t, tk_ticks = ts\<rparr>" e u]
    by (auto intro: run.run_snoc)
qed (simp add: run_nil)

subsection \<open>The invariant between the parts\<close>

text \<open>The nodes of a group whose services some tick is still to remove.\<close>

fun condemned_by :: "tick_stage \<Rightarrow> string \<Rightarrow> string fset" where
  "condemned_by (Checked bad) g = condemned bad g"
| "condemned_by (Removed bad) g = {||}"

fun awaiting :: "tick_stage list \<Rightarrow> string \<Rightarrow> string fset" where
  "awaiting [] g = {||}"
| "awaiting (t # ts) g = condemned_by t g |\<union>| awaiting ts g"

lemma awaiting_append [simp]: "awaiting (xs @ ys) g = awaiting xs g |\<union>| awaiting ys g"
  by (induction xs) auto

lemma awaiting_at:
  assumes "i < length ts"
  shows "awaiting ts g = awaiting (take i ts) g |\<union>| condemned_by (ts ! i) g |\<union>| awaiting (drop (Suc i) ts) g"
proof -
  have "awaiting ts g = awaiting (take i ts @ ts ! i # drop (Suc i) ts) g"
    by (simp only: id_take_nth_drop [OF assms, symmetric])
  then show ?thesis by (simp add: funion_assoc)
qed

lemma gm_within_mono:
  assumes "gm_within B s" and "\<And>g. B g |\<subseteq>| B' g" shows "gm_within B' s"
proof -
  have "services_within B' s"
  proof (rule services_withinI)
    fix g m assume m: "fmlookup (gm_nodeServiceList s) g = Some m"
    from assms(1) have "services_within B s" by (simp add: gm_within_def)
    from services_withinD [OF this m] assms(2) [of g] show "m \<noteq> fmempty \<and>
        (\<exists>gi. fmlookup (gm_groupInfos s) g = Some gi \<and> fmdom m |\<subseteq>| fmdom (gi_nodeInfos gi) |\<union>| B' g)"
      by blast
  qed
  with assms(1) show ?thesis by (simp add: gm_within_def)
qed

definition ticking_ok :: "'ns ticking \<Rightarrow> bool" where
  "ticking_ok s \<longleftrightarrow> gm_within (awaiting (tk_ticks s)) (tk_gm s)"

lemma tick_check_within:
  assumes A: "group_api_ok A" and wf: "gm_within B s" and c: "tick_check A u now s = (r, t)"
  shows "gm_within (\<lambda>g. B g |\<union>| (case r of None \<Rightarrow> {||} | Some bad \<Rightarrow> condemned bad g)) t"
proof (cases "now - gm_startTime s \<le> c_tarsAdminRefreshInitTime")
  case True
  with c wf show ?thesis by (auto simp: tick_check_def)
next
  case False
  obtain s1 bad where s1: "checkNodeStatus A u s = (s1, bad)" by fastforce
  have w: "gm_within (\<lambda>g. B g |\<union>| condemned bad g) s1"
    by (rule checkNodeStatus_within [OF A wf s1])
  show ?thesis
  proof (cases "fmdom bad = {||}")
    case True
    then have "condemned bad g = {||}" for g
      using fmdom_notI [of bad g] by (cases "fmlookup bad g") (auto simp: condemned_def dest: fmdomI)
    with w True False c s1 show ?thesis by (auto simp: tick_check_def)
  next
    case nonempty: False
    with w False c s1 show ?thesis by (auto simp: tick_check_def)
  qed
qed

interpretation ticks: step_invariant "tick_step A" "new_ticking chain now" ticking_ok for A chain now
proof
  show "ticking_ok (new_ticking chain now)"
    by (simp add: ticking_ok_def new_ticking_def new_gm_within)
  fix s t :: "'a ticking" and e
  assume ok: "ticking_ok s" and "tick_step A s e t"
  from this(2) show "ticking_ok t"
  proof (rule tick_step_cases)
    fix e' t' assume "t = s\<lparr>tk_gm := t'\<rparr>" "gm_step A (tk_gm s) e' t'"
    with ok show ?thesis by (simp add: ticking_ok_def gm_step_within)
  next
    fix u now' t' assume "t = s\<lparr>tk_gm := t'\<rparr>" "group_api_ok A" "tick_check A u now' (tk_gm s) = (None, t')"
    with ok tick_check_within [of A "awaiting (tk_ticks s)" "tk_gm s" u now' None t'] show ?thesis
      by (simp add: ticking_ok_def)
  next
    fix u now' bad t'
    assume "t = \<lparr>tk_gm = t', tk_ticks = tk_ticks s @ [Checked bad]\<rparr>" "group_api_ok A"
      "tick_check A u now' (tk_gm s) = (Some bad, t')"
    moreover have "awaiting (tk_ticks s @ [Checked bad]) = (\<lambda>g. awaiting (tk_ticks s) g |\<union>| condemned bad g)"
      by (simp add: fun_eq_iff)
    ultimately show ?thesis
      using ok tick_check_within [of A "awaiting (tk_ticks s)" "tk_gm s" u now' "Some bad" t']
      by (simp add: ticking_ok_def)
  next
    fix i bad
    assume t: "t = \<lparr>tk_gm = removeUnreachableNodeService bad (tk_gm s), tk_ticks = (tk_ticks s)[i := Removed bad]\<rparr>"
      and i: "i < length (tk_ticks s)" "tk_ticks s ! i = Checked bad"
    have "awaiting (tk_ticks s) g |\<subseteq>| awaiting ((tk_ticks s)[i := Removed bad]) g |\<union>| condemned bad g" for g
      using awaiting_at [OF i(1), of g] awaiting_at [of i "(tk_ticks s)[i := Removed bad]" g] i by auto
    with ok have "gm_within (\<lambda>g. awaiting ((tk_ticks s)[i := Removed bad]) g |\<union>| condemned bad g) (tk_gm s)"
      by (auto simp: ticking_ok_def intro: gm_within_mono)
    then show ?thesis
      by (simp add: ticking_ok_def t removeUnreachableNodeService_within)
  next
    fix i bad
    assume t: "t = \<lparr>tk_gm = removeGroupBlockInfo bad (tk_gm s), tk_ticks = take i (tk_ticks s) @ drop (Suc i) (tk_ticks s)\<rparr>"
      and i: "i < length (tk_ticks s)" "tk_ticks s ! i = Removed bad"
    have "awaiting (tk_ticks s) = awaiting (take i (tk_ticks s) @ drop (Suc i) (tk_ticks s))"
      using awaiting_at [OF i(1)] i(2) by (simp add: fun_eq_iff)
    with ok show ?thesis
      by (simp add: ticking_ok_def t removeGroupBlockInfo_within)
  qed
qed

subsection \<open>Property: what holds between the parts\<close>

text \<open>
  C8: whatever announcements and block notifications come between the parts of status ticks,
  in every state a group is filed under its id, a node that has a service is
  listed under its name in the description of its group unless a tick under way has condemned it
  and is still to remove the service, and the block number reported for a group is \<open>-1\<close> or a
  positive number that a recorded node has reached.
\<close>

theorem ticks_reachable:
  assumes "run (tick_step A) (new_ticking chain now) es s"
  shows "(queryNodeService g n (tk_gm s) = Some ns \<longrightarrow>
           (\<exists>gi. getGroupInfo g (tk_gm s) = Some gi \<and> gi_groupID gi = g \<and>
              (n |\<in>| awaiting (tk_ticks s) g \<or>
               (\<exists>ni. fmlookup (gi_nodeInfos gi) n = Some ni \<and> ni_nodeName ni = n)))) \<and>
         (getBlockNumberByGroup g (tk_gm s) \<noteq> -1 \<longrightarrow> 0 < getBlockNumberByGroup g (tk_gm s) \<and>
           (\<exists>X. fmlookup (gm_nodesWithLatest (tk_gm s)) g = Some X \<and>
              selectNodeByBlockNumber rnd g (tk_gm s) |\<in>| X))"
proof -
  have wf: "gm_within (awaiting (tk_ticks s)) (tk_gm s)"
    using ticks.run_inv [OF assms] by (simp add: ticking_ok_def)
  show ?thesis
    using within_query [OF wf, of g n ns] within_block_number [OF wf, of g rnd] by simp
qed

lemma tick_check_services:
  "tick_check A u now s = (r, t) \<Longrightarrow> gm_nodeServiceList t = gm_nodeServiceList s"
  using checkNodeStatus_frame(1) [of A u s] by (auto simp: tick_check_def split: if_split_asm prod.split_asm)

text \<open>A tick has found \<open>node1\<close> unreachable and has not removed its service yet.\<close>

lemma ticks_reachable_witness:
  "\<exists>s. run (tick_step ref_group_api) (new_ticking ''chain0'' 0)
      (map Whole [RegisterNotifier, Announce demo_group demo_build, Announce demo_group demo_build] @
       [TickChecks 120001 (\<lambda>ns. ns = ''node1'')]) s \<and>
     queryNodeService ''group0'' ''node1'' (tk_gm s) = Some ''node1'' \<and>
     (\<exists>gi. getGroupInfo ''group0'' (tk_gm s) = Some gi \<and> gi_groupID gi = ''group0'' \<and>
        (''node1'' |\<in>| awaiting (tk_ticks s) ''group0'' \<or>
         (\<exists>ni. fmlookup (gi_nodeInfos gi) ''node1'' = Some ni \<and> ni_nodeName ni = ''node1'')))"
proof -
  let ?s = "\<lparr>tk_gm = demo_gm, tk_ticks = []\<rparr>" and ?u = "\<lambda>ns. ns = ''node1''"
  obtain r t where c: "tick_check ref_group_api ?u 120001 demo_gm = (r, t)" by fastforce
  have "\<exists>s. tick_step ref_group_api ?s (TickChecks 120001 ?u) s \<and> tk_gm s = t"
  proof (cases r)
    case None
    with c have "tick_step ref_group_api ?s (TickChecks 120001 ?u) (?s\<lparr>tk_gm := t\<rparr>)"
      by (intro tick_returns) simp_all
    then show ?thesis by (intro exI [of _ "?s\<lparr>tk_gm := t\<rparr>"]) simp
  next
    case (Some bad)
    with c have "tick_step ref_group_api ?s (TickChecks 120001 ?u) \<lparr>tk_gm = t, tk_ticks = tk_ticks ?s @ [Checked bad]\<rparr>"
      by (intro tick_checks) simp_all
    then show ?thesis by (intro exI [of _ "\<lparr>tk_gm = t, tk_ticks = tk_ticks ?s @ [Checked bad]\<rparr>"]) simp
  qed
  then obtain s where st: "tick_step ref_group_api ?s (TickChecks 120001 ?u) s" and s: "tk_gm s = t"
    by blast
  have r1: "run (tick_step ref_group_api) \<lparr>tk_gm = new_gm ''chain0'' 0, tk_ticks = []\<rparr>
      (map Whole [RegisterNotifier, Announce demo_group demo_build, Announce demo_group demo_build]) ?s"
    by (rule whole_run [OF demo_gm_run])
  have run: "run (tick_step ref_group_api) (new_ticking ''chain0'' 0)
      (map Whole [RegisterNotifier, Announce demo_group demo_build, Announce demo_group demo_build] @
       [TickChecks 120001 ?u]) s"
    unfolding new_ticking_def by (rule run_snoc [OF r1, OF st])
  have q: "queryNodeService ''group0'' ''node1'' (tk_gm s) = Some ''node1''"
    by (simp add: s queryNodeService_def tick_check_services [OF c]) (simp add: demo_gm_value)
  show ?thesis
    by (rule exI [of _ s], intro conjI, rule run, rule q,
      rule mp [OF conjunct1 [OF ticks_reachable [OF run]]], rule q)
qed

subsection \<open>A node that starts during a tick\<close>

text \<open>The parts of a tick keep the chain's id and the notifier.\<close>

lemma removals_frame [frame]:
  "gm_chainID (removeUnreachableNodeService bad s) = gm_chainID s"
  "gm_hasNotifier (removeUnreachableNodeService bad s) = gm_hasNotifier s"
  "gm_chainID (removeGroupBlockInfo bad s) = gm_chainID s"
  "gm_hasNotifier (removeGroupBlockInfo bad s) = gm_hasNotifier s"
proof -
  have 1: "gm_chainID (remove_services gb s) = gm_chainID s \<and> gm_hasNotifier (remove_services gb s) = gm_hasNotifier s"
    "gm_chainID (remove_block_info gb s) = gm_chainID s \<and> gm_hasNotifier (remove_block_info gb s) = gm_hasNotifier s"
    for gb and s :: "'a gm"
    by (auto simp: remove_services_def remove_block_info_def Let_def split: prod.split option.split)
  have "gm_chainID (removeUnreachableNodeService bad s) = gm_chainID s \<and>
      gm_hasNotifier (removeUnreachableNodeService bad s) = gm_hasNotifier s"
    unfolding removeUnreachableNodeService_def by (rule fold_keeps) (simp_all add: 1)
  moreover have "gm_chainID (removeGroupBlockInfo bad s) = gm_chainID s \<and>
      gm_hasNotifier (removeGroupBlockInfo bad s) = gm_hasNotifier s"
    unfolding removeGroupBlockInfo_def by (rule fold_keeps) (simp_all add: 1)
  ultimately show "gm_chainID (removeUnreachableNodeService bad s) = gm_chainID s"
    "gm_hasNotifier (removeUnreachableNodeService bad s) = gm_hasNotifier s"
    "gm_chainID (removeGroupBlockInfo bad s) = gm_chainID s"
    "gm_hasNotifier (removeGroupBlockInfo bad s) = gm_hasNotifier s"
    by simp_all
qed

lemma removed_query:
  "n |\<in>| condemned bad g \<Longrightarrow> queryNodeService g n (removeUnreachableNodeService bad s) = None"
  by (cases "fmlookup bad g"; cases "fmlookup (gm_nodeServiceList s) g")
    (auto simp: queryNodeService_def removeUnreachableNodeService_spec condemned_def)

lemma gm_within_unserved:
  assumes "gm_within W s" and "queryNodeService g n s = None"
  shows "gm_within (\<lambda>g'. W g' |-| (if g' = g then {|n|} else {||})) s"
proof -
  from assms(1) have sv: "services_within W s" by (simp add: gm_within_def)
  have "services_within (\<lambda>g'. W g' |-| (if g' = g then {|n|} else {||})) s"
  proof (rule services_withinI)
    fix g' m assume m: "fmlookup (gm_nodeServiceList s) g' = Some m"
    have "g' = g \<Longrightarrow> n |\<notin>| fmdom m"
      using assms(2) m by (simp add: queryNodeService_def fmlookup_None_iff)
    with services_withinD [OF sv m] show "m \<noteq> fmempty \<and> (\<exists>gi. fmlookup (gm_groupInfos s) g' = Some gi \<and>
        fmdom m |\<subseteq>| fmdom (gi_nodeInfos gi) |\<union>| (W g' |-| (if g' = g then {|n|} else {||})))"
      by (cases "g' = g") auto
  qed
  with assms(1) show ?thesis by (simp add: gm_within_def)
qed

lemma checkNodeStatus_chain:
  assumes "checkNodeStatus A u s = (s', bad)" shows "gm_chainID s' = gm_chainID s"
proof -
  have "gm_chainID (fst (checkNodeStatus A u s)) = gm_chainID s"
    unfolding checkNodeStatus_def
    by (rule fold_keeps [where P = "\<lambda>sb. gm_chainID (fst sb) = gm_chainID s"])
      (auto simp: check_step_def Let_def notify_def split: prod.splits)
  with assms show ?thesis by simp
qed

lemma announce_query:
  assumes wf: "group_wf gi" and "gm_hasNotifier s" and known: "getGroupInfo (gi_groupID gi) s \<noteq> None"
    and "queryNodeService (gi_groupID gi) n s = None" and "fmlookup (gi_nodeInfos gi) n = Some ni"
    and "build (gm_chainID s) (gi_groupID gi) ni = Some ns"
  shows "queryNodeService (gi_groupID gi) n (snd (updateGroupInfo A build gi s)) = Some ns"
proof -
  obtain r t where r: "updateGroupInfo A build gi s = (r, t)" by fastforce
  have nm: "ni_nodeName ni = n" if "(n, ni) \<in> set (fmap_list (gi_nodeInfos gi))" for n ni
    using that wf by (auto dest: group_wfD)
  have "update_nodes A build (gi_groupID gi) (map snd (fmap_list (gi_nodeInfos gi))) s = (r, t)"
    using r known by (auto simp: updateGroupInfo_def getGroupInfo_def fmlookup_None_iff)
  from update_nodes_query [OF _ assms(2) _ nm this, unfolded map_of_fmap_list] known assms(4-6)
  show ?thesis by (simp add: r getGroupInfo_def)
qed

text \<open>
  C29: a node that is first served while a tick is under way loses its service. Take a listed node
  without a service, as the first announcement of a group leaves its nodes. If
  an announcement that can build its service comes between the check of a tick and the removal,
  the service is built, found by requests, and then removed again although the node stays
  listed. Had the same announcement come after the tick, the service would have stayed.
\<close>

theorem start_during_tick:
  assumes run: "run (tick_step A) (new_ticking chain t0) es s" and A: "group_api_ok A"
    and late: "tick_time now (tk_gm s)" and listed: "getGroupInfo g (tk_gm s) = Some gi" "n |\<in>| fmdom (gi_nodeInfos gi)"
    and none: "queryNodeService g n (tk_gm s) = None" and notifier: "gm_hasNotifier (tk_gm s)"
    and gi': "group_wf gi'" "gi_groupID gi' = g" "fmlookup (gi_nodeInfos gi') n = Some ni"
    and build: "build (gm_chainID (tk_gm s)) g ni = Some ns"
  shows "(\<exists>s1 s2 s3. tick_step A s (TickChecks now u) s1 \<and> tick_step A s1 (Whole (Announce gi' build)) s2 \<and>
            tick_step A s2 (TickRemoves (length (tk_ticks s))) s3 \<and>
            queryNodeService g n (tk_gm s2) = Some ns \<and> queryNodeService g n (tk_gm s3) = None \<and>
            (\<exists>gi''. getGroupInfo g (tk_gm s3) = Some gi'' \<and> n |\<in>| fmdom (gi_nodeInfos gi''))) \<and>
         (\<exists>t1 t2. gm_step A (tk_gm s) (Tick now u) t1 \<and> gm_step A t1 (Announce gi' build) t2 \<and>
            queryNodeService g n t2 = Some ns)"
proof
  have wf: "gm_within (awaiting (tk_ticks s)) (tk_gm s)"
    using ticks.run_inv [OF run] by (simp add: ticking_ok_def)
  then have ok: "groups_ok (tk_gm s)" by (simp add: gm_within_def)
  obtain g1 bad where g1: "checkNodeStatus A u (tk_gm s) = (g1, bad)" by fastforce
  note fr = checkNodeStatus_frame [OF g1] checkNodeStatus_chain [OF g1]
  have gone: "n |\<in>| gone_nodes u (tk_gm s) g"
    using listed none by (simp add: gone_nodes_def getGroupInfo_def node_gone_query)
  then have bad: "n |\<in>| condemned bad g" and bad': "fmlookup bad g \<noteq> None"
    using checkNodeStatus_bad [OF A ok g1, of g] by (auto simp: condemned_def)
  then have "fmdom bad \<noteq> {||}" by (metis fempty_iff fmdom_notD)
  then have check: "tick_check A u now (tk_gm s) = (Some bad, g1)"
    using late g1 by (simp add: tick_check_def tick_time_def)
  have none1: "queryNodeService g n g1 = None" using none by (simp add: queryNodeService_def fr)
  have known1: "getGroupInfo g g1 \<noteq> None"
    using checkNodeStatus_groups [OF A ok g1, of g] listed(1) by (auto simp: getGroupInfo_def option_rel_Some1)
  define g2 where "g2 = snd (updateGroupInfo A build gi' g1)"
  define s1 where "s1 = \<lparr>tk_gm = g1, tk_ticks = tk_ticks s @ [Checked bad]\<rparr>"
  define s2 where "s2 = s1\<lparr>tk_gm := g2\<rparr>"
  define s3 where "s3 = \<lparr>tk_gm = removeUnreachableNodeService bad g2,
      tk_ticks = (tk_ticks s2)[length (tk_ticks s) := Removed bad]\<rparr>"
  have q2: "queryNodeService g n g2 = Some ns"
    using announce_query [of gi' g1 n ni build ns A] gi' notifier known1 none1 build by (simp add: g2_def fr)
  let ?B = "\<lambda>g'. (awaiting (tk_ticks s) g' |\<union>| condemned bad g') |-| (if g' = g then {|n|} else {||})"
  have "gm_within ?B g1"
    by (rule gm_within_unserved [OF checkNodeStatus_within [OF A wf g1] none1])
  then have "gm_within ?B g2" unfolding g2_def by (rule updateGroupInfo_within [OF A _ gi'(1)])
  from within_query [OF this q2] have listed2: "\<exists>gi. getGroupInfo g g2 = Some gi \<and> n |\<in>| fmdom (gi_nodeInfos gi)"
    by (auto intro: fmdomI)
  show "\<exists>s1 s2 s3. tick_step A s (TickChecks now u) s1 \<and> tick_step A s1 (Whole (Announce gi' build)) s2 \<and>
            tick_step A s2 (TickRemoves (length (tk_ticks s))) s3 \<and>
            queryNodeService g n (tk_gm s2) = Some ns \<and> queryNodeService g n (tk_gm s3) = None \<and>
            (\<exists>gi''. getGroupInfo g (tk_gm s3) = Some gi'' \<and> n |\<in>| fmdom (gi_nodeInfos gi''))"
  proof (rule exI [of _ s1], rule exI [of _ s2], rule exI [of _ s3], intro conjI)
    show "tick_step A s (TickChecks now u) s1"
      unfolding s1_def by (rule tick_checks [OF A check])
    have "gm_step A (tk_gm s1) (Announce gi' build) g2"
      using announce [OF A gi'(1), of g1 build] by (simp add: s1_def g2_def)
    then show "tick_step A s1 (Whole (Announce gi' build)) s2"
      unfolding s2_def by (rule whole)
    show "tick_step A s2 (TickRemoves (length (tk_ticks s))) s3"
      using tick_removes [of "length (tk_ticks s)" s2 bad A] by (simp add: s3_def s2_def s1_def)
    show "queryNodeService g n (tk_gm s2) = Some ns" by (simp add: s2_def q2)
    show "queryNodeService g n (tk_gm s3) = None" by (simp add: s3_def removed_query [OF bad])
    show "\<exists>gi''. getGroupInfo g (tk_gm s3) = Some gi'' \<and> n |\<in>| fmdom (gi_nodeInfos gi'')"
      using listed2 by (simp add: s3_def getGroupInfo_def frame)
  qed
  define t1 where "t1 = updateGroupStatus A u now (tk_gm s)"
  have t1: "t1 = removeGroupBlockInfo bad (removeUnreachableNodeService bad g1)"
    by (simp add: t1_def updateGroupStatus_parts check)
  have "queryNodeService g n t1 = None"
    using removed_query [OF bad, of g1] by (simp add: t1 queryNodeService_def frame)
  then have "queryNodeService g n (snd (updateGroupInfo A build gi' t1)) = Some ns"
    using announce_query [of gi' t1 n ni build ns A] gi' notifier known1 build
    by (simp add: t1 frame fr getGroupInfo_def)
  then show "\<exists>t1 t2. gm_step A (tk_gm s) (Tick now u) t1 \<and> gm_step A t1 (Announce gi' build) t2 \<and>
            queryNodeService g n t2 = Some ns"
    using tick [OF A, of "tk_gm s" now u] announce [OF A gi'(1), of t1 build] unfolding t1_def by blast
qed

text \<open>A manager that has heard of the group once.\<close>

definition demo_announced :: "string gm" where
  "demo_announced = snd (updateGroupInfo ref_group_api demo_build demo_group
     (registerGroupInfoNotifier (new_gm ''chain0'' 0)))"

lemma demo_announced_value:
  "demo_announced = \<lparr>gm_chainID = ''chain0'', gm_groupInfos = fmupd ''group0'' demo_group fmempty,
     gm_nodeServiceList = fmempty, gm_nodesWithLatest = fmempty, gm_groupBlockInfos = fmempty,
     gm_startTime = 0, gm_hasNotifier = True, gm_notified = [demo_group]\<rparr>"
  by (simp add: demo_announced_def demo_group_def demo_node_def gm_eval)

lemma demo_announced_run:
  "run (gm_step ref_group_api) (new_gm ''chain0'' 0) [RegisterNotifier, Announce demo_group demo_build] demo_announced"
  unfolding demo_announced_def
  by (rule run_Cons, rule register, rule run_Cons, rule announce, simp, simp, rule run_nil)

lemma start_during_tick_witness:
  "\<exists>s1 s2 s3. tick_step ref_group_api \<lparr>tk_gm = demo_announced, tk_ticks = []\<rparr> (TickChecks 120001 (\<lambda>_. False)) s1 \<and>
     tick_step ref_group_api s1 (Whole (Announce demo_group demo_build)) s2 \<and>
     tick_step ref_group_api s2 (TickRemoves 0) s3 \<and>
     queryNodeService ''group0'' ''node0'' (tk_gm s2) = Some ''node0'' \<and>
     queryNodeService ''group0'' ''node0'' (tk_gm s3) = None"
proof -
  let ?s = "\<lparr>tk_gm = demo_announced, tk_ticks = []\<rparr>"
  have run: "run (tick_step ref_group_api) (new_ticking ''chain0'' 0)
      (map Whole [RegisterNotifier, Announce demo_group demo_build]) ?s"
    using whole_run [OF demo_announced_run] by (simp add: new_ticking_def)
  have l: "tick_time 120001 (tk_gm ?s)" "getGroupInfo ''group0'' (tk_gm ?s) = Some demo_group"
    "''node0'' |\<in>| fmdom (gi_nodeInfos demo_group)" "queryNodeService ''group0'' ''node0'' (tk_gm ?s) = None"
    "gm_hasNotifier (tk_gm ?s)" "gi_groupID demo_group = ''group0''"
    "fmlookup (gi_nodeInfos demo_group) ''node0'' = Some (demo_node ''node0'')"
    "demo_build (gm_chainID (tk_gm ?s)) ''group0'' (demo_node ''node0'') = Some ''node0''"
    by (simp_all add: demo_announced_value tick_time_def c_tarsAdminRefreshInitTime_def getGroupInfo_def
        queryNodeService_def demo_build_def) (simp_all add: demo_group_def demo_node_def)
  from start_during_tick [OF run ref_group_api_ok l(1-5) demo_group_wf l(6,7),
      where build = demo_build and u = "\<lambda>_. False" and ns = "''node0''"] l(8)
  show ?thesis by auto
qed

end
