(* ===== verification/AMOPClient.thy ===== *)
theory AMOPClient
  imports Transport
begin

text \<open>
  \<^theory_text>\<open>amop/AMOPClient.{h,cpp}\<close> and \<^theory_text>\<open>amop/LocalAMOPClient.h\<close>: topic messages between the SDK
  clients of this node and, through the gateways, those of other nodes.

  \<open>am_topicToSessions\<close> and \<open>am_topicInfos\<close> are the two maps of the class. Messages handed to
  a session, requests to a gateway and answers to a gateway's callback are appended to
  \<open>am_out\<close>; a request whose callback is still to be called is kept in \<open>am_calls\<close> with what
  the callback captured, and its answer is a step of its own. The virtual functions that
  \<^theory_text>\<open>LocalAMOPClient\<close> overrides look at \<open>am_local\<close> and come in two versions, \<open>tars_\<close> and \<open>local_\<close>.

  \<open>amop_env\<close> is what a handler sees: the topic parser and the AMOP request decoder of
  bcos-framework, the codec of the messages, the endpoints the communicator reports as
  active, the sessions' endpoints and connections, and the values of \<^theory_text>\<open>rand()\<close>. A gateway that
  answers without an error passes data along: \<^theory_text>\<open>onRecvAMOPRequest\<close> goes through that pointer
  untested, and the answer is a string here.
\<close>

record amop_env =
  ae_json :: jsoncpp
  ae_parseSubTopicsJson :: "string \<Rightarrow> string list option"  \<comment> \<open>topic names, in the container's order\<close>
  ae_requestTopic :: "string \<Rightarrow> exn + string"             \<comment> \<open>\<^theory_text>\<open>buildRequest(data)->topic()\<close>\<close>
  ae_endPoints :: "(string \<times> string) list"                \<comment> \<open>host and port of the active gateways\<close>
  ae_connected :: "session \<Rightarrow> bool"
  ae_endPoint :: "session \<Rightarrow> string"
  ae_message :: ws_message                                \<comment> \<open>\<^theory_text>\<open>buildMessage()\<close>\<close>
  ae_encode :: "ws_message \<Rightarrow> string"
  ae_decode :: "ws_message \<Rightarrow> string \<Rightarrow> exn + ws_message"   \<comment> \<open>\<^theory_text>\<open>decode\<close> into a message\<close>
  ae_rand :: "nat \<Rightarrow> nat"
  ae_notFoundClient :: int                                \<comment> \<open>\<^theory_text>\<open>NotFoundClientByTopicDispatchMsg\<close>\<close>

datatype amop_out =
    SendMessage session ws_message
  | SendRequest session ws_message                        \<comment> \<open>with \<^theory_text>\<open>Options(30000)\<close>\<close>
  | SubscribeTopic "string option" string string          \<comment> \<open>gateway, client, topic info\<close>
  | RemoveTopic "string option" string "string list"
  | GatewayUnicast string string                          \<comment> \<open>topic and data\<close>
  | GatewayBroadcast string string
  | Answer nat "rpc_error option" "string option"         \<comment> \<open>callback of a gateway's notification\<close>

datatype continuation =
    ToSession session     \<comment> \<open>the callback of \<^theory_text>\<open>trySendAMOPRequestToLocalNode\<close>\<close>
  | ToGateway nat         \<comment> \<open>the callback of the gateway's notification\<close>

datatype amop_call =
    AwaitGateway string ws_message string session         \<comment> \<open>seq, request, topic, requester\<close>
  | AwaitClient continuation

record amop =
  am_local :: bool
  am_clientID :: string
  am_gatewayServiceName :: string
  am_topicToSessions :: "(string, (string, session) fmap) fmap"
  am_topicInfos :: "(string, string) fmap"
  am_gatewayActivated :: bool
  am_detecting :: bool          \<comment> \<open>the timer \<^theory_text>\<open>m_gatewayStatusDetector\<close> is running\<close>
  am_calls :: "amop_call list"
  am_out :: "amop_out list"

definition new_amop :: "bool \<Rightarrow> string \<Rightarrow> amop" where
  "new_amop loc name =
     \<lparr>am_local = loc, am_clientID = ''localAMOP'', am_gatewayServiceName = name,
      am_topicToSessions = fmempty, am_topicInfos = fmempty, am_gatewayActivated = True, am_detecting = False,
      am_calls = [], am_out = []\<rparr>"

definition new_local_amop :: amop where
  "new_local_amop = new_amop True ''localGateway''"

definition setClientID :: "string \<Rightarrow> amop \<Rightarrow> amop" where
  "setClientID c s = s\<lparr>am_clientID := c\<rparr>"

definition emit :: "amop_out list \<Rightarrow> amop \<Rightarrow> amop" where
  "emit os s = s\<lparr>am_out := am_out s @ os\<rparr>"

definition await :: "amop_call \<Rightarrow> amop \<Rightarrow> amop" where
  "await c s = s\<lparr>am_calls := am_calls s @ [c]\<rparr>"

subsection \<open>Telling the gateways\<close>

definition generateTopicInfo :: "amop_env \<Rightarrow> amop \<Rightarrow> string" where
  "generateTopicInfo E s =
     jstyled (ae_json E)
       (JObject (jassign [(''topics'', JArray (map JString (fset_list (fmdom (am_topicInfos s)))))] fmempty))"

definition endPointToString :: "string \<Rightarrow> string \<times> string \<Rightarrow> string" where
  "endPointToString name ep = name @ ''@tcp -h '' @ fst ep @ '' -p '' @ snd ep"

definition tars_gatewayInactivated :: "amop_env \<Rightarrow> bool" where
  "tars_gatewayInactivated E \<longleftrightarrow> length (ae_endPoints E) = 0"

definition local_gatewayInactivated :: bool where
  "local_gatewayInactivated = False"

definition gatewayInactivated :: "amop_env \<Rightarrow> amop \<Rightarrow> bool" where
  "gatewayInactivated E s = (if am_local s then local_gatewayInactivated else tars_gatewayInactivated E)"

definition tars_subscribeTopic :: "amop_env \<Rightarrow> amop \<Rightarrow> amop" where
  "tars_subscribeTopic E s =
     fold (\<lambda>ep. emit [SubscribeTopic (Some (endPointToString (am_gatewayServiceName s) ep)) (am_clientID s)
                        (generateTopicInfo E s)]) (ae_endPoints E) s"

definition local_subscribeTopic :: "amop_env \<Rightarrow> amop \<Rightarrow> amop" where
  "local_subscribeTopic E s = emit [SubscribeTopic None (am_clientID s) (generateTopicInfo E s)] s"

definition subscribeTopicToAllNodes :: "amop_env \<Rightarrow> amop \<Rightarrow> amop" where
  "subscribeTopicToAllNodes E s =
     (if am_local s then local_subscribeTopic E s else tars_subscribeTopic E s)"

definition tars_removeTopic :: "amop_env \<Rightarrow> string list \<Rightarrow> amop \<Rightarrow> amop" where
  "tars_removeTopic E ts s =
     fold (\<lambda>ep. emit [RemoveTopic (Some (endPointToString (am_gatewayServiceName s) ep)) (am_clientID s) ts])
       (ae_endPoints E) s"

definition local_removeTopic :: "amop_env \<Rightarrow> string list \<Rightarrow> amop \<Rightarrow> amop" where
  "local_removeTopic E ts s = emit [RemoveTopic None (am_clientID s) ts] s"

definition removeTopicFromAllNodes :: "amop_env \<Rightarrow> string list \<Rightarrow> amop \<Rightarrow> amop" where
  "removeTopicFromAllNodes E ts s =
     (if am_local s then local_removeTopic E ts s else tars_removeTopic E ts s)"

definition asyncNotifySubscribeTopic :: "amop_env \<Rightarrow> amop \<Rightarrow> amop" where
  "asyncNotifySubscribeTopic E s = subscribeTopicToAllNodes E s"

text \<open>The timer's handler, and what starts the timer.\<close>

definition pingGatewayAndNotifyTopics :: "amop_env \<Rightarrow> amop \<Rightarrow> amop" where
  "pingGatewayAndNotifyTopics E s =
     (if length (ae_endPoints E) = 0
      then (if am_gatewayActivated s then s\<lparr>am_gatewayActivated := False\<rparr> else s)
      else if am_gatewayActivated s then s
      else (subscribeTopicToAllNodes E s)\<lparr>am_gatewayActivated := True\<rparr>)"

definition tars_start :: "amop_env \<Rightarrow> amop \<Rightarrow> amop" where
  "tars_start E s =
     (if length (ae_endPoints E) = 0 then s\<lparr>am_gatewayActivated := False\<rparr> else s)\<lparr>am_detecting := True\<rparr>"

definition local_start :: "amop \<Rightarrow> amop" where
  "local_start s = s\<lparr>am_gatewayActivated := True\<rparr>"

definition amop_start :: "amop_env \<Rightarrow> amop \<Rightarrow> amop" where
  "amop_start E s = (if am_local s then local_start s else tars_start E s)"

definition amop_stop :: "amop \<Rightarrow> amop" where
  "amop_stop s = s\<lparr>am_detecting := False\<rparr>"

subsection \<open>Topics and sessions\<close>

definition add_session :: "string \<Rightarrow> string \<Rightarrow> session \<Rightarrow> amop \<Rightarrow> amop" where
  "add_session t ep ss s =
     s\<lparr>am_topicToSessions := fmupd t
        (fmupd ep ss (case fmlookup (am_topicToSessions s) t of None \<Rightarrow> fmempty | Some m \<Rightarrow> m))
        (am_topicToSessions s)\<rparr>"

definition updateTopicInfos :: "amop_env \<Rightarrow> string \<Rightarrow> session \<Rightarrow> amop \<Rightarrow> bool \<times> amop" where
  "updateTopicInfos E info ss s =
     (case ae_parseSubTopicsJson E info of
        None \<Rightarrow> (False, s)
      | Some items \<Rightarrow>
          let s1 = fold (\<lambda>t. add_session t (ae_endPoint E ss) ss) items s
          in (True, if length items > 0 then s1\<lparr>am_topicInfos := fmupd (hd items) info (am_topicInfos s1)\<rparr>
                    else s1))"

definition onRecvSubTopics :: "amop_env \<Rightarrow> ws_message \<Rightarrow> session \<Rightarrow> amop \<Rightarrow> amop" where
  "onRecvSubTopics E m ss s =
     (let (ret, s1) = updateTopicInfos E (wm_data m) ss s
      in if \<not> ret then s1 else subscribeTopicToAllNodes E s1)"

definition querySessionsByTopic :: "string \<Rightarrow> amop \<Rightarrow> (string, session) fmap" where
  "querySessionsByTopic t s =
     (case fmlookup (am_topicToSessions s) t of Some m \<Rightarrow> m | None \<Rightarrow> fmempty)"

definition removeTopicInfo :: "string \<Rightarrow> amop \<Rightarrow> amop" where
  "removeTopicInfo t s = s\<lparr>am_topicInfos := fmdrop t (am_topicInfos s)\<rparr>"

definition disconnect_topic ::
  "string \<Rightarrow> string \<times> (string, session) fmap \<Rightarrow> string list \<times> amop \<Rightarrow> string list \<times> amop" where
  "disconnect_topic ep tm gs =
     (let (t, m) = tm; (gone, s) = gs; m' = fmdrop ep m
      in if fcard (fmdom m') = 0
         then (gone @ [t], (removeTopicInfo t s)\<lparr>am_topicToSessions := fmdrop t (am_topicToSessions s)\<rparr>)
         else (gone, s\<lparr>am_topicToSessions := fmupd t m' (am_topicToSessions s)\<rparr>))"

definition onClientDisconnect :: "amop_env \<Rightarrow> session \<Rightarrow> amop \<Rightarrow> amop" where
  "onClientDisconnect E ss s =
     (let (gone, s1) = fold (disconnect_topic (ae_endPoint E ss)) (fmap_list (am_topicToSessions s)) ([], s)
      in if length gone = 0 then s1 else removeTopicFromAllNodes E gone s1)"

text \<open>
  The draw of a session: at most one more try than there are sessions. What the last try
  drew is returned, connected or not.
\<close>

function try_sessions :: "(session \<Rightarrow> bool) \<Rightarrow> (nat \<Rightarrow> nat) \<Rightarrow> session list \<Rightarrow> nat \<Rightarrow> session" where
  "try_sessions conn rnd xs k =
     (let sel = xs ! (rnd k mod length xs)
      in if \<not> conn sel \<and> k + 1 \<le> length xs then try_sessions conn rnd xs (k + 1) else sel)"
  by pat_completeness auto

termination
  by (relation "measure (\<lambda>(conn, rnd, xs, k). length xs - k)") auto

declare try_sessions.simps [simp del]

definition randomChooseSession :: "amop_env \<Rightarrow> string \<Rightarrow> amop \<Rightarrow> session option" where
  "randomChooseSession E t s =
     (case fmlookup (am_topicToSessions s) t of
        None \<Rightarrow> None
      | Some m \<Rightarrow>
          if fcard (fmdom m) = 0 then None
          else Some (try_sessions (ae_connected E) (ae_rand E) (map snd (fmap_list m)) 0))"

subsection \<open>Messages from the SDK\<close>

definition sendMessageToClient :: "session \<Rightarrow> ws_message \<Rightarrow> continuation \<Rightarrow> amop \<Rightarrow> amop" where
  "sendMessageToClient ss m k s = await (AwaitClient k) (emit [SendRequest ss m] s)"

text \<open>What a client answered, or the error of the request, reaches the continuation.\<close>

definition onClientReply ::
  "amop_env \<Rightarrow> continuation \<Rightarrow> rpc_error option \<Rightarrow> ws_message option \<Rightarrow> amop \<Rightarrow> amop" where
  "onClientReply E k err resp s =
     (let buffer = (case resp of Some m \<Rightarrow> ae_encode E m | None \<Rightarrow> '''')
      in case k of
           ToSession ss \<Rightarrow>
             (case ae_decode E (ae_message E) buffer of
                Inl _ \<Rightarrow> s
              | Inr m \<Rightarrow> emit [SendMessage ss m] s)
         | ToGateway n \<Rightarrow> emit [Answer n err (Some buffer)] s)"

definition trySendAMOPRequestToLocalNode ::
  "amop_env \<Rightarrow> session \<Rightarrow> string \<Rightarrow> ws_message \<Rightarrow> amop \<Rightarrow> bool \<times> amop" where
  "trySendAMOPRequestToLocalNode E ss t m s =
     (case randomChooseSession E t s of
        None \<Rightarrow> (False, s)
      | Some sel \<Rightarrow> (True, sendMessageToClient sel m (ToSession ss) s))"

definition tars_onGatewayInactivated :: "amop_env \<Rightarrow> ws_message \<Rightarrow> session \<Rightarrow> amop \<Rightarrow> bool \<times> amop" where
  "tars_onGatewayInactivated E m ss s =
     (if length (ae_endPoints E) > 0 then (False, s)
      else (True, emit [SendMessage ss ((ae_message E)
             \<lparr>wm_status := -1, wm_data := ''error for the gateway is in-activated'', wm_seq := wm_seq m\<rparr>)] s))"

definition local_onGatewayInactivated :: "ws_message \<Rightarrow> session \<Rightarrow> amop \<Rightarrow> bool \<times> amop" where
  "local_onGatewayInactivated m ss s = (False, s)"

definition onGatewayInactivated :: "amop_env \<Rightarrow> ws_message \<Rightarrow> session \<Rightarrow> amop \<Rightarrow> bool \<times> amop" where
  "onGatewayInactivated E m ss s =
     (if am_local s then local_onGatewayInactivated m ss s else tars_onGatewayInactivated E m ss s)"

lemmas tars_or_local =
  amop_start_def tars_start_def local_start_def
  onGatewayInactivated_def tars_onGatewayInactivated_def local_onGatewayInactivated_def

definition onRecvAMOPRequest :: "amop_env \<Rightarrow> ws_message \<Rightarrow> session \<Rightarrow> amop \<Rightarrow> exn option \<times> amop" where
  "onRecvAMOPRequest E m ss s =
     (case ae_requestTopic E (wm_data m) of
        Inl e \<Rightarrow> (Some e, s)
      | Inr t \<Rightarrow>
          let (inactive, s1) = onGatewayInactivated E m ss s
          in if inactive then (None, snd (trySendAMOPRequestToLocalNode E ss t m s1))
             else (None, await (AwaitGateway (wm_seq m) m t ss) (emit [GatewayUnicast t (wm_data m)] s1)))"

definition onGatewayReply ::
  "amop_env \<Rightarrow> string \<Rightarrow> ws_message \<Rightarrow> string \<Rightarrow> session \<Rightarrow> rpc_error option \<Rightarrow> string \<Rightarrow> amop \<Rightarrow> amop" where
  "onGatewayReply E seq m t ss err resp s =
     (if failed err
      then let (ret, s1) = trySendAMOPRequestToLocalNode E ss t m s
           in if ret then s1
              else let code = er_code (the err);
                       text = (if code = -7 \<or> code = -8
                               then ''Access to gateway timed out, please check gateway alive''
                               else er_msg (the err))
                   in emit [SendMessage ss ((ae_message E)\<lparr>wm_status := code, wm_data := text, wm_seq := seq\<rparr>)] s1
      else case ae_decode E (ae_message E) resp of
             Inl _ \<Rightarrow> s
           | Inr r \<Rightarrow> emit [SendMessage ss (r\<lparr>wm_seq := seq\<rparr>)] s)"

definition broadcastAMOPMessage :: "string \<Rightarrow> ws_message \<Rightarrow> amop \<Rightarrow> amop" where
  "broadcastAMOPMessage t m s =
     fold (\<lambda>(ep, ss). emit [SendRequest ss m]) (fmap_list (querySessionsByTopic t s)) s"

definition onRecvAMOPBroadcast :: "amop_env \<Rightarrow> ws_message \<Rightarrow> amop \<Rightarrow> exn option \<times> amop" where
  "onRecvAMOPBroadcast E m s =
     (case ae_requestTopic E (wm_data m) of
        Inl e \<Rightarrow> (Some e, s)
      | Inr t \<Rightarrow> (None, emit [GatewayBroadcast t (wm_data m)] (broadcastAMOPMessage t m s)))"

subsection \<open>Messages from the gateway\<close>

definition asyncNotifyAMOPUnicast :: "amop_env \<Rightarrow> string \<Rightarrow> string \<Rightarrow> nat \<Rightarrow> amop \<Rightarrow> amop" where
  "asyncNotifyAMOPUnicast E t data n s =
     (case randomChooseSession E t s of
        None \<Rightarrow>
          emit [Answer n (Some \<lparr>er_code = ae_notFoundClient E, er_msg = ''NotFoundClientByTopicDispatchMsg''\<rparr>)
                  (Some (ae_encode E ((ae_message E)
                     \<lparr>wm_status := ae_notFoundClient E, wm_type := amop_message_code AMOP_RESPONSE\<rparr>)))] s
      | Some ss \<Rightarrow>
          sendMessageToClient ss ((ae_message E)\<lparr>wm_type := amop_message_code AMOP_REQUEST, wm_data := data\<rparr>)
            (ToGateway n) s)"

definition asyncNotifyAMOPBroadcast :: "amop_env \<Rightarrow> string \<Rightarrow> string \<Rightarrow> nat option \<Rightarrow> amop \<Rightarrow> amop" where
  "asyncNotifyAMOPBroadcast E t data n s =
     (let s1 = broadcastAMOPMessage t
                 ((ae_message E)\<lparr>wm_type := amop_message_code AMOP_BROADCAST, wm_data := data\<rparr>) s
      in case n of None \<Rightarrow> s1 | Some k \<Rightarrow> emit [Answer k None None] s1)"

text \<open>The kinds of notification are an enumeration of bcos-framework; an unknown one is dropped.\<close>

datatype amop_notify_type = Unicast | Broadcast | UnknownNotify

fun asyncNotifyAMOPMessage ::
  "amop_env \<Rightarrow> amop_notify_type \<Rightarrow> string \<Rightarrow> string \<Rightarrow> nat \<Rightarrow> amop \<Rightarrow> amop" where
  "asyncNotifyAMOPMessage E Unicast t data n s = asyncNotifyAMOPUnicast E t data n s"
| "asyncNotifyAMOPMessage E Broadcast t data n s = asyncNotifyAMOPBroadcast E t data (Some n) s"
| "asyncNotifyAMOPMessage E UnknownNotify t data n s = s"

subsection \<open>The client as a step relation\<close>

datatype amop_event =
    AmopStart amop_env
  | AmopStop amop_env
  | AmopPing amop_env
  | Renotify amop_env
  | SubTopics amop_env ws_message session
  | Request amop_env ws_message session
  | BroadcastMsg amop_env ws_message
  | Notified amop_env amop_notify_type string string nat
  | GatewayAnswered amop_env nat "rpc_error option" string
  | ClientAnswered amop_env nat "rpc_error option" "ws_message option"
  | Disconnected amop_env session
  | Renamed amop_env string

fun event_env :: "amop_event \<Rightarrow> amop_env" where
  "event_env (AmopStart E) = E"
| "event_env (AmopStop E) = E"
| "event_env (AmopPing E) = E"
| "event_env (Renotify E) = E"
| "event_env (SubTopics E m ss) = E"
| "event_env (Request E m ss) = E"
| "event_env (BroadcastMsg E m) = E"
| "event_env (Notified E k t d n) = E"
| "event_env (GatewayAnswered E i err resp) = E"
| "event_env (ClientAnswered E i err resp) = E"
| "event_env (Disconnected E ss) = E"
| "event_env (Renamed E c) = E"

definition drop_call :: "nat \<Rightarrow> amop \<Rightarrow> amop" where
  "drop_call i s = s\<lparr>am_calls := take i (am_calls s) @ drop (Suc i) (am_calls s)\<rparr>"

fun amop_apply :: "amop_event \<Rightarrow> amop \<Rightarrow> amop" where
  "amop_apply (AmopStart E) s = amop_start E s"
| "amop_apply (AmopStop E) s = amop_stop s"
| "amop_apply (AmopPing E) s = (if am_detecting s then pingGatewayAndNotifyTopics E s else s)"
| "amop_apply (Renotify E) s = asyncNotifySubscribeTopic E s"
| "amop_apply (SubTopics E m ss) s = onRecvSubTopics E m ss s"
| "amop_apply (Request E m ss) s = snd (onRecvAMOPRequest E m ss s)"
| "amop_apply (BroadcastMsg E m) s = snd (onRecvAMOPBroadcast E m s)"
| "amop_apply (Notified E k t d n) s = asyncNotifyAMOPMessage E k t d n s"
| "amop_apply (GatewayAnswered E i err resp) s =
     (if i < length (am_calls s)
      then case am_calls s ! i of
             AwaitGateway seq m t ss \<Rightarrow> onGatewayReply E seq m t ss err resp (drop_call i s)
           | AwaitClient k \<Rightarrow> s
      else s)"
| "amop_apply (ClientAnswered E i err resp) s =
     (if i < length (am_calls s)
      then case am_calls s ! i of
             AwaitClient k \<Rightarrow> onClientReply E k err resp (drop_call i s)
           | AwaitGateway seq m t ss \<Rightarrow> s
      else s)"
| "amop_apply (Disconnected E ss) s = onClientDisconnect E ss s"
| "amop_apply (Renamed E c) s = setClientID c s"

text \<open>The endpoint of a session does not change.\<close>

inductive amop_step :: "(session \<Rightarrow> string) \<Rightarrow> amop \<Rightarrow> amop_event \<Rightarrow> amop \<Rightarrow> bool" for ep where
  "ae_endPoint (event_env ev) = ep \<Longrightarrow> amop_step ep s ev (amop_apply ev s)"

end
