(* ===== verification/AMOPProps.thy ===== *)
theory AMOPProps
  imports AMOPClient
begin

text \<open>
  Correctness of the topic-message client: what the gateways are told, the invariant of the
  topic tables, which session a message goes to, and who is answered.
\<close>

subsection \<open>Appending to the log\<close>

lemma emit_fields [simp]:
  "am_local (emit os s) = am_local s" "am_clientID (emit os s) = am_clientID s"
  "am_gatewayServiceName (emit os s) = am_gatewayServiceName s"
  "am_topicToSessions (emit os s) = am_topicToSessions s" "am_topicInfos (emit os s) = am_topicInfos s"
  "am_gatewayActivated (emit os s) = am_gatewayActivated s" "am_detecting (emit os s) = am_detecting s" "am_calls (emit os s) = am_calls s"
  "am_out (emit os s) = am_out s @ os" "emit [] s = s" "emit ps (emit os s) = emit (os @ ps) s"
  by (simp_all add: emit_def)

lemma await_fields [simp]:
  "am_local (await c s) = am_local s" "am_clientID (await c s) = am_clientID s"
  "am_topicToSessions (await c s) = am_topicToSessions s" "am_topicInfos (await c s) = am_topicInfos s"
  "am_gatewayActivated (await c s) = am_gatewayActivated s" "am_calls (await c s) = am_calls s @ [c]"
  "am_out (await c s) = am_out s"
  by (simp_all add: await_def)

lemma drop_call_fields [simp]:
  "am_local (drop_call i s) = am_local s" "am_topicToSessions (drop_call i s) = am_topicToSessions s"
  "am_topicInfos (drop_call i s) = am_topicInfos s" "am_out (drop_call i s) = am_out s"
  by (simp_all add: drop_call_def)

lemma fold_emit: "fold (\<lambda>x. emit [f x]) xs s = emit (map f xs) s"
  by (induction xs arbitrary: s) simp_all

lemma generateTopicInfo_emit [simp]: "generateTopicInfo E (emit os s) = generateTopicInfo E s"
  by (simp add: generateTopicInfo_def)

subsection \<open>The link to the gateways\<close>

text \<open>
  Both clients offer the same contract to the handlers: a subscription tells every target
  the client's id and the recorded topics, a removal tells every target the removed topics,
  and nothing else changes.
\<close>

locale topic_gateway =
  fixes subscribe :: "amop_env \<Rightarrow> amop \<Rightarrow> amop"
    and remove :: "amop_env \<Rightarrow> string list \<Rightarrow> amop \<Rightarrow> amop"
    and targets :: "amop_env \<Rightarrow> amop \<Rightarrow> string option list"
  assumes subscribe_out: "subscribe E s =
      emit (map (\<lambda>g. SubscribeTopic g (am_clientID s) (generateTopicInfo E s)) (targets E s)) s"
    and remove_out: "remove E ts s = emit (map (\<lambda>g. RemoveTopic g (am_clientID s) ts) (targets E s)) s"
begin

lemma subscribe_keeps:
  "am_local (subscribe E s) = am_local s" "am_clientID (subscribe E s) = am_clientID s"
  "am_topicToSessions (subscribe E s) = am_topicToSessions s" "am_topicInfos (subscribe E s) = am_topicInfos s"
  "am_gatewayActivated (subscribe E s) = am_gatewayActivated s" "am_detecting (subscribe E s) = am_detecting s" "am_calls (subscribe E s) = am_calls s"
  by (simp_all add: subscribe_out)

lemma remove_keeps:
  "am_local (remove E ts s) = am_local s" "am_clientID (remove E ts s) = am_clientID s"
  "am_topicToSessions (remove E ts s) = am_topicToSessions s" "am_topicInfos (remove E ts s) = am_topicInfos s"
  "am_gatewayActivated (remove E ts s) = am_gatewayActivated s" "am_calls (remove E ts s) = am_calls s"
  by (simp_all add: remove_out)

lemma subscribe_tells:
  "am_out (subscribe E s) =
     am_out s @ map (\<lambda>g. SubscribeTopic g (am_clientID s) (generateTopicInfo E s)) (targets E s)"
  by (simp add: subscribe_out)

lemma remove_tells:
  "am_out (remove E ts s) = am_out s @ map (\<lambda>g. RemoveTopic g (am_clientID s) ts) (targets E s)"
  by (simp add: remove_out)

end

definition tars_targets :: "amop_env \<Rightarrow> amop \<Rightarrow> string option list" where
  "tars_targets E s = map (\<lambda>ep. Some (endPointToString (am_gatewayServiceName s) ep)) (ae_endPoints E)"

definition node_targets :: "amop_env \<Rightarrow> amop \<Rightarrow> string option list" where
  "node_targets E s = (if am_local s then [None] else tars_targets E s)"

interpretation tars: topic_gateway tars_subscribeTopic tars_removeTopic tars_targets
  by unfold_locales (simp_all add: tars_subscribeTopic_def tars_removeTopic_def tars_targets_def fold_emit comp_def)

interpretation inproc: topic_gateway local_subscribeTopic local_removeTopic "\<lambda>_ _. [None]"
  by unfold_locales (simp_all add: local_subscribeTopic_def local_removeTopic_def)

interpretation gw: topic_gateway subscribeTopicToAllNodes removeTopicFromAllNodes node_targets
  by unfold_locales
    (simp_all add: subscribeTopicToAllNodes_def removeTopicFromAllNodes_def node_targets_def
      tars.subscribe_out inproc.subscribe_out tars.remove_out inproc.remove_out)

subsection \<open>The topic tables\<close>

lemma add_session_lookup:
  "querySessionsByTopic t' (add_session t ep ss s) =
     (if t' = t then fmupd ep ss (querySessionsByTopic t s) else querySessionsByTopic t' s)"
  by (simp add: querySessionsByTopic_def add_session_def split: option.split)

lemma add_session_fields [simp]:
  "am_topicInfos (add_session t ep ss s) = am_topicInfos s" "am_local (add_session t ep ss s) = am_local s"
  "am_clientID (add_session t ep ss s) = am_clientID s" "am_calls (add_session t ep ss s) = am_calls s"
  "am_out (add_session t ep ss s) = am_out s"
  "am_gatewayServiceName (add_session t ep ss s) = am_gatewayServiceName s"
  "fmdom (am_topicToSessions (add_session t ep ss s)) = finsert t (fmdom (am_topicToSessions s))"
  by (simp_all add: add_session_def)

lemma fold_add_session_fields [simp]:
  "am_topicInfos (fold (\<lambda>t. add_session t ep ss) ts s) = am_topicInfos s"
  "am_local (fold (\<lambda>t. add_session t ep ss) ts s) = am_local s"
  "am_clientID (fold (\<lambda>t. add_session t ep ss) ts s) = am_clientID s"
  "am_calls (fold (\<lambda>t. add_session t ep ss) ts s) = am_calls s"
  "am_out (fold (\<lambda>t. add_session t ep ss) ts s) = am_out s"
  "am_gatewayServiceName (fold (\<lambda>t. add_session t ep ss) ts s) = am_gatewayServiceName s"
  "fmdom (am_topicToSessions (fold (\<lambda>t. add_session t ep ss) ts s)) =
     fset_of_list ts |\<union>| fmdom (am_topicToSessions s)"
  by (induction ts arbitrary: s) simp_all

lemma fold_add_session_lookup:
  "querySessionsByTopic t (fold (\<lambda>t. add_session t ep ss) ts s) =
     (if t \<in> set ts then fmupd ep ss (querySessionsByTopic t s) else querySessionsByTopic t s)"
  by (induction ts arbitrary: s) (simp_all add: add_session_lookup)

text \<open>
  No topic is kept without a session, sessions are filed under their endpoints, and the
  topics recorded for the gateways all have sessions.
\<close>

definition topics_ok :: "(session \<Rightarrow> string) \<Rightarrow> amop \<Rightarrow> bool" where
  "topics_ok ep s \<longleftrightarrow>
     fmpred (\<lambda>t m. m \<noteq> fmempty \<and> fmpred (\<lambda>e ss. ep ss = e) m) (am_topicToSessions s) \<and>
     fmdom (am_topicInfos s) |\<subseteq>| fmdom (am_topicToSessions s)"

lemma topics_ok_cong:
  "am_topicToSessions t = am_topicToSessions s \<Longrightarrow> am_topicInfos t = am_topicInfos s \<Longrightarrow>
     topics_ok ep t = topics_ok ep s"
  by (simp add: topics_ok_def)

lemma topics_ok_query:
  "topics_ok ep s \<Longrightarrow> fmpred (\<lambda>e ss. ep ss = e) (querySessionsByTopic t s)"
  by (auto simp: topics_ok_def querySessionsByTopic_def split: option.split)

lemma topics_ok_add:
  assumes "topics_ok ep s" shows "topics_ok ep (add_session t (ep ss) ss s)"
proof -
  let ?m = "case fmlookup (am_topicToSessions s) t of None \<Rightarrow> fmempty | Some m \<Rightarrow> m"
  have "fmpred (\<lambda>e ss. ep ss = e) ?m"
    using topics_ok_query [OF assms, of t] by (simp add: querySessionsByTopic_def)
  then have "fmpred (\<lambda>e ss. ep ss = e) (fmupd (ep ss) ss ?m)" by (simp add: fmpred_upd)
  moreover have "fmupd (ep ss) ss ?m \<noteq> fmempty"
    by (metis fmdom_empty fmdom_fmupd finsert_not_fempty)
  ultimately show ?thesis
    using assms by (auto simp: topics_ok_def add_session_def intro!: fmpred_upd)
qed

lemma updateTopicInfos_ok:
  assumes "topics_ok ep s" and "ae_endPoint E = ep"
  shows "topics_ok ep (snd (updateTopicInfos E info ss s))"
proof (cases "ae_parseSubTopicsJson E info")
  case (Some items)
  let ?s = "fold (\<lambda>t. add_session t (ep ss) ss) items s"
  have "topics_ok ep ?s"
    using assms(1) by (rule fold_keeps) (rule topics_ok_add)
  moreover have "hd items |\<in>| fmdom (am_topicToSessions ?s)" if "items \<noteq> []"
    using that by (simp add: fset_of_list_elem)
  ultimately show ?thesis
    using Some assms(2) by (auto simp: updateTopicInfos_def Let_def topics_ok_def)
qed (use assms in \<open>simp add: updateTopicInfos_def\<close>)

text \<open>The walk over the topics when a session closes.\<close>

lemma disconnect_fold_gone:
  "fst (fold (disconnect_topic ep) xs (gone, s)) =
     gone @ map fst (filter (\<lambda>(t, m). fmdrop ep m = fmempty) xs)"
proof (induction xs arbitrary: gone s)
  case (Cons x xs)
  obtain t m where x: "x = (t, m)" by fastforce
  show ?case
  proof (cases "fmdrop ep m = fmempty")
    case True
    then have "disconnect_topic ep x (gone, s) =
        (gone @ [t], (removeTopicInfo t s)\<lparr>am_topicToSessions := fmdrop t (am_topicToSessions s)\<rparr>)"
      by (simp only: x disconnect_topic_def prod.case Let_def fcard_fmdom_0) simp
    with True x Cons.IH show ?thesis by simp
  next
    case False
    then have "disconnect_topic ep x (gone, s) =
        (gone, s\<lparr>am_topicToSessions := fmupd t (fmdrop ep m) (am_topicToSessions s)\<rparr>)"
      by (simp only: x disconnect_topic_def prod.case Let_def fcard_fmdom_0) simp
    with False x Cons.IH show ?thesis by simp
  qed
qed simp

definition topic_entry :: "amop \<Rightarrow> string \<Rightarrow> (string, session) fmap option \<times> string option" where
  "topic_entry s t = (fmlookup (am_topicToSessions s) t, fmlookup (am_topicInfos s) t)"

lemma disconnect_topic_entry:
  "topic_entry (snd (disconnect_topic ep (t, m) gs)) k =
     (if k = t then if fmdrop ep m = fmempty then (None, None)
                    else (Some (fmdrop ep m), snd (topic_entry (snd gs) t))
      else topic_entry (snd gs) k)"
proof (cases "fmdrop ep m = fmempty")
  case True
  then show ?thesis
    by (cases gs) (simp only: disconnect_topic_def prod.case Let_def fcard_fmdom_0,
      simp add: topic_entry_def removeTopicInfo_def)
next
  case False
  then show ?thesis
    by (cases gs) (simp only: disconnect_topic_def prod.case Let_def fcard_fmdom_0,
      simp add: topic_entry_def)
qed

lemma disconnect_fold_entry:
  "topic_entry (snd (fold (disconnect_topic ep) (fmap_list (am_topicToSessions s)) ([], s))) t =
     (case fmlookup (am_topicToSessions s) t of None \<Rightarrow> topic_entry s t
      | Some m \<Rightarrow> if fmdrop ep m = fmempty then (None, None)
                  else (Some (fmdrop ep m), fmlookup (am_topicInfos s) t))"
proof -
  have "topic_entry (snd (fold (disconnect_topic ep) (fmap_list (am_topicToSessions s)) ([], s))) t =
      (case map_of (fmap_list (am_topicToSessions s)) t of None \<Rightarrow> topic_entry (snd ([] :: string list, s)) t
       | Some m \<Rightarrow> (\<lambda>_ m o1. if fmdrop ep m = fmempty then (None, None) else (Some (fmdrop ep m), snd o1))
                     t m (topic_entry (snd ([] :: string list, s)) t))"
    by (rule fold_pointwise [where P = "\<lambda>_. True" and get = "\<lambda>gs. topic_entry (snd gs)" and
          F = "\<lambda>_ m o1. if fmdrop ep m = fmempty then (None, None) else (Some (fmdrop ep m), snd o1)"])
      (simp_all add: disconnect_topic_entry)
  then show ?thesis
    by (cases "fmlookup (am_topicToSessions s) t") (simp_all add: topic_entry_def)
qed

lemma disconnect_topic_frame:
  "am_out (snd (disconnect_topic ep tm gs)) = am_out (snd gs)"
  "am_calls (snd (disconnect_topic ep tm gs)) = am_calls (snd gs)"
  "am_local (snd (disconnect_topic ep tm gs)) = am_local (snd gs)"
  "am_clientID (snd (disconnect_topic ep tm gs)) = am_clientID (snd gs)"
  "am_gatewayServiceName (snd (disconnect_topic ep tm gs)) = am_gatewayServiceName (snd gs)"
  by (simp_all add: disconnect_topic_def Let_def removeTopicInfo_def split: prod.split)

lemma disconnect_fold_frame [simp]:
  "am_out (snd (fold (disconnect_topic ep) xs (gone, s))) = am_out s"
  "am_calls (snd (fold (disconnect_topic ep) xs (gone, s))) = am_calls s"
  "am_local (snd (fold (disconnect_topic ep) xs (gone, s))) = am_local s"
  "am_clientID (snd (fold (disconnect_topic ep) xs (gone, s))) = am_clientID s"
  "am_gatewayServiceName (snd (fold (disconnect_topic ep) xs (gone, s))) = am_gatewayServiceName s"
proof -
  let ?P = "\<lambda>gs. am_out (snd gs) = am_out s \<and> am_calls (snd gs) = am_calls s \<and> am_local (snd gs) = am_local s \<and>
      am_clientID (snd gs) = am_clientID s \<and> am_gatewayServiceName (snd gs) = am_gatewayServiceName s"
  have "?P (fold (disconnect_topic ep) xs (gone, s))"
    by (rule fold_keeps) (simp_all add: disconnect_topic_frame)
  then show "am_out (snd (fold (disconnect_topic ep) xs (gone, s))) = am_out s"
    "am_calls (snd (fold (disconnect_topic ep) xs (gone, s))) = am_calls s"
    "am_local (snd (fold (disconnect_topic ep) xs (gone, s))) = am_local s"
    "am_clientID (snd (fold (disconnect_topic ep) xs (gone, s))) = am_clientID s"
    "am_gatewayServiceName (snd (fold (disconnect_topic ep) xs (gone, s))) = am_gatewayServiceName s"
    by simp_all
qed

lemma onClientDisconnect_entry:
  "topic_entry (onClientDisconnect E ss s) t =
     (case fmlookup (am_topicToSessions s) t of None \<Rightarrow> topic_entry s t
      | Some m \<Rightarrow> if fmdrop (ae_endPoint E ss) m = fmempty then (None, None)
                  else (Some (fmdrop (ae_endPoint E ss) m), fmlookup (am_topicInfos s) t))"
proof -
  obtain gone s1 where f: "fold (disconnect_topic (ae_endPoint E ss)) (fmap_list (am_topicToSessions s)) ([], s)
      = (gone, s1)"
    by fastforce
  have "topic_entry (onClientDisconnect E ss s) t = topic_entry s1 t"
    by (simp add: onClientDisconnect_def f topic_entry_def gw.remove_keeps)
  then show ?thesis
    using disconnect_fold_entry [of "ae_endPoint E ss" s t] by (simp add: f)
qed

lemma onClientDisconnect_ok:
  assumes ok: "topics_ok ep s" and ep: "ae_endPoint E = ep"
  shows "topics_ok ep (onClientDisconnect E ss s)"
  unfolding topics_ok_def
proof (intro conjI fmpredI fsubsetI)
  let ?t = "onClientDisconnect E ss s"
  note entry = onClientDisconnect_entry [of E ss s, unfolded topic_entry_def ep]
  fix t m assume m: "fmlookup (am_topicToSessions ?t) t = Some m"
  then obtain m0 where m0: "fmlookup (am_topicToSessions s) t = Some m0"
    using entry [of t] by (auto split: option.split_asm)
  with m entry [of t] have "m = fmdrop (ep ss) m0 \<and> m \<noteq> fmempty"
    by (auto split: if_split_asm)
  moreover have "fmpred (\<lambda>e ss. ep ss = e) m0"
    using ok m0 by (auto simp: topics_ok_def)
  ultimately show "m \<noteq> fmempty" "\<And>e x. fmlookup m e = Some x \<Longrightarrow> ep x = e"
    by (auto split: if_split_asm)
next
  let ?t = "onClientDisconnect E ss s"
  note entry = onClientDisconnect_entry [of E ss s, unfolded topic_entry_def ep]
  fix t assume "t |\<in>| fmdom (am_topicInfos ?t)"
  then obtain i where i: "fmlookup (am_topicInfos ?t) t = Some i" by (auto simp: fmlookup_dom_iff)
  show "t |\<in>| fmdom (am_topicToSessions ?t)"
  proof (cases "fmlookup (am_topicToSessions s) t")
    case None
    with i entry [of t] have "fmlookup (am_topicInfos s) t = Some i" by simp
    then have "t |\<in>| fmdom (am_topicInfos s)" by (rule fmdomI)
    with ok None show ?thesis by (auto simp: topics_ok_def fmlookup_None_iff)
  next
    case (Some m)
    with i entry [of t] have "fmlookup (am_topicToSessions ?t) t = Some (fmdrop (ep ss) m)"
      by (auto split: if_split_asm)
    then show ?thesis by (rule fmdomI)
  qed
qed

subsection \<open>The handlers that leave the tables alone\<close>

definition keeps_tables :: "(amop \<Rightarrow> amop) \<Rightarrow> bool" where
  "keeps_tables f \<longleftrightarrow> (\<forall>s. am_topicToSessions (f s) = am_topicToSessions s \<and> am_topicInfos (f s) = am_topicInfos s)"

lemma keeps_tables_ok: "keeps_tables f \<Longrightarrow> topics_ok ep (f s) = topics_ok ep s"
  by (simp add: keeps_tables_def topics_ok_def)

lemma send_keeps: "keeps_tables (sendMessageToClient ss m k)"
  by (simp add: keeps_tables_def sendMessageToClient_def)

lemma try_keeps: "keeps_tables (\<lambda>s. snd (trySendAMOPRequestToLocalNode E ss t m s))"
  using send_keeps
  by (auto simp: keeps_tables_def trySendAMOPRequestToLocalNode_def split: option.split)

lemma request_keeps: "keeps_tables (\<lambda>s. snd (onRecvAMOPRequest E m ss s))"
  using try_keeps
  by (auto simp: keeps_tables_def onRecvAMOPRequest_def tars_or_local split: sum.split)

lemma gateway_reply_keeps: "keeps_tables (onGatewayReply E seq m t ss err resp)"
  by (auto simp: keeps_tables_def onGatewayReply_def trySendAMOPRequestToLocalNode_def sendMessageToClient_def Let_def
      split: option.split sum.split)

lemma client_reply_keeps: "keeps_tables (onClientReply E k err resp)"
  by (auto simp: keeps_tables_def onClientReply_def Let_def split: continuation.split sum.split)

lemma broadcast_eq:
  "broadcastAMOPMessage t m s = emit (map (\<lambda>(e, ss). SendRequest ss m) (fmap_list (querySessionsByTopic t s))) s"
proof -
  have "fold (\<lambda>(ep, ss). emit [SendRequest ss m]) xs s = emit (map (\<lambda>(e, ss). SendRequest ss m) xs) s"
    for xs :: "(string \<times> session) list"
    by (induction xs arbitrary: s) auto
  then show ?thesis
    by (simp only: broadcastAMOPMessage_def)
qed

lemma notified_keeps: "keeps_tables (asyncNotifyAMOPMessage E k t d n)"
proof (cases k)
  case Unicast
  then show ?thesis
    using send_keeps by (auto simp: keeps_tables_def asyncNotifyAMOPUnicast_def split: option.split)
qed (auto simp: keeps_tables_def asyncNotifyAMOPBroadcast_def broadcast_eq Let_def)

lemma drop_call_keeps: "keeps_tables (drop_call i)"
  by (simp add: keeps_tables_def)

lemma event_keeps:
  assumes "\<And>E m ss. ev \<noteq> SubTopics E m ss" and "\<And>E ss. ev \<noteq> Disconnected E ss"
  shows "keeps_tables (amop_apply ev)"
proof (cases ev)
  case (GatewayAnswered E i err resp)
  then show ?thesis
    using gateway_reply_keeps drop_call_keeps by (auto simp: keeps_tables_def split: amop_call.split)
next
  case (ClientAnswered E i err resp)
  then show ?thesis
    using client_reply_keeps drop_call_keeps by (auto simp: keeps_tables_def split: amop_call.split)
next
  case (Request E m ss)
  then show ?thesis using request_keeps [of E m ss] by (simp add: keeps_tables_def)
next
  case (Notified E k t d n)
  then show ?thesis using notified_keeps [of E k t d n] by (simp add: keeps_tables_def)
qed (use assms in \<open>auto simp: keeps_tables_def tars_or_local amop_stop_def pingGatewayAndNotifyTopics_def
      asyncNotifySubscribeTopic_def onRecvAMOPBroadcast_def broadcast_eq gw.subscribe_keeps setClientID_def split: sum.split\<close>)

lemma amop_apply_ok:
  assumes ok: "topics_ok ep s" and ep: "ae_endPoint (event_env ev) = ep"
  shows "topics_ok ep (amop_apply ev s)"
proof (cases "(\<exists>E m ss. ev = SubTopics E m ss) \<or> (\<exists>E ss. ev = Disconnected E ss)")
  case True
  then show ?thesis
  proof (elim disjE exE)
    fix E m ss assume ev: "ev = SubTopics E m ss"
    obtain ret s1 where u: "updateTopicInfos E (wm_data m) ss s = (ret, s1)" by fastforce
    with updateTopicInfos_ok [OF ok, of E "wm_data m" ss] ep ev have "topics_ok ep s1" by simp
    then show ?thesis
      using topics_ok_cong [of "subscribeTopicToAllNodes E s1" s1 ep]
      by (simp add: ev onRecvSubTopics_def u gw.subscribe_keeps)
  next
    fix E ss assume "ev = Disconnected E ss"
    with onClientDisconnect_ok [OF ok] ep show ?thesis by simp
  qed
next
  case False
  then have "keeps_tables (amop_apply ev)" by (intro event_keeps) auto
  then show ?thesis using ok by (simp add: keeps_tables_ok)
qed

interpretation amop: step_invariant "amop_step ep" "new_amop loc name" "topics_ok ep" for ep loc name
proof
  show "topics_ok ep (new_amop loc name)"
    by (simp add: topics_ok_def new_amop_def)
  fix s e t assume "topics_ok ep s" and "amop_step ep s e t"
  then show "topics_ok ep t"
    by (auto elim!: amop_step.cases intro: amop_apply_ok)
qed

subsection \<open>What is promised to the gateways\<close>

text \<open>
  In every reachable state the topics this node names to the gateways are topics that
  some session of this node subscribed to, and each session is filed under its own endpoint.
\<close>

theorem amop_reachable:
  assumes "run (amop_step ep) (new_amop loc name) es s"
  shows "(\<forall>t. t |\<in>| fmdom (am_topicInfos s) \<longrightarrow> (\<exists>e ss. fmlookup (querySessionsByTopic t s) e = Some ss)) \<and>
         (\<forall>t e ss. fmlookup (querySessionsByTopic t s) e = Some ss \<longrightarrow> ep ss = e)"
proof (intro conjI allI impI)
  have ok: "topics_ok ep s" by (rule amop.run_inv [OF assms])
  fix t
  {
    assume "t |\<in>| fmdom (am_topicInfos s)"
    with ok have "t |\<in>| fmdom (am_topicToSessions s)" by (auto simp: topics_ok_def)
    then obtain m where m: "fmlookup (am_topicToSessions s) t = Some m" by (auto simp: fmlookup_dom_iff)
    with ok have "m \<noteq> fmempty" by (auto simp: topics_ok_def)
    then obtain e where "e |\<in>| fmdom m"
      by (metis fcard_fmdom_0 fcard_0_eq ex_fin_conv)
    with m show "\<exists>e ss. fmlookup (querySessionsByTopic t s) e = Some ss"
      by (auto simp: querySessionsByTopic_def fmlookup_dom_iff)
  next
    fix e ss assume "fmlookup (querySessionsByTopic t s) e = Some ss"
    with topics_ok_query [OF ok, of t] show "ep ss = e" by auto
  }
qed

text \<open>
  A valid subscription message puts the session under each of its topics, but only the
  first of them is recorded for the gateways: what every gateway is told is the list of the
  topics that ever came first in such a message and still have a session. A topic that a
  client only names further down is never announced, now or when a gateway comes back.
\<close>

theorem first_topic_announced:
  assumes parse: "ae_parseSubTopicsJson E (wm_data m) = Some (t # ts)"
    and s': "s' = onRecvSubTopics E m ss s"
  shows "(\<forall>u. querySessionsByTopic u s' =
            (if u \<in> set (t # ts) then fmupd (ae_endPoint E ss) ss (querySessionsByTopic u s)
             else querySessionsByTopic u s)) \<and>
         fmdom (am_topicInfos s') = finsert t (fmdom (am_topicInfos s)) \<and>
         am_out s' = am_out s @ map (\<lambda>g. SubscribeTopic g (am_clientID s) (jstyled (ae_json E)
             (JObject (jassign [(''topics'', JArray (map JString
                (fset_list (finsert t (fmdom (am_topicInfos s))))))] fmempty))))
           (if am_local s then [None]
            else map (\<lambda>a. Some (endPointToString (am_gatewayServiceName s) a)) (ae_endPoints E))"
proof -
  define s1 where "s1 = fold (\<lambda>t. add_session t (ae_endPoint E ss) ss) (t # ts) s"
  define s2 where "s2 = s1\<lparr>am_topicInfos := fmupd t (wm_data m) (am_topicInfos s1)\<rparr>"
  have "updateTopicInfos E (wm_data m) ss s = (True, s2)"
    using parse by (simp add: updateTopicInfos_def s1_def s2_def Let_def)
  then have s'2: "s' = subscribeTopicToAllNodes E s2"
    by (simp add: s' onRecvSubTopics_def)
  have q: "querySessionsByTopic u s' = querySessionsByTopic u s1" for u
    by (simp add: s'2 querySessionsByTopic_def gw.subscribe_keeps s2_def)
  have "querySessionsByTopic u s' = (if u \<in> set (t # ts) then fmupd (ae_endPoint E ss) ss (querySessionsByTopic u s)
      else querySessionsByTopic u s)" for u
    unfolding q s1_def by (rule fold_add_session_lookup)
  moreover have infos: "fmdom (am_topicInfos s2) = finsert t (fmdom (am_topicInfos s))"
    unfolding s2_def s1_def by (simp del: fold.simps)
  moreover have "am_local s2 = am_local s" "am_clientID s2 = am_clientID s"
    "am_gatewayServiceName s2 = am_gatewayServiceName s" "am_out s2 = am_out s"
    unfolding s2_def s1_def by (simp_all del: fold.simps)
  ultimately show ?thesis
    by (simp add: s'2 gw.subscribe_keeps gw.subscribe_tells generateTopicInfo_def node_targets_def tars_targets_def
        del: fset_list_insert)
qed

definition demo_amop_env :: "(string \<times> string) list \<Rightarrow> amop_env" where
  "demo_amop_env eps =
     \<lparr>ae_json = ref_jsoncpp (\<lambda>_. Inr None) (\<lambda>_. ''text''),
      ae_parseSubTopicsJson = (\<lambda>x. if x = ''ab'' then Some [''a'', ''b''] else None),
      ae_requestTopic = (\<lambda>x. Inr ''b''), ae_endPoints = eps, ae_connected = (\<lambda>ss. ss = 1),
      ae_endPoint = (\<lambda>ss. if ss = 1 then ''ep1'' else ''ep2''), ae_message = blank_message,
      ae_encode = wm_data, ae_decode = (\<lambda>m text. Inr (m\<lparr>wm_data := text\<rparr>)), ae_rand = (\<lambda>k. k),
      ae_notFoundClient = 99\<rparr>"

definition demo_sub :: ws_message where
  "demo_sub = blank_message\<lparr>wm_data := ''ab''\<rparr>"

text \<open>A local client after one subscription to the topics \<open>a\<close> and \<open>b\<close>.\<close>

definition demo_amop :: amop where
  "demo_amop = onRecvSubTopics (demo_amop_env []) demo_sub 1 (new_amop False ''gw'')"

lemma demo_amop_value:
  "demo_amop = \<lparr>am_local = False, am_clientID = ''localAMOP'', am_gatewayServiceName = ''gw'',
     am_topicToSessions = fmupd ''b'' (fmupd ''ep1'' 1 fmempty) (fmupd ''a'' (fmupd ''ep1'' 1 fmempty) fmempty),
     am_topicInfos = fmupd ''a'' ''ab'' fmempty, am_gatewayActivated = True, am_detecting = False, am_calls = [], am_out = []\<rparr>"
  by (simp add: demo_amop_def onRecvSubTopics_def updateTopicInfos_def demo_amop_env_def demo_sub_def new_amop_def
      add_session_def subscribeTopicToAllNodes_def tars_subscribeTopic_def blank_message_def Let_def)

lemma demo_amop_run:
  "run (amop_step (ae_endPoint (demo_amop_env []))) (new_amop False ''gw'')
     [SubTopics (demo_amop_env []) demo_sub 1] demo_amop"
proof (rule run_Cons [OF _ run_nil])
  show "amop_step (ae_endPoint (demo_amop_env [])) (new_amop False ''gw'')
      (SubTopics (demo_amop_env []) demo_sub 1) demo_amop"
    using amop_step.intros [of "SubTopics (demo_amop_env []) demo_sub 1"] by (simp add: demo_amop_def)
qed

lemma amop_reachable_witness: "\<exists>e ss. fmlookup (querySessionsByTopic ''a'' demo_amop) e = Some ss"
  using amop_reachable [OF demo_amop_run] by (simp add: demo_amop_value)

lemma first_topic_announced_witness:
  "fmdom (am_topicInfos demo_amop) = {|''a''|} \<and> querySessionsByTopic ''b'' demo_amop = fmupd ''ep1'' 1 fmempty"
  using first_topic_announced [of "demo_amop_env []" demo_sub "''a''" "[''b'']", OF _ demo_amop_def]
  by (simp add: demo_sub_def demo_amop_env_def new_amop_def querySessionsByTopic_def)

lemma disconnect_tables:
  assumes ok: "topics_ok ep s" and ep: "ae_endPoint E = ep" and t: "t = onClientDisconnect E ss s"
  shows "querySessionsByTopic u t = fmdrop (ep ss) (querySessionsByTopic u s) \<and>
         (u |\<in>| fmdom (am_topicToSessions t) \<longleftrightarrow> querySessionsByTopic u t \<noteq> fmempty) \<and>
         fmlookup (am_topicInfos t) u =
           (if querySessionsByTopic u t = fmempty then None else fmlookup (am_topicInfos s) u)"
proof -
  note entry = onClientDisconnect_entry [of E ss s u, folded t, unfolded topic_entry_def ep]
  show ?thesis
  proof (cases "fmlookup (am_topicToSessions s) u")
    case None
    then have "u |\<notin>| fmdom (am_topicInfos s)" using ok by (auto simp: topics_ok_def fmlookup_None_iff)
    then have "fmlookup (am_topicInfos s) u = None" by (simp add: fmlookup_None_iff)
    moreover have "fmlookup (am_topicToSessions t) u = None" "fmlookup (am_topicInfos t) u = fmlookup (am_topicInfos s) u"
      using None entry by simp_all
    moreover from this(1) have "u |\<notin>| fmdom (am_topicToSessions t)" by (simp add: fmlookup_None_iff)
    ultimately show ?thesis
      using None by (simp add: querySessionsByTopic_def)
  next
    case (Some m)
    then have *: "fmlookup (am_topicToSessions t) u =
        (if fmdrop (ep ss) m = fmempty then None else Some (fmdrop (ep ss) m)) \<and>
        fmlookup (am_topicInfos t) u = (if fmdrop (ep ss) m = fmempty then None else fmlookup (am_topicInfos s) u)"
      using entry by (cases "fmdrop (ep ss) m = fmempty") simp_all
    then show ?thesis
    proof (cases "fmdrop (ep ss) m = fmempty")
      case True
      with * have "u |\<notin>| fmdom (am_topicToSessions t)" by (simp add: fmlookup_None_iff [symmetric])
      with True * Some show ?thesis by (simp add: querySessionsByTopic_def)
    next
      case False
      with * have "u |\<in>| fmdom (am_topicToSessions t)" by (auto intro: fmdomI)
      with False * Some show ?thesis by (simp add: querySessionsByTopic_def)
    qed
  qed
qed

text \<open>
  C34: a closing session leaves every topic, and only it does; a topic it was the last session
  of is forgotten in both tables, and the gateways are told the list of these topics, if any,
  in ascending order.
\<close>

theorem disconnect_effect:
  assumes "run (amop_step ep) (new_amop loc name) es s" and "ae_endPoint E = ep"
    and t: "t = onClientDisconnect E ss s"
    and gone: "gone = filter (\<lambda>u. fmdrop (ep ss) (querySessionsByTopic u s) = fmempty) (fset_list (fmdom (am_topicToSessions s)))"
  shows "querySessionsByTopic u t = fmdrop (ep ss) (querySessionsByTopic u s) \<and>
         (u |\<in>| fmdom (am_topicToSessions t) \<longleftrightarrow> querySessionsByTopic u t \<noteq> fmempty) \<and>
         fmlookup (am_topicInfos t) u =
           (if querySessionsByTopic u t = fmempty then None else fmlookup (am_topicInfos s) u) \<and>
         am_out t = am_out s @ (if gone = [] then [] else
           map (\<lambda>g. RemoveTopic g (am_clientID s) gone)
             (if am_local s then [None]
              else map (\<lambda>a. Some (endPointToString (am_gatewayServiceName s) a)) (ae_endPoints E)))"
proof -
  have ok: "topics_ok ep s" by (rule amop.run_inv [OF assms(1)])
  note tables = disconnect_tables [OF ok assms(2) t, of u]
  obtain gone' s1 where f: "fold (disconnect_topic (ep ss)) (fmap_list (am_topicToSessions s)) ([], s) = (gone', s1)"
    by fastforce
  have "gone' = map fst (filter (\<lambda>(u, m). fmdrop (ep ss) m = fmempty) (fmap_list (am_topicToSessions s)))"
    using disconnect_fold_gone [of "ep ss" "fmap_list (am_topicToSessions s)" "[]" s] by (simp add: f)
  also have "filter (\<lambda>(u, m). fmdrop (ep ss) m = fmempty) (fmap_list (am_topicToSessions s)) =
      filter (\<lambda>(u, m). fmdrop (ep ss) (querySessionsByTopic u s) = fmempty) (fmap_list (am_topicToSessions s))"
    by (rule filter_cong) (auto simp: querySessionsByTopic_def)
  also have "map fst \<dots> = gone"
    unfolding gone map_fst_fmap_list [symmetric] filter_map case_prod_unfold by (simp add: comp_def)
  finally have g: "gone' = gone" .
  note fr = disconnect_fold_frame [of "ep ss" "fmap_list (am_topicToSessions s)" "[]" s, unfolded f snd_conv]
  have "t = (if gone = [] then s1 else removeTopicFromAllNodes E gone s1)"
    by (simp add: t onClientDisconnect_def assms(2) f g)
  then have "am_out t = am_out s @ (if gone = [] then [] else
           map (\<lambda>g. RemoveTopic g (am_clientID s) gone)
             (if am_local s then [None]
              else map (\<lambda>a. Some (endPointToString (am_gatewayServiceName s) a)) (ae_endPoints E)))"
    by (simp add: gw.remove_tells fr node_targets_def tars_targets_def)
  with tables show ?thesis by blast
qed

lemma fmdrop_single [simp]: "fmdrop k (fmupd k v fmempty) = fmempty"
  by (rule fmap_ext) simp

lemma demo_query:
  "querySessionsByTopic ''a'' demo_amop = fmupd ''ep1'' 1 fmempty"
  "querySessionsByTopic ''b'' demo_amop = fmupd ''ep1'' 1 fmempty"
  "fmdom (am_topicToSessions demo_amop) = {|''a'', ''b''|}" "am_out demo_amop = []" "am_local demo_amop = False"
  "am_clientID demo_amop = ''localAMOP''" "am_gatewayServiceName demo_amop = ''gw''"
  "ae_endPoint (demo_amop_env eps) (Suc 0) = ''ep1''" "ae_endPoints (demo_amop_env eps) = eps"
  "ae_endPoint (demo_amop_env eps) = ae_endPoint (demo_amop_env eps')"
  by (auto simp: demo_amop_value querySessionsByTopic_def demo_amop_env_def)

lemma disconnect_effect_witness:
  "querySessionsByTopic ''b'' (onClientDisconnect (demo_amop_env [(''h'', ''1'')]) 1 demo_amop) = fmempty \<and>
   am_out (onClientDisconnect (demo_amop_env [(''h'', ''1'')]) 1 demo_amop) =
     [RemoveTopic (Some ''gw@tcp -h h -p 1'') ''localAMOP'' [''a'', ''b'']]"
proof -
  obtain t where t: "t = onClientDisconnect (demo_amop_env [(''h'', ''1'')]) 1 demo_amop" by simp
  show ?thesis
    using disconnect_effect [OF demo_amop_run demo_query(10) t refl, where u = "''b''"]
    unfolding t [symmetric] by (simp add: demo_query endPointToString_def)
qed

subsection \<open>Which session a message goes to\<close>

lemma try_sessions_spec:
  assumes "xs \<noteq> []" and "k \<le> length xs"
  shows "try_sessions conn rnd xs k \<in> set xs \<and>
    (conn (try_sessions conn rnd xs k) \<longleftrightarrow> (\<exists>j. k \<le> j \<and> j \<le> length xs \<and> conn (xs ! (rnd j mod length xs))))"
  using assms(2)
proof (induction "length xs - k" arbitrary: k)
  case 0
  then have "k = length xs" by simp
  moreover have "xs ! (rnd k mod length xs) \<in> set xs"
    using assms(1) by (intro nth_mem) simp
  ultimately show ?case
    by (subst (1 2) try_sessions.simps) (auto simp: Let_def intro: exI [of _ "length xs"] dest: le_antisym)
next
  case (Suc n)
  let ?sel = "xs ! (rnd k mod length xs)"
  have sel: "?sel \<in> set xs" using assms(1) by (intro nth_mem) simp
  show ?case
  proof (cases "conn ?sel")
    case True
    then have "try_sessions conn rnd xs k = ?sel"
      by (subst try_sessions.simps) (simp add: Let_def)
    with True sel Suc.prems show ?thesis by auto
  next
    case False
    moreover have "k + 1 \<le> length xs" using Suc.hyps(2) by simp
    ultimately have step: "try_sessions conn rnd xs k = try_sessions conn rnd xs (k + 1)"
      by (subst try_sessions.simps) (simp add: Let_def)
    have IH: "try_sessions conn rnd xs (k + 1) \<in> set xs \<and>
      (conn (try_sessions conn rnd xs (k + 1)) \<longleftrightarrow>
         (\<exists>j. k + 1 \<le> j \<and> j \<le> length xs \<and> conn (xs ! (rnd j mod length xs))))"
      using Suc.hyps by (intro Suc.hyps(1)) auto
    have "(\<exists>j. k + 1 \<le> j \<and> j \<le> length xs \<and> conn (xs ! (rnd j mod length xs))) \<longleftrightarrow>
        (\<exists>j. k \<le> j \<and> j \<le> length xs \<and> conn (xs ! (rnd j mod length xs)))"
      using False by (metis Suc_eq_plus1 Suc_leD le_neq_implies_less not_less_eq_eq less_eq_Suc_le)
    with IH step show ?thesis by simp
  qed
qed

lemma session_choice_in:
  "case randomChooseSession E t s of
     None \<Rightarrow> querySessionsByTopic t s = fmempty
   | Some ss \<Rightarrow> ss \<in> snd ` set (fmap_list (querySessionsByTopic t s)) \<and> querySessionsByTopic t s \<noteq> fmempty"
proof (cases "fmlookup (am_topicToSessions s) t")
  case None
  then show ?thesis by (simp add: randomChooseSession_def querySessionsByTopic_def)
next
  case (Some m)
  show ?thesis
  proof (cases "m = fmempty")
    case True
    with Some show ?thesis by (simp add: randomChooseSession_def querySessionsByTopic_def)
  next
    case False
    then have "fcard (fmdom m) \<noteq> 0" by (simp only: fcard_fmdom_0 not_False_eq_True)
    with Some have r: "randomChooseSession E t s =
        Some (try_sessions (ae_connected E) (ae_rand E) (map snd (fmap_list m)) 0)"
      by (simp only: randomChooseSession_def option.case if_False)
    have "map snd (fmap_list m) \<noteq> []"
      using \<open>fcard (fmdom m) \<noteq> 0\<close> by (metis length_fmap_list length_map list.size(3))
    from try_sessions_spec [OF this, of 0] Some False show ?thesis
      unfolding r by (simp add: querySessionsByTopic_def)
  qed
qed

text \<open>
  C35: the session drawn for a topic is always one of its sessions, and there is none only if
  the topic has none. It is connected exactly when one of the first \<open>n + 1\<close> draws for \<open>n\<close>
  sessions hit a connected one; draws that repeat, as they do when \<^theory_text>\<open>srand(utcTime())\<close> runs
  within one millisecond, can miss it, and then a closed session is returned.
\<close>

theorem session_choice:
  fixes E :: amop_env and t :: string and s :: amop
  defines "xs \<equiv> map snd (fmap_list (querySessionsByTopic t s))"
  shows "case randomChooseSession E t s of
           None \<Rightarrow> xs = []
         | Some ss \<Rightarrow> ss \<in> set xs \<and>
             (ae_connected E ss \<longleftrightarrow> (\<exists>j \<le> length xs. ae_connected E (xs ! (ae_rand E j mod length xs))))"
proof (cases "querySessionsByTopic t s = fmempty")
  case True
  then have "randomChooseSession E t s = None"
    by (auto simp: randomChooseSession_def querySessionsByTopic_def split: option.split option.split_asm)
  with True show ?thesis by (simp add: xs_def)
next
  case False
  then obtain m where m: "fmlookup (am_topicToSessions s) t = Some m" "querySessionsByTopic t s = m" "m \<noteq> fmempty"
    by (auto simp: querySessionsByTopic_def split: option.split_asm)
  then have "fcard (fmdom m) \<noteq> 0" by (simp only: fcard_fmdom_0 not_False_eq_True)
  then have r: "randomChooseSession E t s = Some (try_sessions (ae_connected E) (ae_rand E) xs 0)"
    using m by (simp only: randomChooseSession_def xs_def option.case if_False)
  have "length xs = fcard (fmdom m)"
    by (simp add: xs_def m(2))
  with \<open>fcard (fmdom m) \<noteq> 0\<close> have "xs \<noteq> []" by (metis list.size(3))
  from try_sessions_spec [OF this, of 0] show ?thesis
    by (simp add: r)
qed

subsection \<open>Who is answered\<close>

fun is_answer :: "nat \<Rightarrow> amop_out \<Rightarrow> bool" where
  "is_answer n (Answer k err d) \<longleftrightarrow> k = n"
| "is_answer n _ \<longleftrightarrow> False"

text \<open>Answers given to the gateway's notification \<open>n\<close> and clients it still waits for.\<close>

definition answers :: "nat \<Rightarrow> amop_out list \<Rightarrow> nat" where
  "answers n os = length (filter (is_answer n) os)"

definition waiting :: "nat \<Rightarrow> amop_call list \<Rightarrow> nat" where
  "waiting n cs = length (filter (\<lambda>c. c = AwaitClient (ToGateway n)) cs)"

fun handed_over :: "nat \<Rightarrow> amop_event \<Rightarrow> bool" where
  "handed_over n (Notified E k t d m) \<longleftrightarrow> m = n \<and> k \<noteq> UnknownNotify"
| "handed_over n _ \<longleftrightarrow> False"

definition asked :: "nat \<Rightarrow> amop_event list \<Rightarrow> nat" where
  "asked n es = length (filter (handed_over n) es)"

definition balance :: "nat \<Rightarrow> amop \<Rightarrow> nat" where
  "balance n s = answers n (am_out s) + waiting n (am_calls s)"

lemma answers_simps [simp]:
  "answers n [] = 0" "answers n (os @ ps) = answers n os + answers n ps"
  "answers n (x # os) = (if is_answer n x then 1 else 0) + answers n os"
  by (simp_all add: answers_def)

lemma waiting_simps [simp]:
  "waiting n [] = 0" "waiting n (cs @ ds) = waiting n cs + waiting n ds"
  "waiting n (c # cs) = (if c = AwaitClient (ToGateway n) then 1 else 0) + waiting n cs"
  by (simp_all add: waiting_def)

lemma balance_emit [simp]: "balance n (emit os s) = balance n s + answers n os"
  by (simp add: balance_def)

lemma balance_await [simp]:
  "balance n (await c s) = balance n s + (if c = AwaitClient (ToGateway n) then 1 else 0)"
  by (simp add: balance_def)

lemma balance_cong:
  "am_out t = am_out s \<Longrightarrow> am_calls t = am_calls s \<Longrightarrow> balance n t = balance n s"
  by (simp add: balance_def)

lemma balance_activated [simp]: "balance n (s\<lparr>am_gatewayActivated := b\<rparr>) = balance n s"
  by (rule balance_cong) simp_all

lemma balance_detecting [simp]: "balance n (s\<lparr>am_detecting := b\<rparr>) = balance n s"
  by (rule balance_cong) simp_all

lemma balance_drop:
  assumes "i < length (am_calls s)"
  shows "balance n (drop_call i s) + (if am_calls s ! i = AwaitClient (ToGateway n) then 1 else 0) = balance n s"
proof -
  have "waiting n (am_calls s) = waiting n (take i (am_calls s) @ am_calls s ! i # drop (Suc i) (am_calls s))"
    using id_take_nth_drop [OF assms] by simp
  then show ?thesis
    by (simp add: balance_def drop_call_def)
qed

lemma answers_map [simp]: "(\<And>x. \<not> is_answer n (f x)) \<Longrightarrow> answers n (map f xs) = 0"
  by (induction xs) simp_all

lemma balance_gateway [simp]:
  "balance n (subscribeTopicToAllNodes E s) = balance n s"
  "balance n (removeTopicFromAllNodes E ts s) = balance n s"
  by (simp_all add: gw.subscribe_out gw.remove_out)

lemma balance_send [simp]:
  "balance n (sendMessageToClient ss m k s) = balance n s + (if k = ToGateway n then 1 else 0)"
  by (simp add: sendMessageToClient_def)

lemma balance_try [simp]:
  "balance n (snd (trySendAMOPRequestToLocalNode E ss t m s)) = balance n s"
  by (simp add: trySendAMOPRequestToLocalNode_def split: option.split)

lemma balance_broadcast [simp]: "balance n (broadcastAMOPMessage t m s) = balance n s"
  by (simp add: broadcast_eq case_prod_beta)

lemma balance_updateTopicInfos: "balance n (snd (updateTopicInfos E info ss s)) = balance n s"
  by (rule balance_cong)
    (auto simp: updateTopicInfos_def Let_def split: option.split)

lemma balance_disconnect: "balance n (onClientDisconnect E ss s) = balance n s"
proof -
  obtain gone s1 where f: "fold (disconnect_topic (ae_endPoint E ss)) (fmap_list (am_topicToSessions s)) ([], s)
      = (gone, s1)"
    by fastforce
  have "balance n s1 = balance n s"
    using disconnect_fold_frame(1,2) [of "ae_endPoint E ss" "fmap_list (am_topicToSessions s)" "[]" s]
    by (intro balance_cong) (simp_all add: f)
  then show ?thesis
    by (simp add: onClientDisconnect_def f)
qed

lemma balance_gateway_reply: "balance n (onGatewayReply E seq m t ss err resp s) = balance n s"
proof (cases "failed err")
  case True
  obtain ret s1 where t: "trySendAMOPRequestToLocalNode E ss t m s = (ret, s1)" by fastforce
  then have "balance n s1 = balance n s"
    using balance_try [of n E ss t m s] by simp
  with True t show ?thesis by (simp add: onGatewayReply_def Let_def)
next
  case False
  then show ?thesis by (simp add: onGatewayReply_def split: sum.split)
qed

lemma balance_apply: "balance n (amop_apply ev s) = balance n s + (if handed_over n ev then 1 else 0)"
proof (cases ev)
  case (SubTopics E m ss)
  obtain ret s1 where "updateTopicInfos E (wm_data m) ss s = (ret, s1)" by fastforce
  with balance_updateTopicInfos [of n E "wm_data m" ss s] show ?thesis
    by (simp add: SubTopics onRecvSubTopics_def)
next
  case (Request E m ss)
  then show ?thesis
    by (simp add: onRecvAMOPRequest_def tars_or_local split: sum.split)
next
  case (Notified E k t d m)
  then show ?thesis
    by (cases k) (simp_all add: asyncNotifyAMOPUnicast_def asyncNotifyAMOPBroadcast_def split: option.split)
next
  case (GatewayAnswered E i err resp)
  then show ?thesis
    using balance_drop [of i s n] by (auto simp: balance_gateway_reply split: amop_call.split)
next
  case (ClientAnswered E i err resp)
  then show ?thesis
    using balance_drop [of i s n]
    by (auto simp: onClientReply_def Let_def split: amop_call.split continuation.split sum.split)
qed (auto simp: tars_or_local amop_stop_def pingGatewayAndNotifyTopics_def asyncNotifySubscribeTopic_def onRecvAMOPBroadcast_def
      balance_disconnect setClientID_def intro: balance_cong split: sum.split)

interpretation answered: history_invariant "amop_step ep" "new_amop loc name"
  "\<lambda>es s. \<forall>n. balance n s = asked n es" for ep loc name
proof
  show "\<forall>n. balance n (new_amop loc name) = asked n []"
    by (simp add: balance_def asked_def new_amop_def)
  fix es s ev t assume "\<forall>n. balance n s = asked n es" and "amop_step ep s ev t"
  then show "\<forall>n. balance n t = asked n (es @ [ev])"
    by (auto elim!: amop_step.cases simp: balance_apply asked_def)
qed

text \<open>
  C19: no unicast or broadcast that a gateway passes on is lost or answered twice. At any time
  the number of calls of its callback and of clients whose reply it still waits for equals the
  number of times the gateway handed it over; once the clients have replied or timed out, each
  has been answered. A message of a type that is neither is only logged: its callback is never
  called.
\<close>

theorem gateway_answered:
  assumes "run (amop_step ep) (new_amop loc name) es s"
  shows "length (filter (is_answer n) (am_out s)) +
         length (filter (\<lambda>c. c = AwaitClient (ToGateway n)) (am_calls s)) =
         length (filter (handed_over n) es) \<and>
         ((\<forall>E k t d. Notified E k t d n \<in> set es \<longrightarrow> k = UnknownNotify) \<longrightarrow>
            filter (is_answer n) (am_out s) = [] \<and> AwaitClient (ToGateway n) \<notin> set (am_calls s))"
proof -
  have "balance n s = asked n es"
    using answered.run_hinv [OF assms] by blast
  then have eq: "length (filter (is_answer n) (am_out s)) +
         length (filter (\<lambda>c. c = AwaitClient (ToGateway n)) (am_calls s)) =
         length (filter (handed_over n) es)"
    by (simp add: balance_def answers_def waiting_def asked_def)
  have "filter (handed_over n) es = []" if "\<forall>E k t d. Notified E k t d n \<in> set es \<longrightarrow> k = UnknownNotify"
  proof -
    have "\<not> handed_over n ev" if "ev \<in> set es" for ev
      using \<open>\<forall>E k t d. _\<close> that by (cases ev) auto
    then show ?thesis by simp
  qed
  with eq show ?thesis by (auto simp: filter_empty_conv)
qed

lemma gateway_answered_witness:
  "length (filter (is_answer 3) (am_out (asyncNotifyAMOPMessage (demo_amop_env []) Unicast ''zz'' ''data'' 3 demo_amop))) = 1"
proof -
  let ?E = "demo_amop_env []" and ?ev = "Notified (demo_amop_env []) Unicast ''zz'' ''data'' 3"
  let ?t = "asyncNotifyAMOPMessage ?E Unicast ''zz'' ''data'' 3 demo_amop"
  have "amop_step (ae_endPoint ?E) demo_amop ?ev (amop_apply ?ev demo_amop)"
    by (rule amop_step.intros) simp
  then have run: "run (amop_step (ae_endPoint ?E)) (new_amop False ''gw'') ([SubTopics ?E demo_sub 1] @ [?ev]) ?t"
    using run_snoc [OF demo_amop_run] by simp
  have "am_calls ?t = []"
    by (simp add: asyncNotifyAMOPUnicast_def randomChooseSession_def demo_amop_value)
  with gateway_answered [OF run, of 3] show ?thesis by simp
qed

text \<open>
  C20: with a gateway reachable, a client's request is handed to the gateway and nothing else
  happens until the gateway answers; then exactly one message leaves this node: on success
  the decoded answer to the requester, on failure the request to a session of this node that
  subscribed to the topic, or if there is none an error to the requester with the gateway's
  code (a fixed text for the two timeout codes). Whatever goes to the requester carries the
  sequence number of its request.
\<close>

theorem request_outcome:
  assumes topic: "ae_requestTopic E (wm_data m) = Inr t" and up: "am_local s \<or> ae_endPoints E \<noteq> []"
    and s1: "s1 = amop_apply (Request E m ss) s"
    and s2: "s2 = amop_apply (GatewayAnswered E' (length (am_calls s)) err resp) s1"
    and dec: "ae_decode E' (ae_message E') resp = Inr r"
  shows "am_out s1 = am_out s @ [GatewayUnicast t (wm_data m)] \<and>
    (\<exists>o1. am_out s2 = am_out s1 @ [o1] \<and>
       (if \<not> failed err then o1 = SendMessage ss (r\<lparr>wm_seq := wm_seq m\<rparr>) \<and> am_calls s2 = am_calls s
        else if querySessionsByTopic t s \<noteq> fmempty
        then (\<exists>sel. sel \<in> snd ` set (fmap_list (querySessionsByTopic t s)) \<and> o1 = SendRequest sel m \<and>
                am_calls s2 = am_calls s @ [AwaitClient (ToSession ss)])
        else (\<exists>text. o1 = SendMessage ss ((ae_message E')\<lparr>wm_status := er_code (the err), wm_data := text,
                 wm_seq := wm_seq m\<rparr>) \<and> (er_code (the err) \<notin> {-7, -8} \<longrightarrow> text = er_msg (the err))) \<and>
             am_calls s2 = am_calls s))"
proof -
  let ?c = "AwaitGateway (wm_seq m) m t ss"
  have s1': "s1 = await ?c (emit [GatewayUnicast t (wm_data m)] s)"
    using topic up by (auto simp: s1 onRecvAMOPRequest_def tars_or_local)
  let ?d = "drop_call (length (am_calls s)) s1"
  have d: "am_calls ?d = am_calls s" "am_out ?d = am_out s @ [GatewayUnicast t (wm_data m)]"
    "am_topicToSessions ?d = am_topicToSessions s"
    by (simp_all add: s1' drop_call_def)
  have s2': "s2 = onGatewayReply E' (wm_seq m) m t ss err resp ?d"
    by (simp add: s2 s1')
  have q: "querySessionsByTopic t ?d = querySessionsByTopic t s"
    by (simp add: querySessionsByTopic_def s1')
  note choice = session_choice_in [where E = E' and t = t and s = ?d, unfolded q]
  show ?thesis
  proof (cases "failed err")
    case False
    with dec show ?thesis
      by (simp add: s2' onGatewayReply_def s1' drop_call_def)
  next
    case True
    show ?thesis
    proof (cases "randomChooseSession E' t ?d")
      case None
      with choice have "querySessionsByTopic t s = fmempty" by simp
      with None True d show ?thesis
        by (auto simp: s2' onGatewayReply_def trySendAMOPRequestToLocalNode_def Let_def s1')
    next
      case (Some sel)
      with choice have "sel \<in> snd ` set (fmap_list (querySessionsByTopic t s))" "querySessionsByTopic t s \<noteq> fmempty"
        by auto
      with Some True d show ?thesis
        by (auto simp: s2' onGatewayReply_def trySendAMOPRequestToLocalNode_def sendMessageToClient_def Let_def s1')
    qed
  qed
qed

lemma request_outcome_witness:
  "let s1 = amop_apply (Request (demo_amop_env [(''h'', ''1'')]) demo_sub 2) demo_amop;
       s2 = amop_apply (GatewayAnswered (demo_amop_env [(''h'', ''1'')]) 0 (Some \<lparr>er_code = -7, er_msg = ''''\<rparr>) '''') s1
   in am_out s2 = [GatewayUnicast ''b'' ''ab'', SendRequest 1 demo_sub]"
proof -
  let ?E = "demo_amop_env [(''h'', ''1'')]"
  obtain s1 s2 where s1: "s1 = amop_apply (Request ?E demo_sub 2) demo_amop"
    and s2: "s2 = amop_apply (GatewayAnswered ?E (length (am_calls demo_amop)) (Some \<lparr>er_code = -7, er_msg = ''''\<rparr>) '''') s1"
    by simp
  have "am_calls demo_amop = []" by (simp add: demo_amop_value)
  with request_outcome [OF _ _ s1 s2, of "''b''"] show ?thesis
    unfolding Let_def s1 [symmetric] s2 [symmetric]
    by (auto simp: demo_query demo_sub_def s2) (simp_all add: demo_amop_env_def)
qed

text \<open>
  C37: with no gateway reachable a request to a topic that has a session on this node is
  answered twice. The requester is sent an error with its sequence number first, then the
  request goes to the session all the same, and its answer is sent to the requester as well.
\<close>

theorem inactive_gateway_double_reply:
  assumes topic: "ae_requestTopic E (wm_data m) = Inr t" and down: "\<not> am_local s" "ae_endPoints E = []"
    and sub: "querySessionsByTopic t s \<noteq> fmempty"
    and s1: "s1 = amop_apply (Request E m ss) s"
    and s2: "s2 = amop_apply (ClientAnswered E' (length (am_calls s)) None (Some answer)) s1"
    and dec: "ae_decode E' (ae_message E') (ae_encode E' answer) = Inr r"
  shows "\<exists>e sel. am_out s2 = am_out s @ [SendMessage ss e, SendRequest sel m, SendMessage ss r] \<and>
           wm_seq e = wm_seq m \<and> wm_status e = -1"
proof -
  let ?e = "(ae_message E)\<lparr>wm_status := -1, wm_data := ''error for the gateway is in-activated'', wm_seq := wm_seq m\<rparr>"
  let ?s0 = "emit [SendMessage ss ?e] s"
  have "querySessionsByTopic t ?s0 = querySessionsByTopic t s"
    by (simp add: querySessionsByTopic_def)
  then obtain sel where sel: "randomChooseSession E t ?s0 = Some sel"
    using session_choice_in [where E = E and t = t and s = ?s0] sub
    by (cases "randomChooseSession E t ?s0") auto
  then have s1': "s1 = sendMessageToClient sel m (ToSession ss) ?s0"
    using topic down by (simp add: s1 onRecvAMOPRequest_def tars_or_local trySendAMOPRequestToLocalNode_def)
  have "s2 = emit [SendMessage ss r] (drop_call (length (am_calls s)) s1)"
    using dec by (simp add: s2 s1' sendMessageToClient_def onClientReply_def)
  then have "am_out s2 = am_out s @ [SendMessage ss ?e, SendRequest sel m, SendMessage ss r]"
    by (simp add: s1' sendMessageToClient_def)
  then show ?thesis
    by (intro exI [of _ ?e] exI [of _ sel]) simp
qed

lemma inactive_gateway_double_reply_witness:
  "\<exists>e sel. am_out (amop_apply (ClientAnswered (demo_amop_env []) 0 None (Some blank_message))
      (amop_apply (Request (demo_amop_env []) demo_sub 2) demo_amop)) =
     [SendMessage 2 e, SendRequest sel demo_sub, SendMessage 2 blank_message]"
proof -
  obtain s1 s2 where s1: "s1 = amop_apply (Request (demo_amop_env []) demo_sub 2) demo_amop"
    and s2: "s2 = amop_apply (ClientAnswered (demo_amop_env []) (length (am_calls demo_amop)) None (Some blank_message)) s1"
    by simp
  have c: "am_calls demo_amop = []" by (simp add: demo_amop_value)
  have "\<exists>e sel. am_out s2 = am_out demo_amop @ [SendMessage 2 e, SendRequest sel demo_sub, SendMessage 2 blank_message] \<and>
           wm_seq e = wm_seq demo_sub \<and> wm_status e = -1"
    by (rule inactive_gateway_double_reply [OF _ _ _ _ s1 s2, where t = "''b''"])
      (simp_all add: demo_query, simp_all add: demo_amop_env_def blank_message_def)
  then show ?thesis
    using s1 s2 by (auto simp: c demo_query)
qed

text \<open>
  The watch on the gateways. After a tick of the remote client its flag says whether any
  gateway is active; the recorded topics are told to every active gateway exactly at the
  ticks that find one after the flag was down, and tables are never touched.
\<close>

theorem ping_resubscribes:
  assumes t: "t = pingGatewayAndNotifyTopics E s" and remote: "\<not> am_local s"
  shows "(am_gatewayActivated t \<longleftrightarrow> ae_endPoints E \<noteq> []) \<and>
         am_topicToSessions t = am_topicToSessions s \<and> am_topicInfos t = am_topicInfos s \<and>
         am_out t = am_out s @
           (if am_gatewayActivated s then []
            else map (\<lambda>a. SubscribeTopic (Some (endPointToString (am_gatewayServiceName s) a)) (am_clientID s)
                            (generateTopicInfo E s)) (ae_endPoints E))"
  using remote
  by (auto simp: t pingGatewayAndNotifyTopics_def gw.subscribe_keeps gw.subscribe_tells node_targets_def
      tars_targets_def comp_def)

lemma ping_resubscribes_witness:
  "am_out (pingGatewayAndNotifyTopics (demo_amop_env [(''h'', ''1'')]) (demo_amop\<lparr>am_gatewayActivated := False\<rparr>)) =
     [SubscribeTopic (Some ''gw@tcp -h h -p 1'') ''localAMOP'' ''text'']"
proof -
  let ?s = "demo_amop\<lparr>am_gatewayActivated := False\<rparr>"
  have "am_out (pingGatewayAndNotifyTopics (demo_amop_env [(''h'', ''1'')]) ?s) = am_out ?s @
      (if am_gatewayActivated ?s then []
       else map (\<lambda>a. SubscribeTopic (Some (endPointToString (am_gatewayServiceName ?s) a)) (am_clientID ?s)
              (generateTopicInfo (demo_amop_env [(''h'', ''1'')]) ?s)) (ae_endPoints (demo_amop_env [(''h'', ''1'')])))"
    using ping_resubscribes [OF refl, of ?s "demo_amop_env [(''h'', ''1'')]"] by (simp add: demo_query)
  then show ?thesis
    by (simp add: demo_query endPointToString_def generateTopicInfo_def)
      (simp add: demo_amop_env_def ref_jsoncpp_def)
qed

end
