(* ===== verification/AMOPTopics.thy ===== *)
theory AMOPTopics
  imports AMOPProps
begin

text \<open>
  What the topic tables of the AMOP client stand for: the subscriptions of the past that no
  later message and no disconnection took back. The abstract view of a run is its history of
  events; \<open>subscriber\<close> reads from it who listens to a topic, \<open>announced\<close> what the gateways
  are told of it, and the tables of the class are shown to hold exactly that.
\<close>

subsection \<open>The history of a topic\<close>

text \<open>The topics a message of an event names, with the session that names them.\<close>

fun subscribes :: "amop_event \<Rightarrow> (string list \<times> string \<times> session) option" where
  "subscribes (SubTopics E m ss) =
     map_option (\<lambda>ts. (ts, wm_data m, ss)) (ae_parseSubTopicsJson E (wm_data m))"
| "subscribes _ = None"

fun closes :: "amop_event \<Rightarrow> session option" where
  "closes (Disconnected E ss) = Some ss"
| "closes _ = None"

text \<open>What an event does to the session that listens to a topic at an endpoint.\<close>

definition listen :: "(session \<Rightarrow> string) \<Rightarrow> string \<Rightarrow> string \<Rightarrow> amop_event \<Rightarrow> session option \<Rightarrow> session option" where
  "listen ep t e ev x =
     (case (subscribes ev, closes ev) of
        (Some (ts, info, ss), _) \<Rightarrow> if t \<in> set ts \<and> ep ss = e then Some ss else x
      | (None, Some ss) \<Rightarrow> if ep ss = e then None else x
      | (None, None) \<Rightarrow> x)"

definition subscriber :: "(session \<Rightarrow> string) \<Rightarrow> amop_event list \<Rightarrow> string \<Rightarrow> string \<Rightarrow> session option" where
  "subscriber ep es t e = fold (listen ep t e) es None"

text \<open>
  A topic is announced with the text of the last message that named it first, if it has had
  a subscriber ever since.
\<close>

definition announced :: "(session \<Rightarrow> string) \<Rightarrow> amop_event list \<Rightarrow> string \<Rightarrow> string \<Rightarrow> bool" where
  "announced ep es t info \<longleftrightarrow>
     (\<exists>past ev later ts ss.
        es = past @ ev # later \<and> subscribes ev = Some (t # ts, info, ss) \<and>
        (\<forall>ev' ts' info' ss'. ev' \<in> set later \<longrightarrow> subscribes ev' \<noteq> Some (t # ts', info', ss')) \<and>
        (\<forall>mid rest. later = mid @ rest \<longrightarrow> (\<exists>e. subscriber ep (past @ ev # mid) t e \<noteq> None)))"

lemma announcedI:
  assumes "es = past @ ev # later" and "subscribes ev = Some (t # ts, info, ss)"
    and "\<And>ev' ts' info' ss'. ev' \<in> set later \<Longrightarrow> subscribes ev' \<noteq> Some (t # ts', info', ss')"
    and "\<And>mid rest. later = mid @ rest \<Longrightarrow> \<exists>e. subscriber ep (past @ ev # mid) t e \<noteq> None"
  shows "announced ep es t info"
  unfolding announced_def using assms by blast

lemma announcedE:
  assumes "announced ep es t info"
  obtains past ev later ts ss where "es = past @ ev # later" and "subscribes ev = Some (t # ts, info, ss)"
    and "\<And>ev' ts' info' ss'. ev' \<in> set later \<Longrightarrow> subscribes ev' \<noteq> Some (t # ts', info', ss')"
    and "\<And>mid rest. later = mid @ rest \<Longrightarrow> \<exists>e. subscriber ep (past @ ev # mid) t e \<noteq> None"
  using assms unfolding announced_def by blast

lemma subscriber_Nil [simp]: "subscriber ep [] t e = None"
  by (simp add: subscriber_def)

lemma subscriber_snoc [simp]: "subscriber ep (es @ [ev]) t e = listen ep t e ev (subscriber ep es t e)"
  by (simp add: subscriber_def)

lemma announced_Nil [simp]: "\<not> announced ep [] t info"
  by (simp add: announced_def)

lemma announced_snoc:
  "announced ep (es @ [ev]) t info \<longleftrightarrow>
     (\<exists>ts ss. subscribes ev = Some (t # ts, info, ss)) \<or>
     (announced ep es t info \<and> (\<forall>ts info' ss. subscribes ev \<noteq> Some (t # ts, info', ss)) \<and>
      (\<exists>e. listen ep t e ev (subscriber ep es t e) \<noteq> None))" (is "?L \<longleftrightarrow> ?new \<or> ?old")
proof
  assume ?L
  then show "?new \<or> ?old"
  proof (cases rule: announcedE)
    case (1 past ev0 later ts ss)
    show ?thesis
    proof (cases later rule: rev_cases)
      case Nil
      with 1(1,2) show ?thesis by auto
    next
      case (snoc l x)
      with 1(1) have es: "es = past @ ev0 # l" "x = ev" by simp_all
      have "announced ep es t info"
        by (rule announcedI [OF es(1) 1(2)]) (use 1(3,4) snoc in auto)
      moreover have "\<exists>e. subscriber ep (es @ [ev]) t e \<noteq> None"
        using 1(4) [of later "[]"] by (simp only: es append_Cons append_assoc append_Nil2 snoc)
      ultimately show ?thesis using 1(3) snoc es(2) by auto
    qed
  qed
next
  assume "?new \<or> ?old"
  then show ?L
  proof
    assume ?new
    then obtain ts ss where s: "subscribes ev = Some (t # ts, info, ss)" by blast
    then have "\<exists>e. subscriber ep (es @ [ev]) t e \<noteq> None"
      by (intro exI [of _ "ep ss"]) (simp add: listen_def)
    with s show ?L
      by (intro announcedI [of _ es ev "[]"]) auto
  next
    assume o: ?old
    then have "announced ep es t info" by blast
    then show ?L
    proof (cases rule: announcedE)
      case (1 past ev0 later ts ss)
      have "\<exists>e. subscriber ep (past @ ev0 # mid) t e \<noteq> None" if "later @ [ev] = mid @ rest" for mid rest
      proof (cases rest rule: rev_cases)
        case Nil
        with that have "past @ ev0 # mid = es @ [ev]" using 1(1) by simp
        with o show ?thesis by simp
      next
        case (snoc r x)
        with that have "later = mid @ r" by simp
        then show ?thesis by (rule 1(4))
      qed
      then show ?L
        by (intro announcedI [of _ past ev0 "later @ [ev]"]) (use 1 o in auto)
    qed
  qed
qed

subsection \<open>The tables\<close>

lemma listen_other [simp]:
  "subscribes ev = None \<Longrightarrow> closes ev = None \<Longrightarrow> listen ep t e ev x = x"
  by (simp add: listen_def)

lemma idle_event:
  assumes "subscribes ev = None" and "closes ev = None"
  shows "am_topicToSessions (amop_apply ev s) = am_topicToSessions s" (is ?A)
    and "am_topicInfos (amop_apply ev s) = am_topicInfos s" (is ?B)
proof -
  have "?A \<and> ?B"
  proof (cases "\<exists>E m ss. ev = SubTopics E m ss")
    case True
    with assms(1) show ?thesis by (auto simp: onRecvSubTopics_def updateTopicInfos_def)
  next
    case False
    with assms(2) have "keeps_tables (amop_apply ev)" by (intro event_keeps) auto
    then show ?thesis by (simp add: keeps_tables_def)
  qed
  then show ?A ?B by simp_all
qed


lemma fmlookup_ex: "(\<exists>e. fmlookup m e \<noteq> None) \<longleftrightarrow> m \<noteq> fmempty"
  by (metis fmempty_lookup fmap_ext)

lemma subscription_tables:
  assumes ev: "ev = SubTopics E m ss" and sub: "subscribes ev = Some (ts, info, ss')"
  shows "ss' = ss" and "info = wm_data m"
    and "querySessionsByTopic t (amop_apply ev s) =
           (if t \<in> set ts then fmupd (ae_endPoint E ss) ss (querySessionsByTopic t s) else querySessionsByTopic t s)"
    and "fmlookup (am_topicInfos (amop_apply ev s)) t =
           (if \<exists>ts'. ts = t # ts' then Some info else fmlookup (am_topicInfos s) t)"
proof -
  from sub ev have p: "ae_parseSubTopicsJson E (wm_data m) = Some ts" and "ss' = ss" "info = wm_data m"
    by auto
  then show "ss' = ss" "info = wm_data m" by simp_all
  show "querySessionsByTopic t (amop_apply ev s) =
           (if t \<in> set ts then fmupd (ae_endPoint E ss) ss (querySessionsByTopic t s) else querySessionsByTopic t s)"
    using fold_add_session_lookup [of t "ae_endPoint E ss" ss ts s]
    by (cases ts) (simp_all add: ev onRecvSubTopics_def updateTopicInfos_def p Let_def querySessionsByTopic_def gw.subscribe_keeps)
  show "fmlookup (am_topicInfos (amop_apply ev s)) t =
           (if \<exists>ts'. ts = t # ts' then Some info else fmlookup (am_topicInfos s) t)"
    by (cases ts) (auto simp: ev onRecvSubTopics_def updateTopicInfos_def p Let_def gw.subscribe_keeps
        \<open>info = wm_data m\<close> simp del: fold.simps)
qed

text \<open>The two tables after an event, read off the tables before it.\<close>

lemma tables_after:
  assumes ok: "topics_ok ep s" and ep: "ae_endPoint (event_env ev) = ep"
  shows "fmlookup (querySessionsByTopic t (amop_apply ev s)) e = listen ep t e ev (fmlookup (querySessionsByTopic t s) e)"
    (is ?who)
    and "fmlookup (am_topicInfos (amop_apply ev s)) t = Some info \<longleftrightarrow>
           (\<exists>ts ss. subscribes ev = Some (t # ts, info, ss)) \<or>
           fmlookup (am_topicInfos s) t = Some info \<and> (\<forall>ts info' ss. subscribes ev \<noteq> Some (t # ts, info', ss)) \<and>
           (\<exists>e. fmlookup (querySessionsByTopic t (amop_apply ev s)) e \<noteq> None)" (is ?what)
proof -
  have named: "\<exists>e. fmlookup (querySessionsByTopic t u) e \<noteq> None"
    if "topics_ok ep u" and "fmlookup (am_topicInfos u) t \<noteq> None" for u
  proof -
    from that have "t |\<in>| fmdom (am_topicToSessions u)"
      by (auto simp: topics_ok_def dest: fmdomI)
    then obtain m where m: "fmlookup (am_topicToSessions u) t = Some m" by (auto simp: fmlookup_dom_iff)
    with that(1) have "m \<noteq> fmempty" by (auto simp: topics_ok_def)
    with m show ?thesis
      by (simp only: fmlookup_ex querySessionsByTopic_def option.case) simp
  qed
  have ok': "topics_ok ep (amop_apply ev s)" by (rule amop_apply_ok [OF ok ep])
  have "?who \<and> ?what"
  proof (cases "subscribes ev")
    case (Some x)
    then obtain E m ss ts info' where ev: "ev = SubTopics E m ss" and x: "x = (ts, info', ss)"
      by (cases ev) auto
    note sub = subscription_tables [OF ev Some [unfolded x]]
    have ?who using ep sub(3) by (simp only: listen_def Some x) (simp add: ev)
    moreover have ?what
      using named [OF ok'] sub(4) by (auto simp: Some x)
    ultimately show ?thesis ..
  next
    case None
    show ?thesis
    proof (cases "closes ev")
      case (Some ss)
      then obtain E where ev: "ev = Disconnected E ss" by (cases ev) auto
      have E: "ae_endPoint E = ep" using ep ev by simp
      note dis = disconnect_tables [OF ok E refl, of t ss]
      have ?who by (simp add: ev dis listen_def)
      moreover have ?what
        unfolding fmlookup_ex using dis None by (simp add: ev)
      ultimately show ?thesis ..
    next
      case none: None
      have "querySessionsByTopic t (amop_apply ev s) = querySessionsByTopic t s"
        by (simp add: querySessionsByTopic_def idle_event [OF None none])
      then show ?thesis
        using named [OF ok] by (auto simp: idle_event [OF None none] None none)
    qed
  qed
  then show ?who ?what by simp_all
qed

interpretation topics: history_invariant "amop_step ep" "new_amop loc name"
  "\<lambda>es s. topics_ok ep s \<and>
     (\<forall>t e. fmlookup (querySessionsByTopic t s) e = subscriber ep es t e) \<and>
     (\<forall>t info. fmlookup (am_topicInfos s) t = Some info \<longleftrightarrow> announced ep es t info)" for ep loc name
proof
  show "topics_ok ep (new_amop loc name) \<and>
      (\<forall>t e. fmlookup (querySessionsByTopic t (new_amop loc name)) e = subscriber ep [] t e) \<and>
      (\<forall>t info. fmlookup (am_topicInfos (new_amop loc name)) t = Some info \<longleftrightarrow> announced ep [] t info)"
    using amop.inv_init by (simp add: new_amop_def querySessionsByTopic_def)
next
  fix es s ev s'
  assume h: "topics_ok ep s \<and> (\<forall>t e. fmlookup (querySessionsByTopic t s) e = subscriber ep es t e) \<and>
      (\<forall>t info. fmlookup (am_topicInfos s) t = Some info \<longleftrightarrow> announced ep es t info)"
    and "amop_step ep s ev s'"
  then have s': "s' = amop_apply ev s" and ep: "ae_endPoint (event_env ev) = ep"
    by (auto elim: amop_step.cases)
  note after = tables_after [OF conjunct1 [OF h] ep]
  show "topics_ok ep s' \<and> (\<forall>t e. fmlookup (querySessionsByTopic t s') e = subscriber ep (es @ [ev]) t e) \<and>
      (\<forall>t info. fmlookup (am_topicInfos s') t = Some info \<longleftrightarrow> announced ep (es @ [ev]) t info)"
    using h amop_apply_ok [OF _ ep] by (simp add: s' after announced_snoc)
qed

subsection \<open>Property\<close>

text \<open>
  C33: the topic tables are the subscriptions of the past. In every state a run reaches, a
  session is filed under a topic at its endpoint exactly when it was the last one of that
  endpoint to name the topic in a valid message and no session of the endpoint closed since; a
  topic is recorded for the gateways exactly with the text of the last message that named it
  first, if it has had a subscriber ever since; when the gateways are told the topics, each
  is sent the names of the recorded ones, in order, and not their texts; and a broadcast on a
  topic is sent once to each of its subscribers and to no one else.
\<close>

theorem topic_history:
  assumes "run (amop_step ep) (new_amop loc name) es s"
  shows "(\<forall>t e. fmlookup (querySessionsByTopic t s) e = subscriber ep es t e) \<and>
         (\<forall>t info. fmlookup (am_topicInfos s) t = Some info \<longleftrightarrow> announced ep es t info) \<and>
         (\<forall>E. \<exists>ts. sorted ts \<and> distinct ts \<and> set ts = {t. \<exists>info. announced ep es t info} \<and>
            am_out (subscribeTopicToAllNodes E s) = am_out s @ map (\<lambda>g. SubscribeTopic g (am_clientID s)
              (jstyled (ae_json E) (JObject (jassign [(''topics'', JArray (map JString ts))] fmempty))))
              (if am_local s then [None]
               else map (\<lambda>gw. Some (endPointToString (am_gatewayServiceName s) gw)) (ae_endPoints E))) \<and>
         (\<forall>t m. \<exists>subs. distinct (map ep subs) \<and> set subs = {ss. \<exists>e. subscriber ep es t e = Some ss} \<and>
            am_out (broadcastAMOPMessage t m s) = am_out s @ map (\<lambda>ss. SendRequest ss m) subs)"
proof (intro conjI allI)
  note h = topics.run_hinv [OF assms]
  fix t e show "fmlookup (querySessionsByTopic t s) e = subscriber ep es t e" using h by blast
next
  note h = topics.run_hinv [OF assms]
  fix t info show "fmlookup (am_topicInfos s) t = Some info \<longleftrightarrow> announced ep es t info" using h by blast
next
  note h = topics.run_hinv [OF assms]
  fix E
  have "set (fset_list (fmdom (am_topicInfos s))) = {t. \<exists>info. announced ep es t info}"
    using h by (auto simp: fmlookup_dom_iff)
  then show "\<exists>ts. sorted ts \<and> distinct ts \<and> set ts = {t. \<exists>info. announced ep es t info} \<and>
      am_out (subscribeTopicToAllNodes E s) = am_out s @ map (\<lambda>g. SubscribeTopic g (am_clientID s)
        (jstyled (ae_json E) (JObject (jassign [(''topics'', JArray (map JString ts))] fmempty))))
        (if am_local s then [None]
         else map (\<lambda>gw. Some (endPointToString (am_gatewayServiceName s) gw)) (ae_endPoints E))"
    by (intro exI [of _ "fset_list (fmdom (am_topicInfos s))"])
      (simp add: gw.subscribe_tells generateTopicInfo_def node_targets_def tars_targets_def
        del: set_fset_list)
next
  fix t m
  note h = topics.run_hinv [OF assms]
  define xs where "xs = fmap_list (querySessionsByTopic t s)"
  have who: "fmlookup (querySessionsByTopic t s) e = subscriber ep es t e" for e
    using h by blast
  have at: "ep ss = e" if "(e, ss) \<in> set xs" for e ss
    using fmpredD [OF topics_ok_query [OF conjunct1 [OF h]]] that by (simp add: xs_def)
  have "map (ep \<circ> snd) xs = map fst xs"
    by (rule map_cong [OF refl]) (use at in auto)
  then have "map ep (map snd xs) = fset_list (fmdom (querySessionsByTopic t s))"
    by (simp add: xs_def)
  then have "distinct (map ep (map snd xs))" by (simp only: distinct_fset_list)
  moreover have "set (map snd xs) = {ss. \<exists>e. subscriber ep es t e = Some ss}"
    unfolding xs_def set_map set_fmap_list who by force
  moreover have "am_out (broadcastAMOPMessage t m s) = am_out s @ map (\<lambda>ss. SendRequest ss m) (map snd xs)"
    by (simp add: broadcast_eq xs_def emit_def case_prod_unfold comp_def)
  ultimately show "\<exists>subs. distinct (map ep subs) \<and> set subs = {ss. \<exists>e. subscriber ep es t e = Some ss} \<and>
      am_out (broadcastAMOPMessage t m s) = am_out s @ map (\<lambda>ss. SendRequest ss m) subs"
    by blast
qed

lemma topic_history_witness:
  "announced (ae_endPoint (demo_amop_env [])) [SubTopics (demo_amop_env []) demo_sub 1] ''a'' ''ab'' \<and>
   (\<nexists>info. announced (ae_endPoint (demo_amop_env [])) [SubTopics (demo_amop_env []) demo_sub 1] ''b'' info) \<and>
   subscriber (ae_endPoint (demo_amop_env [])) [SubTopics (demo_amop_env []) demo_sub 1] ''b'' ''ep1'' = Some 1"
proof -
  note th = topic_history [OF demo_amop_run]
  note h = conjunct1 [OF th] conjunct1 [OF conjunct2 [OF th]]
  have "fmlookup (am_topicInfos demo_amop) ''a'' = Some ''ab''" "fmlookup (am_topicInfos demo_amop) ''b'' = None"
    by (simp_all add: demo_amop_value)
  moreover have "fmlookup (querySessionsByTopic ''b'' demo_amop) ''ep1'' = Some 1"
    by (simp add: demo_query)
  ultimately show ?thesis
    by (metis h option.distinct(1))
qed

end
