(* ===== verification/RpcJson.thy ===== *)
theory RpcJson
  imports ChainData GroupData
begin

text \<open>
  The data of the JSON-RPC interface: \<^theory_text>\<open>jsonrpc/Common.h\<close> and the static functions of
  \<^theory_text>\<open>JsonRpcImpl_2_0.cpp\<close>. First the request and response objects with their parsers and
  printers, then the functions that turn chain data, group data and gateway data into JSON.

  The program fills a \<^theory_text>\<open>Json::Value\<close> that starts out null with assignments
  \<^theory_text>\<open>v["key"] = w\<close>: \<open>jset\<close> does a sequence of them, and the first turns null into an object.
\<close>

subsection \<open>Reading what may be missing\<close>

text \<open>
  The methods read parameters, and members of JSON they built themselves, without asking
  whether they are there. \<open>json_lenient\<close> is jsoncpp's documented behaviour then: a missing
  element or member reads as null, and null converts to the empty string, zero and false.
\<close>

definition json_lenient :: "jsoncpp \<Rightarrow> bool" where
  "json_lenient J \<longleftrightarrow>
     (\<forall>f k. fmlookup f k = None \<longrightarrow> jmember J (JObject f) k = Inr JNull) \<and>
     (\<forall>k. jmember J JNull k = Inr JNull) \<and>
     (\<forall>xs i. length xs \<le> i \<longrightarrow> jindex J (JArray xs) i = Inr JNull) \<and>
     jasString J JNull = Inr '''' \<and> jasInt64 J JNull = Inr 0 \<and> jasBool J JNull = Inr False"

lemma json_lenientD:
  assumes "json_lenient J"
  shows lenient_member: "fmlookup f k = None \<Longrightarrow> jmember J (JObject f) k = Inr JNull"
    and lenient_null: "jmember J JNull k = Inr JNull"
    and lenient_index: "length xs \<le> i \<Longrightarrow> jindex J (JArray xs) i = Inr JNull"
    and lenient_string: "jasString J JNull = Inr ''''"
    and lenient_int: "jasInt64 J JNull = Inr 0"
    and lenient_bool: "jasBool J JNull = Inr False"
  using assms unfolding json_lenient_def by blast+

lemmas json_lenient = lenient_member lenient_null lenient_index lenient_string lenient_int lenient_bool

lemma ref_jsoncpp_lenient [simp]: "json_lenient (ref_jsoncpp p w)"
  by (simp add: json_lenient_def ref_jsoncpp_def in_i64_def)

definition jset :: "(string \<times> json) list \<Rightarrow> json \<Rightarrow> json" where
  "jset kvs v = JObject (jassign kvs (case v of JObject f \<Rightarrow> f | _ \<Rightarrow> fmempty))"

lemma jset_simps [simp]:
  "jset kvs (JObject f) = JObject (jassign kvs f)" "jset kvs JNull = JObject (jassign kvs fmempty)"
  by (simp_all add: jset_def)

lemma jset_jset [simp]: "jset ys (jset xs v) = jset (xs @ ys) v"
  by (simp add: jset_def)

definition i32 :: "int \<Rightarrow> int" where
  "i32 x = (x + 2 ^ 31) mod 2 ^ 32 - 2 ^ 31"

lemma i32_id [simp]: "in_i32 x \<Longrightarrow> i32 x = x"
  by (simp add: i32_def in_i32_def)

text \<open>\<^theory_text>\<open>std::to_string\<close>\<close>

fun decimal :: "nat \<Rightarrow> string" where
  "decimal n = (if n < 10 then [''0123456789'' ! n]
                else decimal (n div 10) @ [''0123456789'' ! (n mod 10)])"

declare decimal.simps [simp del]

definition to_string :: "int \<Rightarrow> string" where
  "to_string x = (if x < 0 then ''-'' @ decimal (nat (- x)) else decimal (nat x))"

subsection \<open>Error codes\<close>

datatype rpc_error_code =
    ParseError | InvalidRequest | MethodNotFound | InvalidParams | InternalError
  | NodeNotExistOrNotStarted | GroupAlreadyExists | NodeAlreadyExists | OperationNotAllowed
  | ServiceNotInitCompleted

fun rpc_code :: "rpc_error_code \<Rightarrow> int" where
  "rpc_code ParseError = -32700"
| "rpc_code InvalidRequest = -32600"
| "rpc_code MethodNotFound = -32601"
| "rpc_code InvalidParams = -32602"
| "rpc_code InternalError = -32603"
| "rpc_code NodeNotExistOrNotStarted = -32000"
| "rpc_code GroupAlreadyExists = -32001"
| "rpc_code NodeAlreadyExists = -32002"
| "rpc_code OperationNotAllowed = -32003"
| "rpc_code ServiceNotInitCompleted = -320004"

definition rpc_throw :: "rpc_error_code \<Rightarrow> string \<Rightarrow> exn" where
  "rpc_throw c msg = JsonRpcException (rpc_code c) msg"

text \<open>\<^theory_text>\<open>c_str()\<close> read back as a string ends at the first null character.\<close>

definition c_str :: "string \<Rightarrow> string" where
  "c_str s = takeWhile (\<lambda>c. c \<noteq> CHR 0x00) s"

lemma c_str_simps [simp]: "c_str [] = []" "c_str (c # s) = (if c = CHR 0x00 then [] else c # c_str s)"
  by (simp_all add: c_str_def)

fun what :: "exn \<Rightarrow> string" where
  "what (JsonRpcException c msg) = c_str msg"
| "what (StdException msg) = msg"

subsection \<open>Requests\<close>

record jsonRequest =
  jq_jsonrpc :: string
  jq_method :: string
  jq_id :: int
  jq_params :: json

definition parse_request_root :: "jsoncpp \<Rightarrow> json \<Rightarrow> jsonRequest attempt" where
  "parse_request_root J root =
     required J root ''jsonrpc'' ''request has no jsonrpc field'' (\<lambda>v.
     rbind (jasString J v) (\<lambda>jsonrpc.
     required J root ''method'' ''request has no method field'' (\<lambda>v.
     rbind (jasString J v) (\<lambda>method.
     rbind (optional J root ''id'' (jasInt64 J) 0) (\<lambda>i.
     required J root ''params'' ''request has no params field'' (\<lambda>jParams.
       if \<not> isArray jParams then Inr (Inl ''request params is not array object'')
       else Inr (Inr \<lparr>jq_jsonrpc = jsonrpc, jq_method = method, jq_id = i, jq_params = jParams\<rparr>)))))))"

definition parseRpcRequestJson :: "jsoncpp \<Rightarrow> string \<Rightarrow> exn + jsonRequest" where
  "parseRpcRequestJson J body =
     (case rbind (jparse J body) (\<lambda>r. case r of
             None \<Rightarrow> Inr (Inl ''invalid request json object'')
           | Some root \<Rightarrow> parse_request_root J root) of
        Inl e \<Rightarrow> Inl (rpc_throw ParseError ''Invalid JSON was received by the server.'')
      | Inr (Inl msg) \<Rightarrow> Inl (rpc_throw InvalidRequest ''The JSON sent is not a valid Request object.'')
      | Inr (Inr rq) \<Rightarrow> Inr rq)"

subsection \<open>Responses\<close>

record jsonResponse =
  jr_jsonrpc :: string
  jr_id :: int
  jr_code :: int
  jr_message :: string
  jr_result :: json

text \<open>A fresh response object: the id is not initialised and reads as the argument.\<close>

definition new_response :: "int \<Rightarrow> jsonResponse" where
  "new_response junk =
     \<lparr>jr_jsonrpc = '''', jr_id = junk, jr_code = 0, jr_message = ''success'', jr_result = JNull\<rparr>"

definition error_toString :: "jsonResponse \<Rightarrow> string" where
  "error_toString r =
     ''{\"code\":'' @ to_string (jr_code r) @ ''\"message\":'' @ jr_message r @ ''}''"

definition toJsonResponse :: "jsonResponse \<Rightarrow> json" where
  "toJsonResponse r =
     (let jResp = jset [(''jsonrpc'', JString (jr_jsonrpc r)), (''id'', JInt (jr_id r))] JNull
      in if jr_code r = 0 then jset [(''result'', jr_result r)] jResp
         else let jError = jset [(''code'', JInt (jr_code r)), (''message'', JString (jr_message r))] JNull
              in jset [(''error'', jError)] jResp)"

definition toStringResponse :: "jsoncpp \<Rightarrow> jsonResponse \<Rightarrow> string" where
  "toStringResponse J r = jwrite J (toJsonResponse r)"

text \<open>
  The response parser fills the object it is given field by field, so a failure leaves the
  fields read before it. \<open>stmts\<close> runs a list of statements on the object; a statement that
  throws or breaks off has no effect itself and ends the run.
\<close>

fun stmts :: "('s \<Rightarrow> exn + (string + 's)) list \<Rightarrow> 's \<Rightarrow> (exn + string) option \<times> 's" where
  "stmts [] s = (None, s)"
| "stmts (c # cs) s =
     (case c s of
        Inl e \<Rightarrow> (Some (Inl e), s)
      | Inr (Inl msg) \<Rightarrow> (Some (Inr msg), s)
      | Inr (Inr t) \<Rightarrow> stmts cs t)"

definition parse_response_root :: "jsoncpp \<Rightarrow> json \<Rightarrow> (jsonResponse \<Rightarrow> jsonResponse attempt) list" where
  "parse_response_root J root =
     [\<lambda>r. required J root ''jsonrpc'' ''response has no jsonrpc field'' (\<lambda>v.
        rbind (jasString J v) (\<lambda>x. Inr (Inr (r\<lparr>jr_jsonrpc := x\<rparr>)))),
      \<lambda>r. required J root ''id'' ''response has no id field'' (\<lambda>v.
        rbind (jasInt64 J v) (\<lambda>x. Inr (Inr (r\<lparr>jr_id := x\<rparr>)))),
      \<lambda>r. rbind (optional J root ''error'' (\<lambda>jError. rbind (jmember J jError ''code'') (\<lambda>v.
        rbind (jasInt64 J v) (\<lambda>x. Inr (r\<lparr>jr_code := i32 x\<rparr>)))) r) (\<lambda>r. Inr (Inr r)),
      \<lambda>r. rbind (optional J root ''error'' (\<lambda>jError. rbind (jmember J jError ''message'') (\<lambda>v.
        rbind (jasString J v) (\<lambda>x. Inr (r\<lparr>jr_message := x\<rparr>)))) r) (\<lambda>r. Inr (Inr r)),
      \<lambda>r. rbind (optional J root ''result'' (\<lambda>v. Inr (r\<lparr>jr_result := v\<rparr>)) r) (\<lambda>r. Inr (Inr r))]"

definition parseRpcResponseJson :: "jsoncpp \<Rightarrow> string \<Rightarrow> jsonResponse \<Rightarrow> exn option \<times> jsonResponse" where
  "parseRpcResponseJson J body r =
     (case (case jparse J body of
              Inl e \<Rightarrow> (Some (Inl e), r)
            | Inr None \<Rightarrow> (Some (Inr ''invalid response json object''), r)
            | Inr (Some root) \<Rightarrow> stmts (parse_response_root J root) r) of
        (None, r') \<Rightarrow> (None, r')
      | (Some (Inl e), r') \<Rightarrow>
          (Some (rpc_throw ParseError ''Invalid JSON was received by the server.''), r')
      | (Some (Inr msg), r') \<Rightarrow>
          (Some (rpc_throw InvalidRequest ''The JSON sent is not a valid Response object.''), r'))"

subsection \<open>Chain data\<close>

definition tx_toJsonResp :: "hexlib \<Rightarrow> transaction \<Rightarrow> json \<Rightarrow> json" where
  "tx_toJsonResp hx tx jResp =
     jset
       [(''version'', JInt (tx_version tx)),
        (''hash'', JString (hx_bytes hx (tx_hash tx))),
        (''nonce'', JString (hx_u256 hx (tx_nonce tx))),
        (''blockLimit'', JInt (tx_blockLimit tx)),
        (''to'', JString (tx_to tx)),
        (''from'', JString (hx_bytes hx (tx_sender tx))),
        (''input'', JString (hx_bytes hx (tx_input tx))),
        (''importTime'', JInt (tx_importTime tx)),
        (''chainID'', JString (tx_chainId tx)),
        (''groupID'', JString (tx_groupId tx)),
        (''signature'', JString (hx_bytes hx (tx_signatureData tx)))] jResp"

definition log_json :: "hexlib \<Rightarrow> logEntry \<Rightarrow> json" where
  "log_json hx e =
     jset
       [(''address'', JString (le_address e)),
        (''topic'', JArray (map (\<lambda>t. JString (hx_hexPrefixed hx t)) (le_topics e))),
        (''data'', JString (hx_bytes hx (le_data e)))] JNull"

definition receipt_toJsonResp :: "hexlib \<Rightarrow> string \<Rightarrow> receipt \<Rightarrow> json \<Rightarrow> json" where
  "receipt_toJsonResp hx txHash rc jResp =
     jset
       [(''version'', JInt (rc_version rc)),
        (''contractAddress'', JString (rc_contractAddress rc)),
        (''gasUsed'', JString (hx_u256 hx (rc_gasUsed rc))),
        (''status'', JInt (rc_status rc)),
        (''blockNumber'', JInt (rc_blockNumber rc)),
        (''output'', JString (hx_bytes hx (rc_output rc))),
        (''transactionHash'', JString txHash),
        (''hash'', JString (hx_hexPrefixed hx (rc_hash rc))),
        (''logEntries'', JArray (map (log_json hx) (rc_logEntries rc)))] jResp"

definition header_toJsonResp :: "hexlib \<Rightarrow> blockHeader option \<Rightarrow> json \<Rightarrow> json" where
  "header_toJsonResp hx header jResp =
     (case header of
        None \<Rightarrow> jResp
      | Some h \<Rightarrow>
          jset
            [(''hash'', JString (hx_bytes hx (bh_hash h))),
             (''version'', JInt (bh_version h)),
             (''txsRoot'', JString (hx_bytes hx (bh_txsRoot h))),
             (''receiptsRoot'', JString (hx_bytes hx (bh_receiptsRoot h))),
             (''stateRoot'', JString (hx_bytes hx (bh_stateRoot h))),
             (''number'', JInt (bh_number h)),
             (''gasUsed'', JString (hx_u256 hx (bh_gasUsed h))),
             (''timestamp'', JInt (bh_timestamp h)),
             (''sealer'', JInt (bh_sealer h)),
             (''extraData'', JString (hx_bytes hx (bh_extraData h))),
             (''consensusWeights'', JArray (map JUInt (bh_consensusWeights h))),
             (''sealerList'', JArray (map (\<lambda>b. JString (hx_bytes hx b)) (bh_sealerList h))),
             (''parentInfo'', JArray (map (\<lambda>p. jset
                [(''blockNumber'', JInt (pi_blockNumber p)),
                 (''blockHash'', JString (hx_bytes hx (pi_blockHash p)))] JNull) (bh_parentInfo h))),
             (''signatureList'', JArray (map (\<lambda>s. jset
                [(''sealerIndex'', JInt (sg_index s)),
                 (''signature'', JString (hx_bytes hx (sg_signature s)))] JNull) (bh_signatureList h)))]
            jResp)"

definition block_toJsonResp :: "hexlib \<Rightarrow> block option \<Rightarrow> bool \<Rightarrow> json \<Rightarrow> json" where
  "block_toJsonResp hx blk onlyTxHash jResp =
     (case blk of
        None \<Rightarrow> jResp
      | Some b \<Rightarrow>
          jset [(''transactions'', JArray (map (\<lambda>index.
              if onlyTxHash then JString (hx_bytes hx (tx_hash (bl_transaction b index)))
              else tx_toJsonResp hx (bl_transaction b index) JNull)
              [0..<bl_transactionsSize b]))]
            (header_toJsonResp hx (bl_header b) jResp))"

text \<open>
  A Merkle proof is a list of pairs of lists. \<open>jResp[key][index]\<close> makes \<open>jResp[key]\<close> an
  array at the first item, so an empty proof leaves the response as it is.
\<close>

type_synonym merkleProof = "(string list \<times> string list) list"

definition addProofToResponse :: "string \<Rightarrow> merkleProof option \<Rightarrow> json \<Rightarrow> json" where
  "addProofToResponse key proof jResp =
     (case proof of
        None \<Rightarrow> jResp
      | Some items \<Rightarrow>
          if items = [] then jResp
          else jset [(key, JArray (map (\<lambda>(left, right). jset
                 [(''left'', JArray (map JString left)),
                  (''right'', JArray (map JString right))] JNull) items))] jResp)"

subsection \<open>Groups, nodes and gateways\<close>

definition generateResponse :: "rpc_error option \<Rightarrow> json" where
  "generateResponse e =
     jset
       [(''code'', JInt (case e of None \<Rightarrow> 0 | Some err \<Rightarrow> er_code err)),
        (''msg'', JString (case e of None \<Rightarrow> ''success'' | Some err \<Rightarrow> er_msg err))] JNull"

definition nodeInfoToJson :: "nodeInfo \<Rightarrow> json \<Rightarrow> json" where
  "nodeInfoToJson ni resp =
     jset
       [(''name'', JString (ni_nodeName ni)),
        (''nodeID'', JString (ni_nodeID ni)),
        (''type'', JInt (ni_nodeType ni)),
        (''microService'', JBool (ni_microService ni)),
        (''iniConfig'', JString (ni_iniConfig ni)),
        (''serviceInfo'', JArray (map (\<lambda>(t, name). jset
            [(''type'', JInt t), (''serviceName'', JString name)] JNull) (ni_serviceInfo ni)))] resp"

definition groupInfoToJson :: "groupInfo \<Rightarrow> json \<Rightarrow> json" where
  "groupInfoToJson gi resp =
     jset
       [(''chainID'', JString (gi_chainID gi)),
        (''groupID'', JString (gi_groupID gi)),
        (''genesisConfig'', JString (gi_genesisConfig gi)),
        (''iniConfig'', JString (gi_iniConfig gi)),
        (''nodeList'', JArray (map (\<lambda>(_, ni). nodeInfoToJson ni JNull) (fmap_list (gi_nodeInfos gi))))]
       resp"

definition groupInfoListToJson :: "groupInfo list \<Rightarrow> json list \<Rightarrow> json list" where
  "groupInfoListToJson gis resp = resp @ map (\<lambda>gi. groupInfoToJson gi JNull) gis"

text \<open>
  What the gateway reports of itself and of its peers; the nodes of each group are in the
  container's order.
\<close>

record gatewayInfo =
  gw_p2pID :: string
  gw_address :: string
  gw_port :: nat
  gw_nodeIDInfo :: "(string \<times> string list) list"

definition gatewayInfoToJson :: "gatewayInfo \<Rightarrow> json \<Rightarrow> json" where
  "gatewayInfoToJson gw resp =
     jset
       [(''p2pNodeID'', JString (gw_p2pID gw)),
        (''endPoint'', JString (gw_address gw @ '':'' @ to_string (int (gw_port gw)))),
        (''groupNodeIDInfo'', JArray (map (\<lambda>(g, nodeIDs). jset
            [(''group'', JString g), (''nodeIDList'', JArray (map JString nodeIDs))] JNull)
          (gw_nodeIDInfo gw)))] resp"

definition peersToJson :: "gatewayInfo option \<Rightarrow> gatewayInfo list option \<Rightarrow> json \<Rightarrow> json" where
  "peersToJson localInfo peers resp =
     (let resp1 = (case localInfo of None \<Rightarrow> resp | Some gw \<Rightarrow> gatewayInfoToJson gw resp)
      in case peers of
           None \<Rightarrow> resp1
         | Some gws \<Rightarrow> jset [(''peers'', JArray (map (\<lambda>gw. gatewayInfoToJson gw JNull) gws))] resp1)"

text \<open>
  The nodes of a group over this gateway and its peers, gathered in a set. The local
  information is appended to the peers' list without a look at either pointer, so a null
  one is dereferenced: the result is then \<open>None\<close>. An empty set leaves the response null.
\<close>

definition group_nodeIDs :: "string \<Rightarrow> gatewayInfo list \<Rightarrow> string fset" where
  "group_nodeIDs g gws =
     fold (\<lambda>gw ids. case map_of (gw_nodeIDInfo gw) g of
                      None \<Rightarrow> ids
                    | Some nodeList \<Rightarrow> fold finsert nodeList ids) gws {||}"

definition groupPeersToJson ::
  "string \<Rightarrow> gatewayInfo option \<Rightarrow> gatewayInfo list option \<Rightarrow> json option" where
  "groupPeersToJson g localInfo peers =
     (case (localInfo, peers) of
        (Some gw, Some gws) \<Rightarrow>
          let ids = group_nodeIDs g (gws @ [gw])
          in Some (if fcard ids = 0 then JNull else JArray (map JString (fset_list ids)))
      | _ \<Rightarrow> None)"

subsection \<open>Facts about the printers and parsers\<close>

lemma toJsonResponse_object:
  "toJsonResponse r = JObject (jassign
     ([(''jsonrpc'', JString (jr_jsonrpc r)), (''id'', JInt (jr_id r))] @
      (if jr_code r = 0 then [(''result'', jr_result r)]
       else [(''error'', JObject (jassign
          [(''code'', JInt (jr_code r)), (''message'', JString (jr_message r))] fmempty))])) fmempty)"
  by (simp add: toJsonResponse_def Let_def)

lemma fold_finsert_set: "fold finsert xs A = fset_of_list xs |\<union>| A"
  by (induction xs arbitrary: A) auto

lemma group_nodeIDs_iff:
  "n |\<in>| group_nodeIDs g gws \<longleftrightarrow>
     (\<exists>gw \<in> set gws. \<exists>ids. map_of (gw_nodeIDInfo gw) g = Some ids \<and> n \<in> set ids)"
proof -
  have "n |\<in>| fold (\<lambda>gw ids. case map_of (gw_nodeIDInfo gw) g of
                      None \<Rightarrow> ids
                    | Some nodeList \<Rightarrow> fold finsert nodeList ids) gws A \<longleftrightarrow> n |\<in>| A \<or>
     (\<exists>gw \<in> set gws. \<exists>ids. map_of (gw_nodeIDInfo gw) g = Some ids \<and> n \<in> set ids)" for A
    by (induction gws arbitrary: A)
      (auto simp: fold_finsert_set fset_of_list_elem split: option.splits)
  then show ?thesis
    by (simp add: group_nodeIDs_def)
qed

end
