(* ===== verification/NodeService.thy ===== *)
theory NodeService
  imports GroupManager
begin

text \<open>
  \<^theory_text>\<open>jsonrpc/groupmgr/NodeService.{h,cpp}\<close>: the bundle of clients through which one node
  is reached, and the factory that builds it.

  A client is named by the completed service name its proxy was made for; \<open>None\<close> is a null
  pointer. Only clients built by the factory share that naming: a bundle handed in from
  outside (\<^theory_text>\<open>RpcFactory::buildLocalRpc\<close>) may hold anything, null pointers included. The names
  of services, of their servants and of proxies belong to bcos-framework and are the fields
  of \<open>service_desc\<close>.
\<close>

datatype service_type = LEDGER | SCHEDULER | TXPOOL | CONSENSUS

text \<open>The cryptography a node uses: \<^theory_text>\<open>createCryptoSuite\<close> and \<^theory_text>\<open>createSMCryptoSuite\<close> of \<^theory_text>\<open>Common.h\<close>.\<close>

datatype hash_impl = Keccak256 | SM3

datatype signature_impl = Secp256k1Crypto | SM2Crypto

datatype encrypt_impl = AESCrypto | SM4Crypto

record crypto_suite =
  cs_hash :: hash_impl
  cs_signature :: signature_impl
  cs_encrypt :: encrypt_impl

definition createCryptoSuite :: crypto_suite where
  "createCryptoSuite = \<lparr>cs_hash = Keccak256, cs_signature = Secp256k1Crypto, cs_encrypt = AESCrypto\<rparr>"

definition createSMCryptoSuite :: crypto_suite where
  "createSMCryptoSuite = \<lparr>cs_hash = SM3, cs_signature = SM2Crypto, cs_encrypt = SM4Crypto\<rparr>"

record service_desc =
  sd_serviceName :: "nodeInfo \<Rightarrow> service_type \<Rightarrow> string"   \<comment> \<open>\<^theory_text>\<open>ChainNodeInfo::serviceName\<close>\<close>
  sd_serviceObj :: "service_type \<Rightarrow> string"                \<comment> \<open>\<^theory_text>\<open>getServiceObjByType\<close>\<close>
  sd_unknownServant :: string                             \<comment> \<open>\<^theory_text>\<open>UNKNOWN_SERVANT\<close>\<close>
  sd_prxDesc :: "string \<Rightarrow> string \<Rightarrow> string"                \<comment> \<open>\<^theory_text>\<open>getPrxDesc\<close>\<close>
  sd_smNode :: int                                        \<comment> \<open>\<^theory_text>\<open>NodeType::SM_NODE\<close>\<close>

type_synonym client = string

record nodeService =
  ns_ledger :: "client option"
  ns_scheduler :: "client option"
  ns_txpool :: "client option"
  ns_consensus :: "client option"
  ns_sync :: "client option"
  ns_blockFactory :: "crypto_suite option"
  ns_ledgerPrx :: "client option"

text \<open>The constructor leaves the ledger proxy null; \<open>setLedgerPrx\<close> sets it.\<close>

definition new_nodeService ::
  "client option \<Rightarrow> client option \<Rightarrow> client option \<Rightarrow> client option \<Rightarrow> client option
     \<Rightarrow> crypto_suite option \<Rightarrow> nodeService" where
  "new_nodeService l sc t c sy bf =
     \<lparr>ns_ledger = l, ns_scheduler = sc, ns_txpool = t, ns_consensus = c, ns_sync = sy,
      ns_blockFactory = bf, ns_ledgerPrx = None\<rparr>"

definition setLedgerPrx :: "client \<Rightarrow> nodeService \<Rightarrow> nodeService" where
  "setLedgerPrx prx ns = ns\<lparr>ns_ledgerPrx := Some prx\<rparr>"

text \<open>\<open>None\<close> is the call through a null proxy; \<open>active\<close> lists a proxy's active endpoints.\<close>

definition unreachable :: "(client \<Rightarrow> string list) \<Rightarrow> nodeService \<Rightarrow> bool option" where
  "unreachable active ns =
     (case ns_ledgerPrx ns of None \<Rightarrow> None | Some prx \<Rightarrow> Some (length (active prx) = 0))"

definition createServicePrx :: "service_desc \<Rightarrow> service_type \<Rightarrow> nodeInfo \<Rightarrow> client option" where
  "createServicePrx D t ni =
     (let serviceName = sd_serviceName D ni t
      in if length serviceName = 0 then None
         else let serviceObj = sd_serviceObj D t
              in if serviceObj = sd_unknownServant D then None
                 else Some (sd_prxDesc D serviceName serviceObj))"

definition buildNodeService ::
  "service_desc \<Rightarrow> string \<Rightarrow> string \<Rightarrow> nodeInfo \<Rightarrow> nodeService option" where
  "buildNodeService D chain g ni =
     (let suite = (if ni_nodeType ni = sd_smNode D then createSMCryptoSuite else createCryptoSuite)
      in case createServicePrx D LEDGER ni of
           None \<Rightarrow> None
         | Some ledger \<Rightarrow>
      (case createServicePrx D SCHEDULER ni of
           None \<Rightarrow> None
         | Some scheduler \<Rightarrow>
      (case createServicePrx D TXPOOL ni of
           None \<Rightarrow> None
         | Some txpool \<Rightarrow>
      (case createServicePrx D CONSENSUS ni of
           None \<Rightarrow> None
         | Some consensus \<Rightarrow>
      (case createServicePrx D CONSENSUS ni of
           None \<Rightarrow> None
         | Some sync \<Rightarrow>
             Some (setLedgerPrx ledger
               (new_nodeService (Some ledger) (Some scheduler) (Some txpool) (Some consensus)
                 (Some sync) (Some suite))))))))"

text \<open>What a bundle must offer so that no request finds a null pointer in it.\<close>

definition complete_service :: "nodeService \<Rightarrow> bool" where
  "complete_service ns \<longleftrightarrow>
     ns_ledger ns \<noteq> None \<and> ns_scheduler ns \<noteq> None \<and> ns_txpool ns \<noteq> None \<and>
     ns_consensus ns \<noteq> None \<and> ns_sync ns \<noteq> None \<and> ns_blockFactory ns \<noteq> None"

lemma createServicePrx_None_iff:
  "createServicePrx D t ni = None \<longleftrightarrow>
     sd_serviceName D ni t = '''' \<or> sd_serviceObj D t = sd_unknownServant D"
  by (simp add: createServicePrx_def Let_def)

lemma createServicePrx_Some_iff:
  "createServicePrx D t ni = Some c \<longleftrightarrow>
     sd_serviceName D ni t \<noteq> '''' \<and> sd_serviceObj D t \<noteq> sd_unknownServant D \<and>
     c = sd_prxDesc D (sd_serviceName D ni t) (sd_serviceObj D t)"
  by (auto simp: createServicePrx_def Let_def)

lemma buildNodeService_complete:
  assumes "buildNodeService D chain g ni = Some ns"
  shows "complete_service ns"
  using assms
  by (auto simp: buildNodeService_def complete_service_def setLedgerPrx_def new_nodeService_def
      Let_def split: option.splits)

subsection \<open>Property\<close>

text \<open>
  C36: a node announced by the registry can be served exactly when each of its four services
  (ledger, scheduler, transaction pool, consensus) has a name and a known servant. The bundle
  then holds no null pointer, its ledger proxy is the ledger's own, so the reachability test
  never dereferences null and reports the node gone exactly when that ledger has no active
  endpoint, the block synchronisation client goes through the consensus servant, and
  transactions are decoded with the national cryptography exactly on nodes of that type.
\<close>

theorem built_service:
  "(buildNodeService D chain g ni \<noteq> None \<longleftrightarrow>
      (\<forall>t. sd_serviceName D ni t \<noteq> '''' \<and> sd_serviceObj D t \<noteq> sd_unknownServant D)) \<and>
   (\<forall>ns. buildNodeService D chain g ni = Some ns \<longrightarrow>
      complete_service ns \<and> ns_ledgerPrx ns = ns_ledger ns \<and> ns_sync ns = ns_consensus ns \<and>
      ns_ledger ns = createServicePrx D LEDGER ni \<and>
      ns_consensus ns = createServicePrx D CONSENSUS ni \<and>
      ns_blockFactory ns = Some (if ni_nodeType ni = sd_smNode D then createSMCryptoSuite else createCryptoSuite) \<and>
      (\<forall>active. unreachable active ns = Some (active (the (ns_ledger ns)) = [])))"
proof (intro conjI allI impI)
  have all4: "(\<forall>t. P t) \<longleftrightarrow> P LEDGER \<and> P SCHEDULER \<and> P TXPOOL \<and> P CONSENSUS" for P
    by (metis service_type.exhaust)
  show "buildNodeService D chain g ni \<noteq> None \<longleftrightarrow>
      (\<forall>t. sd_serviceName D ni t \<noteq> '''' \<and> sd_serviceObj D t \<noteq> sd_unknownServant D)"
    unfolding all4
    by (auto simp: buildNodeService_def createServicePrx_None_iff createServicePrx_Some_iff Let_def
        split: option.splits)
next
  fix ns assume b: "buildNodeService D chain g ni = Some ns"
  then show "complete_service ns"
    by (rule buildNodeService_complete)
  from b show "ns_ledgerPrx ns = ns_ledger ns" "ns_sync ns = ns_consensus ns"
      "ns_ledger ns = createServicePrx D LEDGER ni" "ns_consensus ns = createServicePrx D CONSENSUS ni"
      "ns_blockFactory ns = Some (if ni_nodeType ni = sd_smNode D then createSMCryptoSuite else createCryptoSuite)"
    by (auto simp: buildNodeService_def setLedgerPrx_def new_nodeService_def Let_def split: option.splits)
  from b show "unreachable active ns = Some (active (the (ns_ledger ns)) = [])" for active
    by (auto simp: buildNodeService_def setLedgerPrx_def new_nodeService_def unreachable_def Let_def
        split: option.splits)
qed

definition demo_desc :: service_desc where
  "demo_desc =
     \<lparr>sd_serviceName = (\<lambda>ni t. case t of LEDGER \<Rightarrow> ''ledger'' | SCHEDULER \<Rightarrow> ''scheduler''
                                | TXPOOL \<Rightarrow> ''txpool'' | CONSENSUS \<Rightarrow> ''pbft''),
      sd_serviceObj = (\<lambda>t. ''obj''), sd_unknownServant = '''',
      sd_prxDesc = (\<lambda>s obj. s @ ''.'' @ obj), sd_smNode = 1\<rparr>"

definition demo_nodeInfo :: nodeInfo where
  "demo_nodeInfo = \<lparr>ni_nodeName = ''node0'', ni_nodeID = ''id0'', ni_nodeType = 0,
     ni_microService = True, ni_iniConfig = '''', ni_serviceInfo = []\<rparr>"

definition demo_nodeService :: nodeService where
  "demo_nodeService = the (buildNodeService demo_desc ''chain0'' ''group0'' demo_nodeInfo)"

lemma demo_nodeService_built:
  "buildNodeService demo_desc ''chain0'' ''group0'' demo_nodeInfo = Some demo_nodeService"
  by (simp add: demo_nodeService_def buildNodeService_def createServicePrx_def demo_desc_def Let_def)

lemma demo_nodeService_value:
  "demo_nodeService =
     \<lparr>ns_ledger = Some ''ledger.obj'', ns_scheduler = Some ''scheduler.obj'',
      ns_txpool = Some ''txpool.obj'', ns_consensus = Some ''pbft.obj'', ns_sync = Some ''pbft.obj'',
      ns_blockFactory = Some createCryptoSuite, ns_ledgerPrx = Some ''ledger.obj''\<rparr>"
  by (simp add: demo_nodeService_def buildNodeService_def createServicePrx_def demo_desc_def
      demo_nodeInfo_def setLedgerPrx_def new_nodeService_def Let_def)

theorem built_service_witness:
  "complete_service demo_nodeService \<and>
   unreachable (\<lambda>c. if c = ''ledger.obj'' then [''1.2.3.4''] else []) demo_nodeService = Some False"
proof -
  have b: "\<forall>ns. buildNodeService demo_desc ''chain0'' ''group0'' demo_nodeInfo = Some ns \<longrightarrow>
      complete_service ns \<and>
      (\<forall>active. unreachable active ns = Some (active (the (ns_ledger ns)) = []))"
    using built_service [of demo_desc "''chain0''" "''group0''" demo_nodeInfo] by blast
  from b demo_nodeService_built have "complete_service demo_nodeService" by blast
  moreover from b demo_nodeService_built have "\<And>active. unreachable active demo_nodeService
      = Some (active (the (ns_ledger demo_nodeService)) = [])" by blast
  moreover have "the (ns_ledger demo_nodeService) = ''ledger.obj''"
    by (simp add: demo_nodeService_value)
  ultimately show ?thesis by simp
qed

end
