(* ===== verification/JsonRpc.thy ===== *)
theory JsonRpc
  imports RpcJson NodeService
begin

text \<open>
  \<^theory_text>\<open>jsonrpc/JsonRpcImpl_2_0.{h,cpp}\<close>: the methods of the JSON-RPC interface and the
  handler of a request.

  A method answers through a callback, at once or from the callback of an asynchronous call
  to a node's client or to the gateway. A piece of its code is a value of type \<open>proc\<close>: it
  responds, throws, returns without a response, goes through a null pointer, or makes one
  call, with the callback as a function of what the callback finds when it runs: the \<open>world\<close>,
  the error and the results. \<open>world\<close> is what the virtual functions of the group manager
  return at that moment and whether this object is still alive (a \<^theory_text>\<open>weak_ptr\<close> locks).
  Callbacks run after the call that registered them has returned.

  \<open>rpc_env\<close> holds the libraries: jsoncpp, the hexadecimal printers, base64, the parser of
  hashes, the transaction decoder, the names of transaction states, and the macros that format a
  log text. It also holds the value an uninitialised id happens to have.
\<close>

record rpc_env =
  re_json :: jsoncpp
  re_hex :: hexlib
  re_base64 :: "string \<Rightarrow> exn + bytes"                     \<comment> \<open>\<^theory_text>\<open>base64DecodeBytes\<close>\<close>
  re_hash :: "string \<Rightarrow> exn + hash"                        \<comment> \<open>\<^theory_text>\<open>HashType(string)\<close>\<close>
  re_transaction :: "crypto_suite \<Rightarrow> bytes \<Rightarrow> exn + transaction" \<comment> \<open>\<^theory_text>\<open>createTransaction\<close>\<close>
  re_statusNone :: int                                    \<comment> \<open>\<^theory_text>\<open>TransactionStatus::None\<close>\<close>
  re_statusText :: "int \<Rightarrow> string"
  re_logDesc :: "string \<Rightarrow> string"                        \<comment> \<open>\<^theory_text>\<open>LOG_DESC\<close>, written to a stream\<close>
  re_logKV :: "string \<Rightarrow> string \<Rightarrow> string"                \<comment> \<open>\<^theory_text>\<open>LOG_KV\<close>\<close>
  re_junk :: int

record world =
  rw_chainID :: string
  rw_getNodeService :: "string \<Rightarrow> string \<Rightarrow> nodeService option"
  rw_groupList :: "string fset"
  rw_getGroupInfo :: "string \<Rightarrow> groupInfo option"
  rw_groupInfoList :: "groupInfo list"
  rw_getNodeInfo :: "string \<Rightarrow> string \<Rightarrow> nodeInfo option"
  rw_alive :: bool

text \<open>The two group managers behind the interface.\<close>

definition gm_world :: "group_api \<Rightarrow> nat \<Rightarrow> bool \<Rightarrow> nodeService gm \<Rightarrow> world" where
  "gm_world A rnd alive s =
     \<lparr>rw_chainID = gm_chainID s, rw_getNodeService = (\<lambda>g n. getNodeService rnd g n s),
      rw_groupList = groupList A s, rw_getGroupInfo = (\<lambda>g. getGroupInfo g s),
      rw_groupInfoList = groupInfoList s, rw_getNodeInfo = (\<lambda>g n. getNodeInfo A g n s),
      rw_alive = alive\<rparr>"

definition lgm_world :: "group_api \<Rightarrow> string \<Rightarrow> bool \<Rightarrow> nodeService lgm \<Rightarrow> world" where
  "lgm_world A chain alive s =
     \<lparr>rw_chainID = chain, rw_getNodeService = (\<lambda>g n. lgm_getNodeService g n s),
      rw_groupList = lgm_groupList s, rw_getGroupInfo = (\<lambda>g. lgm_getGroupInfo g s),
      rw_groupInfoList = lgm_groupInfoList s, rw_getNodeInfo = (\<lambda>g n. lgm_getNodeInfo A g n s),
      rw_alive = alive\<rparr>"

subsection \<open>Calls and their callbacks\<close>

record submitResult =
  sr_status :: int
  sr_txHash :: hash
  sr_receipt :: "receipt option"

record consensusNode =
  cn_nodeID :: hash
  cn_weight :: nat

text \<open>The arguments \<open>call\<close> gives to the transaction factory.\<close>

record txArgs =
  ta_version :: int
  ta_to :: string
  ta_input :: bytes
  ta_nonce :: nat
  ta_blockLimit :: int
  ta_chainId :: string
  ta_groupId :: string
  ta_importTime :: int

datatype node_type = CONSENSUS_SEALER | CONSENSUS_OBSERVER

datatype block_part = HEADER | TRANSACTIONS

datatype query =
    ExecuteCall client crypto_suite txArgs
  | GetCode client string
  | AsyncSubmit client bytes
  | AsyncGetPendingTransactionSize client
  | AsyncGetBatchTxsByHashList client "hash list" bool
  | AsyncGetTransactionReceiptByHash client hash bool
  | AsyncGetBlockNumberByHash client hash
  | AsyncGetBlockDataByNumber client int "block_part list"
  | AsyncGetBlockHashByNumber client int
  | AsyncGetBlockNumber client
  | AsyncGetNodeListByType client node_type
  | AsyncGetSystemConfigByKey client string
  | AsyncGetTotalTransactionCount client
  | AsyncGetPBFTView client
  | AsyncGetConsensusStatus client
  | AsyncGetSyncInfo client
  | AsyncGetPeers

text \<open>What a callback is given beside the error; a pointer may be null.\<close>

datatype 'p callback =
    OnReceipt "receipt option \<Rightarrow> 'p"
  | OnCode "bytes \<Rightarrow> 'p"
  | OnSubmit "submitResult option \<Rightarrow> 'p"
  | OnSize "64 word \<Rightarrow> 'p"
  | OnTransactions "transaction list option \<Rightarrow> (string, merkleProof option) fmap option \<Rightarrow> 'p"
  | OnReceiptProof "receipt option \<Rightarrow> merkleProof option \<Rightarrow> 'p"
  | OnNumber "int \<Rightarrow> 'p"
  | OnBlock "block option \<Rightarrow> 'p"
  | OnHash "hash \<Rightarrow> 'p"
  | OnNodes "consensusNode list option \<Rightarrow> 'p"
  | OnConfig "string \<Rightarrow> int \<Rightarrow> 'p"
  | OnCounts "int \<Rightarrow> int \<Rightarrow> int \<Rightarrow> 'p"
  | OnView "64 word \<Rightarrow> 'p"
  | OnStatus "string \<Rightarrow> 'p"
  | OnPeers "gatewayInfo option \<Rightarrow> gatewayInfo list option \<Rightarrow> 'p"

datatype proc =
    Respond "rpc_error option" json       \<comment> \<open>\<^theory_text>\<open>_respFunc(error, json)\<close>, then return\<close>
  | Throw exn
  | Silent                               \<comment> \<open>returns without a response\<close>
  | NullPointer                          \<comment> \<open>a null pointer is dereferenced\<close>
  | Ask query "world \<Rightarrow> rpc_error option \<Rightarrow> proc callback"

text \<open>What a call may answer; \<open>feed\<close> hands the results to the callback.\<close>

datatype results =
    Receipt "receipt option"
  | Code bytes
  | Submitted "submitResult option"
  | Size "64 word"
  | Transactions "transaction list option" "(string, merkleProof option) fmap option"
  | ReceiptProof "receipt option" "merkleProof option"
  | Number int
  | BlockData "block option"
  | Hash hash
  | Nodes "consensusNode list option"
  | Config string int
  | Counts int int int
  | View "64 word"
  | Status string
  | Peers "gatewayInfo option" "gatewayInfo list option"

definition feed :: "'p callback \<Rightarrow> results \<Rightarrow> 'p option" where
  "feed c r =
     (case c of
        OnReceipt f \<Rightarrow> (case r of Receipt x \<Rightarrow> Some (f x) | _ \<Rightarrow> None)
      | OnCode f \<Rightarrow> (case r of Code x \<Rightarrow> Some (f x) | _ \<Rightarrow> None)
      | OnSubmit f \<Rightarrow> (case r of Submitted x \<Rightarrow> Some (f x) | _ \<Rightarrow> None)
      | OnSize f \<Rightarrow> (case r of Size x \<Rightarrow> Some (f x) | _ \<Rightarrow> None)
      | OnTransactions f \<Rightarrow> (case r of Transactions x y \<Rightarrow> Some (f x y) | _ \<Rightarrow> None)
      | OnReceiptProof f \<Rightarrow> (case r of ReceiptProof x y \<Rightarrow> Some (f x y) | _ \<Rightarrow> None)
      | OnNumber f \<Rightarrow> (case r of Number x \<Rightarrow> Some (f x) | _ \<Rightarrow> None)
      | OnBlock f \<Rightarrow> (case r of BlockData x \<Rightarrow> Some (f x) | _ \<Rightarrow> None)
      | OnHash f \<Rightarrow> (case r of Hash x \<Rightarrow> Some (f x) | _ \<Rightarrow> None)
      | OnNodes f \<Rightarrow> (case r of Nodes x \<Rightarrow> Some (f x) | _ \<Rightarrow> None)
      | OnConfig f \<Rightarrow> (case r of Config x y \<Rightarrow> Some (f x y) | _ \<Rightarrow> None)
      | OnCounts f \<Rightarrow> (case r of Counts x y z \<Rightarrow> Some (f x y z) | _ \<Rightarrow> None)
      | OnView f \<Rightarrow> (case r of View x \<Rightarrow> Some (f x) | _ \<Rightarrow> None)
      | OnStatus f \<Rightarrow> (case r of Status x \<Rightarrow> Some (f x) | _ \<Rightarrow> None)
      | OnPeers f \<Rightarrow> (case r of Peers x y \<Rightarrow> Some (f x y) | _ \<Rightarrow> None))"

lemma feed_simps [simp]:
  "feed (OnReceipt f0) (Receipt x0) = Some (f0 x0)"
  "feed (OnCode f1) (Code x1) = Some (f1 x1)"
  "feed (OnSubmit f2) (Submitted x2) = Some (f2 x2)"
  "feed (OnSize f3) (Size x3) = Some (f3 x3)"
  "feed (OnTransactions f4) (Transactions x4 y4) = Some (f4 x4 y4)"
  "feed (OnReceiptProof f5) (ReceiptProof x5 y5) = Some (f5 x5 y5)"
  "feed (OnNumber f6) (Number x6) = Some (f6 x6)"
  "feed (OnBlock f7) (BlockData x7) = Some (f7 x7)"
  "feed (OnHash f8) (Hash x8) = Some (f8 x8)"
  "feed (OnNodes f9) (Nodes x9) = Some (f9 x9)"
  "feed (OnConfig f10) (Config x10 y10) = Some (f10 x10 y10)"
  "feed (OnCounts f11) (Counts x11 y11 z11) = Some (f11 x11 y11 z11)"
  "feed (OnView f12) (View x12) = Some (f12 x12)"
  "feed (OnStatus f13) (Status x13) = Some (f13 x13)"
  "feed (OnPeers f14) (Peers x14 y14) = Some (f14 x14 y14)"
  by (simp_all add: feed_def)

text \<open>Running a method with another method's code as its response callback.\<close>

primrec respond_to :: "(rpc_error option \<Rightarrow> json \<Rightarrow> proc) \<Rightarrow> proc \<Rightarrow> proc" where
  "respond_to f (Respond e v) = f e v"
| "respond_to f (Throw x) = Throw x"
| "respond_to f Silent = Silent"
| "respond_to f NullPointer = NullPointer"
| "respond_to f (Ask q k) = Ask q (\<lambda>w e. map_callback (respond_to f) (k w e))"

definition throwing :: "exn + proc \<Rightarrow> proc" where
  "throwing m = (case m of Inl e \<Rightarrow> Throw e | Inr p \<Rightarrow> p)"

lemma throwing_simps [simp]: "throwing (Inl e) = Throw e" "throwing (Inr p) = p"
  by (simp_all add: throwing_def)

subsection \<open>Finding the node\<close>

definition noNodeText :: "rpc_env \<Rightarrow> string \<Rightarrow> string \<Rightarrow> string \<Rightarrow> string \<Rightarrow> string" where
  "noNodeText E command chainID groupID nodeName =
     re_logDesc E ''Invalid request for the specified node of doesn't exist or doesn't started!'' @
     re_logKV E ''request'' command @ re_logKV E ''chain'' chainID @
     re_logKV E ''group'' groupID @ re_logKV E ''node'' nodeName"

definition getNodeService_method ::
  "rpc_env \<Rightarrow> world \<Rightarrow> string \<Rightarrow> string \<Rightarrow> string \<Rightarrow> exn + nodeService" where
  "getNodeService_method E w groupID nodeName command =
     (case rw_getNodeService w groupID nodeName of
        None \<Rightarrow> Inl (rpc_throw NodeNotExistOrNotStarted
                  (noNodeText E command (rw_chainID w) groupID nodeName))
      | Some ns \<Rightarrow> Inr ns)"

definition checkService :: "client option \<Rightarrow> string \<Rightarrow> exn + client" where
  "checkService c serviceName =
     (case c of
        None \<Rightarrow> Inl (rpc_throw ServiceNotInitCompleted
                  (''The service '' @ serviceName @ '' has not been inited completed yet!''))
      | Some c \<Rightarrow> Inr c)"

text \<open>The opening of most methods: find the node, check one of its clients, go on with it.\<close>

definition with_client ::
  "rpc_env \<Rightarrow> world \<Rightarrow> string \<Rightarrow> string \<Rightarrow> string \<Rightarrow> (nodeService \<Rightarrow> client option) \<Rightarrow> string
     \<Rightarrow> (nodeService \<Rightarrow> client \<Rightarrow> exn + proc) \<Rightarrow> proc" where
  "with_client E w groupID nodeName command field serviceName k =
     throwing (rbind (getNodeService_method E w groupID nodeName command) (\<lambda>ns.
               rbind (checkService (field ns) serviceName) (\<lambda>c. k ns c)))"

subsection \<open>Transactions\<close>

definition call :: "rpc_env \<Rightarrow> world \<Rightarrow> string \<Rightarrow> string \<Rightarrow> string \<Rightarrow> string \<Rightarrow> proc" where
  "call E w groupID nodeName toAddr data =
     throwing (rbind (getNodeService_method E w groupID nodeName ''call'') (\<lambda>ns.
       case ns_blockFactory ns of
         None \<Rightarrow> Inr NullPointer
       | Some suite \<Rightarrow>
           rbind (re_base64 E data) (\<lambda>bs.
             case ns_scheduler ns of
               None \<Rightarrow> Inr NullPointer
             | Some scheduler \<Rightarrow>
                 Inr (Ask (ExecuteCall scheduler suite
                        \<lparr>ta_version = 0, ta_to = toAddr, ta_input = bs, ta_nonce = 0, ta_blockLimit = 0,
                         ta_chainId = '''', ta_groupId = '''', ta_importTime = 0\<rparr>)
                   (\<lambda>w e. OnReceipt (\<lambda>rc.
                      if \<not> failed e
                      then case rc of
                             None \<Rightarrow> NullPointer
                           | Some rc \<Rightarrow>
                               Respond e (jset
                                 [(''blockNumber'', JInt (rc_blockNumber rc)),
                                  (''status'', JInt (rc_status rc)),
                                  (''output'', JString (hx_bytes (re_hex E) (rc_output rc)))] JNull)
                      else Respond e JNull))))))"

definition onSubmitted ::
  "rpc_env \<Rightarrow> transaction \<Rightarrow> world \<Rightarrow> rpc_error option \<Rightarrow> submitResult option \<Rightarrow> proc" where
  "onSubmitted E tx w e sr =
     (if \<not> rw_alive w then Silent
      else if failed e then Respond e JNull
      else case sr of
             None \<Rightarrow> NullPointer
           | Some sr \<Rightarrow>
               (case sr_receipt sr of
                  None \<Rightarrow> Silent
                | Some rc \<Rightarrow>
                    let j1 = (if sr_status sr \<noteq> re_statusNone E
                              then jset [(''errorMessage'', JString (re_statusText E (sr_status sr)))] JNull
                              else JNull);
                        j2 = receipt_toJsonResp (re_hex E) (hx_hexPrefixed (re_hex E) (sr_txHash sr)) rc j1;
                        j3 = jset
                          [(''input'', JString (hx_bytes (re_hex E) (tx_input tx))),
                           (''to'', JString (tx_to tx)),
                           (''from'', JString (hx_bytes (re_hex E) (tx_sender tx)))] j2
                    in Respond None j3))"

definition sendTransaction ::
  "rpc_env \<Rightarrow> world \<Rightarrow> string \<Rightarrow> string \<Rightarrow> string \<Rightarrow> bool \<Rightarrow> proc" where
  "sendTransaction E w groupID nodeName data requireProof =
     throwing (rbind (re_base64 E data) (\<lambda>bs. Inr
       (with_client E w groupID nodeName ''sendTransaction'' ns_txpool ''txpool'' (\<lambda>ns txpool.
          case ns_blockFactory ns of
            None \<Rightarrow> Inr NullPointer
          | Some suite \<Rightarrow>
              rbind (re_transaction E suite bs) (\<lambda>tx.
                Inr (Ask (AsyncSubmit txpool bs) (\<lambda>w e. OnSubmit (onSubmitted E tx w e))))))))"

definition onTransactions ::
  "rpc_env \<Rightarrow> bool \<Rightarrow> rpc_error option \<Rightarrow> transaction list option
     \<Rightarrow> (string, merkleProof option) fmap option \<Rightarrow> proc" where
  "onTransactions E requireProof e txs proofs =
     (if \<not> failed e
      then case txs of
             None \<Rightarrow> NullPointer
           | Some ts \<Rightarrow>
               let j1 = (case ts of [] \<Rightarrow> JNull | tx # _ \<Rightarrow> tx_toJsonResp (re_hex E) tx JNull);
                   j2 = (case proofs of
                           None \<Rightarrow> j1
                         | Some ps \<Rightarrow>
                             (case fmap_list ps of
                                [] \<Rightarrow> j1
                              | (_, proof) # _ \<Rightarrow>
                                  if requireProof then addProofToResponse ''transactionProof'' proof j1
                                  else j1))
               in Respond e j2
      else Respond e JNull)"

definition getTransaction ::
  "rpc_env \<Rightarrow> world \<Rightarrow> string \<Rightarrow> string \<Rightarrow> string \<Rightarrow> bool \<Rightarrow> proc" where
  "getTransaction E w groupID nodeName txHash requireProof =
     throwing (rbind (re_hash E txHash) (\<lambda>h. Inr
       (with_client E w groupID nodeName ''getTransaction'' ns_ledger ''ledger'' (\<lambda>ns ledger.
          Inr (Ask (AsyncGetBatchTxsByHashList ledger [h] requireProof)
            (\<lambda>w e. OnTransactions (onTransactions E requireProof e)))))))"

text \<open>The callback of the inner \<open>getTransaction\<close>: an error of it is logged and dropped.\<close>

definition onReceiptTransaction :: "rpc_env \<Rightarrow> json \<Rightarrow> rpc_error option \<Rightarrow> json \<Rightarrow> proc" where
  "onReceiptTransaction E jResp e jTx =
     throwing (rbind (jmember (re_json E) jTx ''input'') (\<lambda>input.
               rbind (jmember (re_json E) jTx ''from'') (\<lambda>sender.
               rbind (jmember (re_json E) jTx ''to'') (\<lambda>toAddr.
               rbind (jmember (re_json E) jTx ''transactionProof'') (\<lambda>proof.
                 Inr (Respond None (jset
                   [(''input'', input), (''from'', sender), (''to'', toAddr),
                    (''transactionProof'', proof)] jResp)))))))"

definition onReceipt ::
  "rpc_env \<Rightarrow> string \<Rightarrow> string \<Rightarrow> string \<Rightarrow> hash \<Rightarrow> bool \<Rightarrow> world \<Rightarrow> rpc_error option
     \<Rightarrow> receipt option \<Rightarrow> merkleProof option \<Rightarrow> proc" where
  "onReceipt E groupID nodeName txHash h requireProof w e rc proof =
     (if \<not> rw_alive w then Silent
      else if failed e then Respond e JNull
      else case rc of
             None \<Rightarrow> NullPointer
           | Some rc \<Rightarrow>
               let j1 = receipt_toJsonResp (re_hex E) (hx_hexPrefixed (re_hex E) h) rc JNull;
                   j2 = (if requireProof \<and> proof \<noteq> None
                         then addProofToResponse ''receiptProof'' proof j1 else j1)
               in respond_to (onReceiptTransaction E j2)
                    (getTransaction E w groupID nodeName txHash requireProof))"

definition getTransactionReceipt ::
  "rpc_env \<Rightarrow> world \<Rightarrow> string \<Rightarrow> string \<Rightarrow> string \<Rightarrow> bool \<Rightarrow> proc" where
  "getTransactionReceipt E w groupID nodeName txHash requireProof =
     throwing (rbind (re_hash E txHash) (\<lambda>h. Inr
       (with_client E w groupID nodeName ''getTransactionReceipt'' ns_ledger ''ledger'' (\<lambda>ns ledger.
          Inr (Ask (AsyncGetTransactionReceiptByHash ledger h requireProof)
            (\<lambda>w e. OnReceiptProof (onReceipt E groupID nodeName txHash h requireProof w e)))))))"

subsection \<open>Blocks\<close>

definition onBlock :: "rpc_env \<Rightarrow> bool \<Rightarrow> bool \<Rightarrow> rpc_error option \<Rightarrow> block option \<Rightarrow> proc" where
  "onBlock E onlyHeader onlyTxHash e blk =
     Respond e
       (if failed e then JNull
        else if onlyHeader
        then header_toJsonResp (re_hex E) (case blk of None \<Rightarrow> None | Some b \<Rightarrow> bl_header b) JNull
        else block_toJsonResp (re_hex E) blk onlyTxHash JNull)"

definition getBlockByNumber ::
  "rpc_env \<Rightarrow> world \<Rightarrow> string \<Rightarrow> string \<Rightarrow> int \<Rightarrow> bool \<Rightarrow> bool \<Rightarrow> proc" where
  "getBlockByNumber E w groupID nodeName blockNumber onlyHeader onlyTxHash =
     with_client E w groupID nodeName ''getBlockByNumber'' ns_ledger ''ledger'' (\<lambda>ns ledger.
       Inr (Ask (AsyncGetBlockDataByNumber ledger blockNumber
                  (if onlyHeader then [HEADER] else [HEADER, TRANSACTIONS]))
         (\<lambda>w e. OnBlock (onBlock E onlyHeader onlyTxHash e))))"

definition onNumberByHash ::
  "rpc_env \<Rightarrow> string \<Rightarrow> string \<Rightarrow> bool \<Rightarrow> bool \<Rightarrow> world \<Rightarrow> rpc_error option \<Rightarrow> int \<Rightarrow> proc" where
  "onNumberByHash E groupID nodeName onlyHeader onlyTxHash w e blockNumber =
     (if \<not> failed e
      then if rw_alive w then getBlockByNumber E w groupID nodeName blockNumber onlyHeader onlyTxHash
           else Silent
      else Respond e JNull)"

definition getBlockByHash ::
  "rpc_env \<Rightarrow> world \<Rightarrow> string \<Rightarrow> string \<Rightarrow> string \<Rightarrow> bool \<Rightarrow> bool \<Rightarrow> proc" where
  "getBlockByHash E w groupID nodeName blockHash onlyHeader onlyTxHash =
     with_client E w groupID nodeName ''getBlockByHash'' ns_ledger ''ledger'' (\<lambda>ns ledger.
       rbind (re_hash E blockHash) (\<lambda>h.
         Inr (Ask (AsyncGetBlockNumberByHash ledger h)
           (\<lambda>w e. OnNumber (onNumberByHash E groupID nodeName onlyHeader onlyTxHash w e)))))"

definition getBlockHashByNumber :: "rpc_env \<Rightarrow> world \<Rightarrow> string \<Rightarrow> string \<Rightarrow> int \<Rightarrow> proc" where
  "getBlockHashByNumber E w groupID nodeName blockNumber =
     with_client E w groupID nodeName ''getBlockHashByNumber'' ns_ledger ''ledger'' (\<lambda>ns ledger.
       Inr (Ask (AsyncGetBlockHashByNumber ledger blockNumber)
         (\<lambda>w e. OnHash (\<lambda>h. Respond None (JString (hx_hexPrefixed (re_hex E) h))))))"

definition getBlockNumber :: "rpc_env \<Rightarrow> world \<Rightarrow> string \<Rightarrow> string \<Rightarrow> proc" where
  "getBlockNumber E w groupID nodeName =
     with_client E w groupID nodeName ''getBlockNumber'' ns_ledger ''ledger'' (\<lambda>ns ledger.
       Inr (Ask (AsyncGetBlockNumber ledger)
         (\<lambda>w e. OnNumber (\<lambda>blockNumber. Respond e (JInt blockNumber)))))"

definition getCode :: "rpc_env \<Rightarrow> world \<Rightarrow> string \<Rightarrow> string \<Rightarrow> string \<Rightarrow> proc" where
  "getCode E w groupID nodeName contractAddress =
     throwing (rbind (getNodeService_method E w groupID nodeName ''getCode'') (\<lambda>ns.
       case ns_scheduler ns of
         None \<Rightarrow> Inr NullPointer
       | Some scheduler \<Rightarrow>
           Inr (Ask (GetCode scheduler contractAddress)
             (\<lambda>w e. OnCode (\<lambda>codeData.
                Respond e (JString (if \<not> failed e \<and> codeData \<noteq> []
                                    then hx_bytes (re_hex E) codeData else '''')))))))"

subsection \<open>Consensus, pool and synchronisation\<close>

definition getSealerList :: "rpc_env \<Rightarrow> world \<Rightarrow> string \<Rightarrow> string \<Rightarrow> proc" where
  "getSealerList E w groupID nodeName =
     with_client E w groupID nodeName ''getSealerList'' ns_ledger ''ledger'' (\<lambda>ns ledger.
       Inr (Ask (AsyncGetNodeListByType ledger CONSENSUS_SEALER)
         (\<lambda>w e. OnNodes (\<lambda>nodes.
            Respond e (JArray
              (if failed e then []
               else case nodes of
                      None \<Rightarrow> []
                    | Some ns \<Rightarrow> map (\<lambda>n. jset
                        [(''nodeID'', JString (hx_hex (re_hex E) (cn_nodeID n))),
                         (''weight'', JUInt (cn_weight n))] JNull) ns))))))"

definition getObserverList :: "rpc_env \<Rightarrow> world \<Rightarrow> string \<Rightarrow> string \<Rightarrow> proc" where
  "getObserverList E w groupID nodeName =
     with_client E w groupID nodeName ''getObserverList'' ns_ledger ''ledger'' (\<lambda>ns ledger.
       Inr (Ask (AsyncGetNodeListByType ledger CONSENSUS_OBSERVER)
         (\<lambda>w e. OnNodes (\<lambda>nodes.
            Respond e (JArray
              (if failed e then []
               else case nodes of
                      None \<Rightarrow> []
                    | Some ns \<Rightarrow> map (\<lambda>n. JString (hx_hex (re_hex E) (cn_nodeID n))) ns))))))"

definition getPbftView :: "rpc_env \<Rightarrow> world \<Rightarrow> string \<Rightarrow> string \<Rightarrow> proc" where
  "getPbftView E w groupID nodeName =
     with_client E w groupID nodeName ''getPbftView'' ns_consensus ''consensus'' (\<lambda>ns consensus.
       Inr (Ask (AsyncGetPBFTView consensus)
         (\<lambda>w e. OnView (\<lambda>v. Respond e (if failed e then JNull else JUInt (unat v))))))"

text \<open>The size is a \<^theory_text>\<open>size_t\<close>, cast to \<^theory_text>\<open>int64_t\<close>.\<close>

definition getPendingTxSize :: "rpc_env \<Rightarrow> world \<Rightarrow> string \<Rightarrow> string \<Rightarrow> proc" where
  "getPendingTxSize E w groupID nodeName =
     with_client E w groupID nodeName ''getPendingTxSize'' ns_txpool ''txpool'' (\<lambda>ns txpool.
       Inr (Ask (AsyncGetPendingTransactionSize txpool)
         (\<lambda>w e. OnSize (\<lambda>n. Respond e (if failed e then JNull else JInt (sint n))))))"

definition getSyncStatus :: "rpc_env \<Rightarrow> world \<Rightarrow> string \<Rightarrow> string \<Rightarrow> proc" where
  "getSyncStatus E w groupID nodeName =
     with_client E w groupID nodeName ''getSyncStatus'' ns_sync ''sync'' (\<lambda>ns sync.
       Inr (Ask (AsyncGetSyncInfo sync)
         (\<lambda>w e. OnStatus (\<lambda>s. Respond e (if failed e then JNull else JString s)))))"

definition getConsensusStatus :: "rpc_env \<Rightarrow> world \<Rightarrow> string \<Rightarrow> string \<Rightarrow> proc" where
  "getConsensusStatus E w groupID nodeName =
     with_client E w groupID nodeName ''getConsensusStatus'' ns_consensus ''consensus'' (\<lambda>ns consensus.
       Inr (Ask (AsyncGetConsensusStatus consensus)
         (\<lambda>w e. OnStatus (\<lambda>s. Respond e (if failed e then JNull else JString s)))))"

definition getSystemConfigByKey :: "rpc_env \<Rightarrow> world \<Rightarrow> string \<Rightarrow> string \<Rightarrow> string \<Rightarrow> proc" where
  "getSystemConfigByKey E w groupID nodeName keyValue =
     with_client E w groupID nodeName ''getSystemConfigByKey'' ns_ledger ''ledger'' (\<lambda>ns ledger.
       Inr (Ask (AsyncGetSystemConfigByKey ledger keyValue)
         (\<lambda>w e. OnConfig (\<lambda>v blockNumber.
            Respond e (if failed e then JNull
                       else jset [(''blockNumber'', JInt blockNumber), (''value'', JString v)] JNull)))))"

definition getTotalTransactionCount :: "rpc_env \<Rightarrow> world \<Rightarrow> string \<Rightarrow> string \<Rightarrow> proc" where
  "getTotalTransactionCount E w groupID nodeName =
     with_client E w groupID nodeName ''getTotalTransactionCount'' ns_ledger ''ledger'' (\<lambda>ns ledger.
       Inr (Ask (AsyncGetTotalTransactionCount ledger)
         (\<lambda>w e. OnCounts (\<lambda>totalTxs failedTxs latestBlock.
            Respond e (if failed e then JNull
                       else jset [(''blockNumber'', JInt latestBlock),
                                  (''transactionCount'', JInt totalTxs),
                                  (''failedTransactionCount'', JInt failedTxs)] JNull)))))"

subsection \<open>Gateways and groups\<close>

definition getPeers :: "rpc_env \<Rightarrow> world \<Rightarrow> proc" where
  "getPeers E w =
     Ask AsyncGetPeers (\<lambda>w e. OnPeers (\<lambda>localInfo peers.
       Respond e (if failed e then JNull else peersToJson localInfo peers JNull)))"

definition getGroupPeers :: "rpc_env \<Rightarrow> world \<Rightarrow> string \<Rightarrow> proc" where
  "getGroupPeers E w groupID =
     Ask AsyncGetPeers (\<lambda>w e. OnPeers (\<lambda>localInfo peers.
       if e \<noteq> None then Respond e JNull
       else case groupPeersToJson groupID localInfo peers of
              None \<Rightarrow> NullPointer
            | Some jResp \<Rightarrow> Respond e jResp))"

definition getGroupList :: "rpc_env \<Rightarrow> world \<Rightarrow> proc" where
  "getGroupList E w =
     (let response = generateResponse None; gs = fset_list (rw_groupList w)
      in Respond None (if gs = [] then response
                       else jset [(''groupList'', JArray (map JString gs))] response))"

definition getGroupInfo_method :: "rpc_env \<Rightarrow> world \<Rightarrow> string \<Rightarrow> proc" where
  "getGroupInfo_method E w groupID =
     Respond None (case rw_getGroupInfo w groupID of
                     None \<Rightarrow> JNull | Some gi \<Rightarrow> groupInfoToJson gi JNull)"

definition getGroupInfoList :: "rpc_env \<Rightarrow> world \<Rightarrow> proc" where
  "getGroupInfoList E w = Respond None (JArray (groupInfoListToJson (rw_groupInfoList w) []))"

definition getGroupNodeInfo :: "rpc_env \<Rightarrow> world \<Rightarrow> string \<Rightarrow> string \<Rightarrow> proc" where
  "getGroupNodeInfo E w groupID nodeName =
     Respond None (case rw_getNodeInfo w groupID nodeName of
                     None \<Rightarrow> JNull | Some ni \<Rightarrow> nodeInfoToJson ni JNull)"

subsection \<open>The wrappers that take the parameters apart\<close>

text \<open>
  The arguments of a method are expressions of one call, which C++ evaluates in an order it does
  not specify. The model reads them from left to right; another order can only change which of
  several ill-typed parameters is the one named by the exception.
\<close>

definition arg_string :: "rpc_env \<Rightarrow> json \<Rightarrow> nat \<Rightarrow> exn + string" where
  "arg_string E req i = rbind (jindex (re_json E) req i) (jasString (re_json E))"

definition arg_int64 :: "rpc_env \<Rightarrow> json \<Rightarrow> nat \<Rightarrow> exn + int" where
  "arg_int64 E req i = rbind (jindex (re_json E) req i) (jasInt64 (re_json E))"

definition arg_bool :: "rpc_env \<Rightarrow> json \<Rightarrow> nat \<Rightarrow> exn + bool" where
  "arg_bool E req i = rbind (jindex (re_json E) req i) (jasBool (re_json E))"

definition arg_bool_or_true :: "rpc_env \<Rightarrow> json \<Rightarrow> nat \<Rightarrow> exn + bool" where
  "arg_bool_or_true E req i = (if jsize (re_json E) req > i then arg_bool E req i else Inr True)"

definition with_node :: "rpc_env \<Rightarrow> json \<Rightarrow> (string \<Rightarrow> string \<Rightarrow> exn + proc) \<Rightarrow> proc" where
  "with_node E req f =
     throwing (rbind (arg_string E req 0) (\<lambda>g. rbind (arg_string E req 1) (\<lambda>n. f g n)))"

definition callI :: "rpc_env \<Rightarrow> world \<Rightarrow> json \<Rightarrow> proc" where
  "callI E w req = with_node E req (\<lambda>g n.
     rbind (arg_string E req 2) (\<lambda>t. rbind (arg_string E req 3) (\<lambda>d. Inr (call E w g n t d))))"

definition sendTransactionI :: "rpc_env \<Rightarrow> world \<Rightarrow> json \<Rightarrow> proc" where
  "sendTransactionI E w req = with_node E req (\<lambda>g n.
     rbind (arg_string E req 2) (\<lambda>d. rbind (arg_bool E req 3) (\<lambda>p. Inr (sendTransaction E w g n d p))))"

definition getTransactionI :: "rpc_env \<Rightarrow> world \<Rightarrow> json \<Rightarrow> proc" where
  "getTransactionI E w req = with_node E req (\<lambda>g n.
     rbind (arg_string E req 2) (\<lambda>h. rbind (arg_bool E req 3) (\<lambda>p. Inr (getTransaction E w g n h p))))"

definition getTransactionReceiptI :: "rpc_env \<Rightarrow> world \<Rightarrow> json \<Rightarrow> proc" where
  "getTransactionReceiptI E w req = with_node E req (\<lambda>g n.
     rbind (arg_string E req 2) (\<lambda>h. rbind (arg_bool E req 3) (\<lambda>p.
       Inr (getTransactionReceipt E w g n h p))))"

definition getBlockByHashI :: "rpc_env \<Rightarrow> world \<Rightarrow> json \<Rightarrow> proc" where
  "getBlockByHashI E w req = with_node E req (\<lambda>g n.
     rbind (arg_string E req 2) (\<lambda>h.
     rbind (arg_bool_or_true E req 3) (\<lambda>hdr.
     rbind (arg_bool_or_true E req 4) (\<lambda>txh. Inr (getBlockByHash E w g n h hdr txh)))))"

definition getBlockByNumberI :: "rpc_env \<Rightarrow> world \<Rightarrow> json \<Rightarrow> proc" where
  "getBlockByNumberI E w req = with_node E req (\<lambda>g n.
     rbind (arg_int64 E req 2) (\<lambda>b.
     rbind (arg_bool_or_true E req 3) (\<lambda>hdr.
     rbind (arg_bool_or_true E req 4) (\<lambda>txh. Inr (getBlockByNumber E w g n b hdr txh)))))"

definition getBlockHashByNumberI :: "rpc_env \<Rightarrow> world \<Rightarrow> json \<Rightarrow> proc" where
  "getBlockHashByNumberI E w req = with_node E req (\<lambda>g n.
     rbind (arg_int64 E req 2) (\<lambda>b. Inr (getBlockHashByNumber E w g n b)))"

definition getBlockNumberI :: "rpc_env \<Rightarrow> world \<Rightarrow> json \<Rightarrow> proc" where
  "getBlockNumberI E w req = with_node E req (\<lambda>g n. Inr (getBlockNumber E w g n))"

definition getCodeI :: "rpc_env \<Rightarrow> world \<Rightarrow> json \<Rightarrow> proc" where
  "getCodeI E w req = with_node E req (\<lambda>g n.
     rbind (arg_string E req 2) (\<lambda>c. Inr (getCode E w g n c)))"

definition getSealerListI :: "rpc_env \<Rightarrow> world \<Rightarrow> json \<Rightarrow> proc" where
  "getSealerListI E w req = with_node E req (\<lambda>g n. Inr (getSealerList E w g n))"

definition getObserverListI :: "rpc_env \<Rightarrow> world \<Rightarrow> json \<Rightarrow> proc" where
  "getObserverListI E w req = with_node E req (\<lambda>g n. Inr (getObserverList E w g n))"

definition getPbftViewI :: "rpc_env \<Rightarrow> world \<Rightarrow> json \<Rightarrow> proc" where
  "getPbftViewI E w req = with_node E req (\<lambda>g n. Inr (getPbftView E w g n))"

definition getPendingTxSizeI :: "rpc_env \<Rightarrow> world \<Rightarrow> json \<Rightarrow> proc" where
  "getPendingTxSizeI E w req = with_node E req (\<lambda>g n. Inr (getPendingTxSize E w g n))"

definition getSyncStatusI :: "rpc_env \<Rightarrow> world \<Rightarrow> json \<Rightarrow> proc" where
  "getSyncStatusI E w req = with_node E req (\<lambda>g n. Inr (getSyncStatus E w g n))"

definition getConsensusStatusI :: "rpc_env \<Rightarrow> world \<Rightarrow> json \<Rightarrow> proc" where
  "getConsensusStatusI E w req = with_node E req (\<lambda>g n. Inr (getConsensusStatus E w g n))"

definition getSystemConfigByKeyI :: "rpc_env \<Rightarrow> world \<Rightarrow> json \<Rightarrow> proc" where
  "getSystemConfigByKeyI E w req = with_node E req (\<lambda>g n.
     rbind (arg_string E req 2) (\<lambda>k. Inr (getSystemConfigByKey E w g n k)))"

definition getTotalTransactionCountI :: "rpc_env \<Rightarrow> world \<Rightarrow> json \<Rightarrow> proc" where
  "getTotalTransactionCountI E w req = with_node E req (\<lambda>g n. Inr (getTotalTransactionCount E w g n))"

definition getPeersI :: "rpc_env \<Rightarrow> world \<Rightarrow> json \<Rightarrow> proc" where
  "getPeersI E w req = getPeers E w"

definition getGroupPeersI :: "rpc_env \<Rightarrow> world \<Rightarrow> json \<Rightarrow> proc" where
  "getGroupPeersI E w req = throwing (rbind (arg_string E req 0) (\<lambda>g. Inr (getGroupPeers E w g)))"

definition getGroupListI :: "rpc_env \<Rightarrow> world \<Rightarrow> json \<Rightarrow> proc" where
  "getGroupListI E w req = getGroupList E w"

definition getGroupInfoI :: "rpc_env \<Rightarrow> world \<Rightarrow> json \<Rightarrow> proc" where
  "getGroupInfoI E w req = throwing (rbind (arg_string E req 0) (\<lambda>g. Inr (getGroupInfo_method E w g)))"

definition getGroupInfoListI :: "rpc_env \<Rightarrow> world \<Rightarrow> json \<Rightarrow> proc" where
  "getGroupInfoListI E w req = getGroupInfoList E w"

definition getGroupNodeInfoI :: "rpc_env \<Rightarrow> world \<Rightarrow> json \<Rightarrow> proc" where
  "getGroupNodeInfoI E w req = with_node E req (\<lambda>g n. Inr (getGroupNodeInfo E w g n))"

subsection \<open>The table of methods\<close>

type_synonym rpc_method = "world \<Rightarrow> json \<Rightarrow> proc"

definition initMethod :: "rpc_env \<Rightarrow> string \<Rightarrow> rpc_method option" where
  "initMethod E = map_of
     [(''call'', callI E), (''sendTransaction'', sendTransactionI E),
      (''getTransaction'', getTransactionI E), (''getTransactionReceipt'', getTransactionReceiptI E),
      (''getBlockByHash'', getBlockByHashI E), (''getBlockByNumber'', getBlockByNumberI E),
      (''getBlockHashByNumber'', getBlockHashByNumberI E), (''getBlockNumber'', getBlockNumberI E),
      (''getCode'', getCodeI E), (''getSealerList'', getSealerListI E),
      (''getObserverList'', getObserverListI E), (''getPbftView'', getPbftViewI E),
      (''getPendingTxSize'', getPendingTxSizeI E), (''getSyncStatus'', getSyncStatusI E),
      (''getConsensusStatus'', getConsensusStatusI E), (''getSystemConfigByKey'', getSystemConfigByKeyI E),
      (''getTotalTransactionCount'', getTotalTransactionCountI E), (''getPeers'', getPeersI E),
      (''getGroupPeers'', getGroupPeersI E), (''getGroupList'', getGroupListI E),
      (''getGroupInfo'', getGroupInfoI E), (''getGroupInfoList'', getGroupInfoListI E),
      (''getGroupNodeInfo'', getGroupNodeInfoI E)]"

subsection \<open>Handling a request\<close>

text \<open>
  How a piece of code of a request ends: with the text handed to the sender, with a call
  still to be answered, without any text, with an exception for the caller of the callback,
  or in a null pointer.
\<close>

datatype turn =
    Reply string
  | Waiting jsonResponse query "world \<Rightarrow> rpc_error option \<Rightarrow> proc callback"
  | Dropped
  | Escaped exn
  | Crashed

text \<open>The callback \<open>onRPCRequest\<close> gives to a method.\<close>

definition fill_response :: "jsonResponse \<Rightarrow> rpc_error option \<Rightarrow> json \<Rightarrow> jsonResponse" where
  "fill_response resp e v =
     (case e of
        Some err \<Rightarrow> if er_code err \<noteq> 0
                    then resp\<lparr>jr_code := i32 (er_code err), jr_message := er_msg err\<rparr>
                    else resp\<lparr>jr_result := v\<rparr>
      | None \<Rightarrow> resp\<lparr>jr_result := v\<rparr>)"

definition settle :: "rpc_env \<Rightarrow> jsonResponse \<Rightarrow> proc \<Rightarrow> turn" where
  "settle E resp p =
     (case p of
        Respond e v \<Rightarrow> Reply (toStringResponse (re_json E) (fill_response resp e v))
      | Throw x \<Rightarrow> Escaped x
      | Silent \<Rightarrow> Dropped
      | NullPointer \<Rightarrow> Crashed
      | Ask q k \<Rightarrow> Waiting resp q k)"

text \<open>The two \<^theory_text>\<open>catch\<close> clauses.\<close>

fun catch_code :: "exn \<Rightarrow> int" where
  "catch_code (JsonRpcException c msg) = c"
| "catch_code (StdException msg) = rpc_code InvalidRequest"

definition error_reply :: "rpc_env \<Rightarrow> jsonResponse \<Rightarrow> exn \<Rightarrow> turn" where
  "error_reply E resp x =
     Reply (toStringResponse (re_json E) (resp\<lparr>jr_code := catch_code x, jr_message := what x\<rparr>))"

definition onRPCRequest ::
  "rpc_env \<Rightarrow> (string \<Rightarrow> rpc_method option) \<Rightarrow> world \<Rightarrow> string \<Rightarrow> turn" where
  "onRPCRequest E methodToFunc w body =
     (let response = new_response (re_junk E)
      in case parseRpcRequestJson (re_json E) body of
           Inl x \<Rightarrow> error_reply E response x
         | Inr request \<Rightarrow>
             let response1 = response\<lparr>jr_jsonrpc := jq_jsonrpc request, jr_id := jq_id request\<rparr>
             in case methodToFunc (jq_method request) of
                  None \<Rightarrow> error_reply E response1
                    (rpc_throw MethodNotFound ''The method does not exist/is not available.'')
                | Some f \<Rightarrow>
                    (case f w (jq_params request) of
                       Throw x \<Rightarrow> error_reply E response1 x
                     | Respond e v \<Rightarrow> settle E response1 (Respond e v)
                     | Silent \<Rightarrow> settle E response1 Silent
                     | NullPointer \<Rightarrow> settle E response1 NullPointer
                     | Ask q k \<Rightarrow> settle E response1 (Ask q k)))"

subsection \<open>The interface object and its requests\<close>

record node_info =
  nf_version :: string
  nf_supportedVersion :: string
  nf_nodeID :: string
  nf_chainID :: string
  nf_groupID :: string
  nf_agency :: string
  nf_buildTime :: string
  nf_gitCommitHash :: string
  nf_isWasm :: bool
  nf_isSM :: bool

text \<open>
  Beside the members of the class, the state keeps the requests in flight (what the response
  callback captured and the call that is out), the texts handed to senders, and the requests
  that ended without one. A request is named by a tag for its sender.
\<close>

record json_rpc =
  jp_methods :: "string \<Rightarrow> rpc_method option"
  jp_nodeInfo :: node_info
  jp_clientID :: string
  jp_waiting :: "(nat \<times> jsonResponse \<times> query \<times> (world \<Rightarrow> rpc_error option \<Rightarrow> proc callback)) list"
  jp_sent :: "(nat \<times> string) list"
  jp_lost :: "(nat \<times> turn) list"

definition new_json_rpc :: "rpc_env \<Rightarrow> node_info \<Rightarrow> json_rpc" where
  "new_json_rpc E ni =
     \<lparr>jp_methods = initMethod E, jp_nodeInfo = ni, jp_clientID = ''localRpc'',
      jp_waiting = [], jp_sent = [], jp_lost = []\<rparr>"

definition setClientID_rpc :: "string \<Rightarrow> json_rpc \<Rightarrow> json_rpc" where
  "setClientID_rpc c s = s\<lparr>jp_clientID := c\<rparr>"

definition setNodeInfo :: "node_info \<Rightarrow> json_rpc \<Rightarrow> json_rpc" where
  "setNodeInfo ni s = s\<lparr>jp_nodeInfo := ni\<rparr>"

definition registerMethod :: "string \<Rightarrow> rpc_method \<Rightarrow> json_rpc \<Rightarrow> json_rpc" where
  "registerMethod name f s = s\<lparr>jp_methods := (jp_methods s)(name \<mapsto> f)\<rparr>"

definition take_turn :: "nat \<Rightarrow> turn \<Rightarrow> json_rpc \<Rightarrow> json_rpc" where
  "take_turn n t s =
     (case t of
        Reply text \<Rightarrow> s\<lparr>jp_sent := jp_sent s @ [(n, text)]\<rparr>
      | Waiting resp q k \<Rightarrow> s\<lparr>jp_waiting := jp_waiting s @ [(n, resp, q, k)]\<rparr>
      | _ \<Rightarrow> s\<lparr>jp_lost := jp_lost s @ [(n, t)]\<rparr>)"

datatype rpc_event =
    RpcRequest nat world string
  | CallAnswered nat world "rpc_error option" results
  | SetClientID string
  | SetNodeInfo node_info

definition answer_call ::
  "rpc_env \<Rightarrow> nat \<Rightarrow> world \<Rightarrow> rpc_error option \<Rightarrow> results \<Rightarrow> json_rpc \<Rightarrow> json_rpc option" where
  "answer_call E i w e r s =
     (if i < length (jp_waiting s)
      then let (n, resp, q, k) = jp_waiting s ! i
           in case feed (k w e) r of
                None \<Rightarrow> None
              | Some p \<Rightarrow>
                  Some (take_turn n (settle E resp p)
                    (s\<lparr>jp_waiting := take i (jp_waiting s) @ drop (Suc i) (jp_waiting s)\<rparr>))
      else None)"

text \<open>
  One step of the object: a request arrives, one of the calls in flight is answered with
  results of its kind, or a setter runs.
\<close>

inductive rpc_step :: "rpc_env \<Rightarrow> json_rpc \<Rightarrow> rpc_event \<Rightarrow> json_rpc \<Rightarrow> bool" for E where
  rpc_request: "rpc_step E s (RpcRequest n w body) (take_turn n (onRPCRequest E (jp_methods s) w body) s)"
| rpc_answer: "answer_call E i w e r s = Some t \<Longrightarrow> rpc_step E s (CallAnswered i w e r) t"
| rpc_client: "rpc_step E s (SetClientID c) (setClientID_rpc c s)"
| rpc_node: "rpc_step E s (SetNodeInfo ni) (setNodeInfo ni s)"

inductive_cases rpc_step_cases: "rpc_step E s ev t"

end
