(* ===== verification/ServedNodes.thy ===== *)
theory ServedNodes
  imports GroupManagerProps NodeService
begin

text \<open>
  Where the services of a group manager come from. If every announcement was handled with a
  factory whose services satisfy \<open>P\<close>, every service the manager hands out satisfies \<open>P\<close>: the
  operations file only what the factory built, and the choice of a node hands out only what
  is filed. With \<open>P\<close> as \<open>complete_service\<close> this is what the JSON-RPC interface needs of
  the manager.
\<close>

definition services_all :: "('ns \<Rightarrow> bool) \<Rightarrow> 'ns gm \<Rightarrow> bool" where
  "services_all P s \<longleftrightarrow> (\<forall>g n ns. queryNodeService g n s = Some ns \<longrightarrow> P ns)"

fun builds :: "('ns \<Rightarrow> bool) \<Rightarrow> 'ns gm_event \<Rightarrow> bool" where
  "builds P (Announce gi build) \<longleftrightarrow> (\<forall>c g ni ns. build c g ni = Some ns \<longrightarrow> P ns)"
| "builds P (BlockNote g n b) \<longleftrightarrow> True"
| "builds P (Tick now u) \<longleftrightarrow> True"
| "builds P RegisterNotifier \<longleftrightarrow> True"

definition built_step :: "group_api \<Rightarrow> ('ns \<Rightarrow> bool) \<Rightarrow> 'ns gm \<Rightarrow> 'ns gm_event \<Rightarrow> 'ns gm \<Rightarrow> bool" where
  "built_step A P s e t \<longleftrightarrow> gm_step A s e t \<and> builds P e"

lemma services_all_cong:
  "gm_nodeServiceList t = gm_nodeServiceList s \<Longrightarrow> services_all P t = services_all P s"
  by (simp add: services_all_def queryNodeService_def)

lemma services_all_notify [simp]: "services_all P (snd (notify gi s)) = services_all P s"
  by (rule services_all_cong) (simp add: frame)

lemma services_all_groups [simp]:
  "services_all P (s\<lparr>gm_groupInfos := G\<rparr>) = services_all P s"
  by (rule services_all_cong) simp

lemma services_all_addService:
  "services_all P s \<Longrightarrow> P ns \<Longrightarrow> services_all P (addService g n ns s)"
  by (auto simp: services_all_def queryNodeService_def addService_def split: option.splits if_splits)

lemma services_all_node:
  assumes "services_all P s" and "\<And>ns. build (gm_chainID s) g ni = Some ns \<Longrightarrow> P ns"
  shows "services_all P (snd (updateNodeServiceWithoutLock A build g ni s))"
  using assms services_all_addService [OF assms(1)]
  by (auto simp: updateNodeServiceWithoutLock_def Let_def split: option.split)

lemma services_all_nodes:
  assumes "\<And>c g ni ns. build c g ni = Some ns \<Longrightarrow> P ns" and "services_all P s"
  shows "services_all P (snd (update_nodes A build g nis s))"
  using assms(2)
proof (induction nis arbitrary: s)
  case (Cons ni nis)
  obtain r t where r: "updateNodeServiceWithoutLock A build g ni s = (r, t)" by fastforce
  have "services_all P t"
    using services_all_node [OF Cons.prems, of build g ni A] assms(1) r by simp
  with Cons.IH [of t] r show ?case
    by (cases r) simp_all
qed simp

lemma services_all_announce:
  assumes "\<And>c g ni ns. build c g ni = Some ns \<Longrightarrow> P ns" and "services_all P s"
  shows "services_all P (snd (updateGroupInfo A build gi s))"
  using services_all_nodes [of build P s A "gi_groupID gi" "map snd (fmap_list (gi_nodeInfos gi))"] assms
  by (auto simp: updateGroupInfo_def)

lemma services_all_tick:
  assumes A: "group_api_ok A" and wf: "gm_wf s" and "services_all P s"
  shows "services_all P (updateGroupStatus A u now s)"
proof (cases "tick_time now s")
  case True
  have "queryNodeService g n (updateGroupStatus A u now s) =
      (if n |\<in>| gone_nodes u s g then None else queryNodeService g n s)" for g n
    by (simp add: queryNodeService_def updateGroupStatus_tables(2) [OF A wf True] drop_services_query)
  then show ?thesis
    using assms(3) by (simp add: services_all_def)
qed (simp add: updateGroupStatus_idle assms(3))

interpretation built: step_invariant "built_step A P" "new_gm chain now" "\<lambda>s. gm_wf s \<and> services_all P s"
  for A P chain now
proof
  show "gm_wf (new_gm chain now) \<and> services_all P (new_gm chain now)"
    using new_gm_within by (auto simp: services_all_def queryNodeService_def new_gm_def)
  fix s t :: "'a gm" and e
  assume inv: "gm_wf s \<and> services_all P s" and st: "built_step A P s e t"
  then have g: "gm_step A s e t" and b: "builds P e" by (simp_all add: built_step_def)
  from g have "services_all P t"
  proof (rule gm_step_cases)
    fix gi build assume "e = Announce gi build" and t: "t = snd (updateGroupInfo A build gi s)"
    with b have "\<And>c g ni ns. build c g ni = Some ns \<Longrightarrow> P ns" by auto
    with inv show ?thesis unfolding t by (blast intro: services_all_announce)
  next
    fix g n b assume t: "t = updateGroupBlockInfo g n b s"
    have "gm_nodeServiceList t = gm_nodeServiceList s" by (simp add: t frame)
    from services_all_cong [OF this] inv show ?thesis by simp
  next
    fix now u assume "group_api_ok A" "t = updateGroupStatus A u now s"
    with inv show ?thesis by (simp add: services_all_tick)
  next
    assume t: "t = registerGroupInfoNotifier s"
    have "gm_nodeServiceList t = gm_nodeServiceList s" by (simp add: t registerGroupInfoNotifier_def)
    from services_all_cong [OF this] inv show ?thesis by simp
  qed
  moreover have "gm_wf t" using gm.inv_step g inv by blast
  ultimately show "gm_wf t \<and> services_all P t" by simp
qed

lemma run_restrict:
  assumes "run step s es t" and "\<And>e. e \<in> set es \<Longrightarrow> P e"
  shows "run (\<lambda>s e t. step s e t \<and> P e) s es t"
  using assms
proof (induction rule: run.induct)
  case (run_snoc es t e u)
  then show ?case by (auto intro!: run.run_snoc)
qed (simp add: run.run_nil)

lemma factory_services:
  assumes "run (gm_step A) (new_gm chain start) es s"
    and "\<And>gi build. Announce gi build \<in> set es \<Longrightarrow> build = buildNodeService D"
  shows "services_all complete_service s"
proof -
  have b: "builds complete_service e" if "e \<in> set es" for e
  proof (cases e)
    case (Announce gi build)
    then have "build = buildNodeService D" using that assms(2) by blast
    then show ?thesis using Announce buildNodeService_complete by auto
  qed simp_all
  have "run (\<lambda>s e t. gm_step A s e t \<and> builds complete_service e) (new_gm chain start) es s"
    by (rule run_restrict [OF assms(1) b])
  then have "run (built_step A complete_service) (new_gm chain start) es s"
    by (rule run_mono) (auto simp: built_step_def)
  then show ?thesis
    using built.run_inv by blast
qed

lemma getNodeService_query:
  "getNodeService rnd g n s = Some ns \<Longrightarrow> \<exists>k. queryNodeService g k s = Some ns"
  by (auto simp: getNodeService_def selectNode_def Let_def dest: selectNodeRandomly_Some split: if_splits)

lemma getNodeService_all:
  "services_all P s \<Longrightarrow> getNodeService rnd g n s = Some ns \<Longrightarrow> P ns"
  by (auto simp: services_all_def dest: getNodeService_query)

text \<open>A manager that has heard of one group twice, with the factory of the program.\<close>

definition demo_nodeGroup :: groupInfo where
  "demo_nodeGroup = \<lparr>gi_chainID = ''chain0'', gi_groupID = ''group0'', gi_genesisConfig = '''',
     gi_iniConfig = '''', gi_nodeInfos = fmupd ''node0'' demo_nodeInfo fmempty\<rparr>"

definition demo_served :: "nodeService gm" where
  "demo_served = snd (updateGroupInfo ref_group_api (buildNodeService demo_desc) demo_nodeGroup
     (snd (updateGroupInfo ref_group_api (buildNodeService demo_desc) demo_nodeGroup
       (registerGroupInfoNotifier (new_gm ''chain0'' 0)))))"

lemma demo_served_run:
  "run (gm_step ref_group_api) (new_gm ''chain0'' 0)
     [RegisterNotifier, Announce demo_nodeGroup (buildNodeService demo_desc),
      Announce demo_nodeGroup (buildNodeService demo_desc)] demo_served"
proof -
  have wf: "group_wf demo_nodeGroup"
    by (simp add: group_wf_def demo_nodeGroup_def demo_nodeInfo_def fmpred_iff)
  show ?thesis
    unfolding demo_served_def
    by (intro run_Cons)
      (auto simp: run_nil wf intro: gm_step.intros)
qed

lemma demo_served_query: "queryNodeService ''group0'' ''node0'' demo_served = Some demo_nodeService"
  using demo_nodeService_built
  by (simp add: demo_served_def demo_nodeGroup_def gm_eval) (simp add: demo_nodeInfo_def gm_eval)

lemma demo_served_get: "getNodeService rnd ''group0'' ''node0'' demo_served = Some demo_nodeService"
  by (simp add: getNodeService_def demo_served_query)

end
