(* ===== verification/JsonRpcProps.thy ===== *)
theory JsonRpcProps
  imports JsonRpc ServedNodes
begin

text \<open>
  What the JSON-RPC interface promises.

  \<^item> \<open>ends W Q p\<close> says that the code \<open>p\<close> of a request comes to a response that satisfies \<open>Q\<close>,
    however its calls are answered, as long as callbacks run in a world of \<open>W\<close> and answers
    respect the contract \<open>answer_fits\<close> of the call: results of its kind, and no null pointer
    without an error. It is a weakest precondition, one equation per constructor of \<open>proc\<close>;
    the collection \<open>ends_intros\<close> has a rule for each way the methods are put together.
  \<^item> \<open>turn_ends\<close> lifts it to the handling of a request.
  \<^item> The locale \<open>node_provider\<close> is what the interface needs of a group manager. It is
    interpreted for the two managers, whose services are those of \<open>buildNodeService\<close>, or the
    one handed in.
  \<^item> The last section counts requests, texts sent and calls in flight over runs of \<open>rpc_step\<close>.
\<close>

named_theorems ends_intros \<open>ways to show that a method comes to a response\<close>

subsection \<open>Contracts of the calls\<close>

text \<open>
  \<open>answer_fits q e r\<close>: a call \<open>q\<close> may be answered with error \<open>e\<close> and results \<open>r\<close>. Without an error
  the pointers the program goes through are not null; the result of a submission carries a
  receipt, since otherwise the client is not answered (\<open>JsonRpcMethods\<close>).
\<close>

definition answer_fits :: "query \<Rightarrow> rpc_error option \<Rightarrow> results \<Rightarrow> bool" where
  "answer_fits q e r =
     (case q of
        ExecuteCall c suite a \<Rightarrow> (case r of Receipt rc \<Rightarrow> failed e \<or> rc \<noteq> None | _ \<Rightarrow> False)
      | GetCode c a \<Rightarrow> (case r of Code b \<Rightarrow> True | _ \<Rightarrow> False)
      | AsyncSubmit c b \<Rightarrow> (case r of Submitted sr \<Rightarrow> failed e \<or> (\<exists>x. sr = Some x \<and> sr_receipt x \<noteq> None) | _ \<Rightarrow> False)
      | AsyncGetPendingTransactionSize c \<Rightarrow> (case r of Size n \<Rightarrow> True | _ \<Rightarrow> False)
      | AsyncGetBatchTxsByHashList c hs p \<Rightarrow>
          (case r of Transactions ts ps \<Rightarrow> failed e \<or> ts \<noteq> None | _ \<Rightarrow> False)
      | AsyncGetTransactionReceiptByHash c h p \<Rightarrow>
          (case r of ReceiptProof rc pr \<Rightarrow> failed e \<or> rc \<noteq> None | _ \<Rightarrow> False)
      | AsyncGetBlockNumberByHash c h \<Rightarrow> (case r of Number n \<Rightarrow> True | _ \<Rightarrow> False)
      | AsyncGetBlockDataByNumber c n ps \<Rightarrow> (case r of BlockData b \<Rightarrow> True | _ \<Rightarrow> False)
      | AsyncGetBlockHashByNumber c n \<Rightarrow> (case r of Hash h \<Rightarrow> True | _ \<Rightarrow> False)
      | AsyncGetBlockNumber c \<Rightarrow> (case r of Number n \<Rightarrow> True | _ \<Rightarrow> False)
      | AsyncGetNodeListByType c t \<Rightarrow> (case r of Nodes ns \<Rightarrow> True | _ \<Rightarrow> False)
      | AsyncGetSystemConfigByKey c k \<Rightarrow> (case r of Config v n \<Rightarrow> True | _ \<Rightarrow> False)
      | AsyncGetTotalTransactionCount c \<Rightarrow> (case r of Counts x y z \<Rightarrow> True | _ \<Rightarrow> False)
      | AsyncGetPBFTView c \<Rightarrow> (case r of View v \<Rightarrow> True | _ \<Rightarrow> False)
      | AsyncGetConsensusStatus c \<Rightarrow> (case r of Status s \<Rightarrow> True | _ \<Rightarrow> False)
      | AsyncGetSyncInfo c \<Rightarrow> (case r of Status s \<Rightarrow> True | _ \<Rightarrow> False)
      | AsyncGetPeers \<Rightarrow>
          (case r of Peers l ps \<Rightarrow> e \<noteq> None \<or> l \<noteq> None \<and> ps \<noteq> None | _ \<Rightarrow> False))"

lemma feed_map: "feed (map_callback f c) r = map_option f (feed c r)"
  by (cases c; cases r) (simp_all add: feed_def)

lemma feed_set: "feed c r = Some p \<Longrightarrow> p \<in> set_callback c"
  by (cases c; cases r) (auto simp: feed_def)

primrec ends :: "(world \<Rightarrow> bool) \<Rightarrow> (rpc_error option \<Rightarrow> json \<Rightarrow> bool) \<Rightarrow> proc \<Rightarrow> bool" where
  "ends W Q (Respond e v) = Q e v"
| "ends W Q (Throw x) = False"
| "ends W Q Silent = False"
| "ends W Q NullPointer = False"
| "ends W Q (Ask q k) =
     (\<forall>w e r. W w \<longrightarrow> answer_fits q e r \<longrightarrow> feed (map_callback (ends W Q) (k w e)) r = Some True)"

lemma ends_Ask:
  "ends W Q (Ask q k) \<longleftrightarrow>
     (\<forall>w e r. W w \<longrightarrow> answer_fits q e r \<longrightarrow> (\<exists>p. feed (k w e) r = Some p \<and> ends W Q p))"
  by (simp add: feed_map)

declare ends.simps(5) [simp del]

lemma ends_weaken:
  assumes "ends W Q p" and "\<And>w. W' w \<Longrightarrow> W w" and "\<And>e v. Q e v \<Longrightarrow> Q' e v"
  shows "ends W' Q' p"
  using assms(1)
proof (induction p)
  case (Ask q k)
  show ?case
    unfolding ends_Ask
  proof (intro allI impI)
    fix w e r assume "W' w" "answer_fits q e r"
    with Ask.prems assms(2) obtain p where p: "feed (k w e) r = Some p" "ends W Q p"
      unfolding ends_Ask by blast
    moreover have "ends W' Q' p"
      by (rule Ask.IH [of "k w" "k w e"]) (use p feed_set in auto)
    ultimately show "\<exists>p. feed (k w e) r = Some p \<and> ends W' Q' p" by blast
  qed
qed (use assms(3) in auto)

lemma ends_mono: "ends W Q p \<Longrightarrow> (\<And>e v. Q e v \<Longrightarrow> Q' e v) \<Longrightarrow> ends W Q' p"
  by (rule ends_weaken)

lemma ends_respond_to:
  assumes "ends W (\<lambda>e v. ends W Q (f e v)) p"
  shows "ends W Q (respond_to f p)"
  using assms
proof (induction p)
  case (Ask q k)
  show ?case
    unfolding respond_to.simps ends_Ask
  proof (intro allI impI)
    fix w e r assume "W w" "answer_fits q e r"
    with Ask.prems obtain p where p: "feed (k w e) r = Some p" "ends W (\<lambda>e v. ends W Q (f e v)) p"
      unfolding ends_Ask by blast
    moreover have "ends W Q (respond_to f p)"
      by (rule Ask.IH [of "k w" "k w e"]) (use p feed_set in auto)
    ultimately show "\<exists>p. feed (map_callback (respond_to f) (k w e)) r = Some p \<and> ends W Q p"
      by (simp add: feed_map)
  qed
qed auto

text \<open>At its start a method may also throw, which the handler of requests catches.\<close>

definition starts :: "(world \<Rightarrow> bool) \<Rightarrow> (rpc_error option \<Rightarrow> json \<Rightarrow> bool) \<Rightarrow> proc \<Rightarrow> bool" where
  "starts W Q p \<longleftrightarrow> (\<exists>x. p = Throw x) \<or> ends W Q p"

lemma starts_ends: "ends W Q p \<Longrightarrow> starts W Q p"
  by (simp add: starts_def)

lemma starts_bind [ends_intros]:
  "(\<And>a. m = Inr a \<Longrightarrow> starts W Q (throwing (f a))) \<Longrightarrow> starts W Q (throwing (rbind m f))"
  by (cases m) (auto simp: starts_def)

lemma starts_Inr [ends_intros]: "starts W Q p \<Longrightarrow> starts W Q (throwing (Inr p))"
  by simp

lemma starts_node:
  "getNodeService_method E w g n c = Inr ns \<Longrightarrow> rw_getNodeService w g n = Some ns"
  by (simp add: getNodeService_method_def split: option.splits)

lemma starts_service: "checkService c s = Inr c' \<Longrightarrow> c = Some c'"
  by (simp add: checkService_def split: option.splits)

lemma starts_with_client [ends_intros]:
  assumes "\<And>ns c. rw_getNodeService w g n = Some ns \<Longrightarrow> field ns = Some c \<Longrightarrow>
             starts W Q (throwing (k ns c))"
  shows "starts W Q (with_client E w g n cmd field s k)"
  unfolding with_client_def
  by (intro starts_bind assms) (auto dest: starts_node starts_service)

lemma with_client_found:
  "rw_getNodeService w g n = Some ns \<Longrightarrow> field ns = Some c \<Longrightarrow>
     with_client E w g n cmd field s k = throwing (k ns c)"
  by (simp add: with_client_def getNodeService_method_def checkService_def)

lemma starts_with_node [ends_intros]:
  "(\<And>g n. starts W Q (throwing (f g n))) \<Longrightarrow> starts W Q (with_node E req f)"
  unfolding with_node_def by (intro starts_bind)

lemma starts_Respond [ends_intros]: "Q e v \<Longrightarrow> starts W Q (Respond e v)"
  by (simp add: starts_def)

lemma starts_Ask [ends_intros]:
  "(\<And>w e r. W w \<Longrightarrow> answer_fits q e r \<Longrightarrow> \<exists>p. feed (k w e) r = Some p \<and> ends W Q p) \<Longrightarrow>
     starts W Q (Ask q k)"
  by (simp add: starts_def ends_Ask)

lemma answer_fits_simps:
  "answer_fits (ExecuteCall c suite a) e r \<longleftrightarrow> (\<exists>rc. r = Receipt rc \<and> (failed e \<or> rc \<noteq> None))"
  "answer_fits (GetCode c x) e r \<longleftrightarrow> (\<exists>b. r = Code b)"
  "answer_fits (AsyncSubmit c b) e r \<longleftrightarrow> (\<exists>sr. r = Submitted sr \<and> (failed e \<or> (\<exists>x. sr = Some x \<and> sr_receipt x \<noteq> None)))"
  "answer_fits (AsyncGetPendingTransactionSize c) e r \<longleftrightarrow> (\<exists>n. r = Size n)"
  "answer_fits (AsyncGetBatchTxsByHashList c hs p) e r \<longleftrightarrow>
     (\<exists>ts ps. r = Transactions ts ps \<and> (failed e \<or> ts \<noteq> None))"
  "answer_fits (AsyncGetTransactionReceiptByHash c h p) e r \<longleftrightarrow>
     (\<exists>rc pr. r = ReceiptProof rc pr \<and> (failed e \<or> rc \<noteq> None))"
  "answer_fits (AsyncGetBlockNumberByHash c h) e r \<longleftrightarrow> (\<exists>n. r = Number n)"
  "answer_fits (AsyncGetBlockDataByNumber c i ps) e r \<longleftrightarrow> (\<exists>b. r = BlockData b)"
  "answer_fits (AsyncGetBlockHashByNumber c i) e r \<longleftrightarrow> (\<exists>h. r = Hash h)"
  "answer_fits (AsyncGetBlockNumber c) e r \<longleftrightarrow> (\<exists>n. r = Number n)"
  "answer_fits (AsyncGetNodeListByType c t) e r \<longleftrightarrow> (\<exists>ns. r = Nodes ns)"
  "answer_fits (AsyncGetSystemConfigByKey c x) e r \<longleftrightarrow> (\<exists>v n. r = Config v n)"
  "answer_fits (AsyncGetTotalTransactionCount c) e r \<longleftrightarrow> (\<exists>x y z. r = Counts x y z)"
  "answer_fits (AsyncGetPBFTView c) e r \<longleftrightarrow> (\<exists>v. r = View v)"
  "answer_fits (AsyncGetConsensusStatus c) e r \<longleftrightarrow> (\<exists>s. r = Status s)"
  "answer_fits (AsyncGetSyncInfo c) e r \<longleftrightarrow> (\<exists>s. r = Status s)"
  "answer_fits AsyncGetPeers e r \<longleftrightarrow> (\<exists>l ps. r = Peers l ps \<and> (e \<noteq> None \<or> l \<noteq> None \<and> ps \<noteq> None))"
  by (cases r; simp add: answer_fits_def)+

subsection \<open>The methods come to a response\<close>

text \<open>
  \<open>still_serves w\<close>: the worlds in which the object is alive and every node that was served in
  \<open>w\<close> still is, by a service with a ledger, which is what a callback needs that looks a service
  up again. The services may be others than in \<open>w\<close>, and there may be more nodes.
\<close>

definition still_serves :: "world \<Rightarrow> world \<Rightarrow> bool" where
  "still_serves w w' \<longleftrightarrow> rw_alive w' \<and>
     (\<forall>g n. rw_getNodeService w g n \<noteq> None \<longrightarrow>
        (\<exists>ns. rw_getNodeService w' g n = Some ns \<and> ns_ledger ns \<noteq> None))"

lemma still_servesE:
  assumes "still_serves w w'" and "rw_getNodeService w g n = Some ns"
  obtains ns' c where "rw_getNodeService w' g n = Some ns'" and "ns_ledger ns' = Some c" and "rw_alive w'"
  using assms by (force simp: still_serves_def)

definition all_complete :: "world \<Rightarrow> bool" where
  "all_complete w \<longleftrightarrow> (\<forall>g n ns. rw_getNodeService w g n = Some ns \<longrightarrow> complete_service ns)"

abbreviation answered :: "world \<Rightarrow> proc \<Rightarrow> bool" where
  "answered w \<equiv> starts (still_serves w) (\<lambda>_ _. True)"

lemma answered_now: "answered w (Respond e v)"
  by (simp add: starts_def)

lemma complete_node:
  assumes "all_complete w" and "getNodeService_method E w g n c = Inr ns"
  obtains l sc t bf where "ns_ledger ns = Some l" "ns_scheduler ns = Some sc" "ns_txpool ns = Some t"
    "ns_blockFactory ns = Some bf" "rw_getNodeService w g n = Some ns"
  using assms starts_node [OF assms(2)] by (fastforce simp: all_complete_def complete_service_def)

lemma answered_call:
  assumes "all_complete w" shows "answered w (call E w g n t d)"
  unfolding call_def
  by (rule starts_bind, erule complete_node [OF assms])
    (auto intro!: ends_intros simp: answer_fits_simps)

lemma answered_getCode:
  assumes "all_complete w" shows "answered w (getCode E w g n c)"
  unfolding getCode_def
  by (rule starts_bind, erule complete_node [OF assms])
    (auto intro!: ends_intros simp: answer_fits_simps)

lemma ends_onTransactions:
  assumes "failed e \<or> ts \<noteq> None" shows "ends W (\<lambda>_ _. True) (onTransactions E p e ts ps)"
  using assms by (auto simp: onTransactions_def Let_def)

lemma answered_getTransaction: "answered w (getTransaction E w g n h p)"
  unfolding getTransaction_def
  by (intro starts_bind starts_Inr starts_with_client starts_Ask)
    (auto simp: answer_fits_simps ends_onTransactions)

lemma answered_simple:
  "answered w (getBlockByNumber E w g n b hdr txh)"
  "answered w (getBlockHashByNumber E w g n b)"
  "answered w (getBlockNumber E w g n)"
  "answered w (getSealerList E w g n)"
  "answered w (getObserverList E w g n)"
  "answered w (getPbftView E w g n)"
  "answered w (getPendingTxSize E w g n)"
  "answered w (getSyncStatus E w g n)"
  "answered w (getConsensusStatus E w g n)"
  "answered w (getSystemConfigByKey E w g n k)"
  "answered w (getTotalTransactionCount E w g n)"
  "answered w (getPeers E w)"
  "answered w (getGroupList E w)"
  "answered w (getGroupInfo_method E w g)"
  "answered w (getGroupInfoList E w)"
  "answered w (getGroupNodeInfo E w g n)"
  unfolding getBlockByNumber_def getBlockHashByNumber_def getBlockNumber_def getSealerList_def
    getObserverList_def getPbftView_def getPendingTxSize_def getSyncStatus_def getConsensusStatus_def
    getSystemConfigByKey_def getTotalTransactionCount_def getPeers_def getGroupList_def
    getGroupInfo_method_def getGroupInfoList_def getGroupNodeInfo_def Let_def
  by (intro starts_with_client starts_Inr starts_Ask starts_Respond;
      auto simp: answer_fits_simps onBlock_def)+

lemma answered_getGroupPeers: "answered w (getGroupPeers E w g)"
  unfolding getGroupPeers_def
  by (intro starts_Ask) (auto simp: answer_fits_simps groupPeersToJson_def Let_def)

text \<open>What \<open>getTransaction\<close> hands on is null or an object, so its members can be read.\<close>

definition readable :: "json \<Rightarrow> bool" where
  "readable v \<longleftrightarrow> v = JNull \<or> (\<exists>f. v = JObject f)"

lemma readable_simps [simp]: "readable JNull" "readable (jset kvs v)"
  by (simp_all add: readable_def jset_def)

lemma readable_builders [simp]:
  "readable (tx_toJsonResp hx tx v)"
  "readable (addProofToResponse key proof v) \<longleftrightarrow> proof = None \<and> readable v \<or>
     (\<exists>items. proof = Some items \<and> (items \<noteq> [] \<or> readable v))"
  by (auto simp: tx_toJsonResp_def addProofToResponse_def split: option.splits)

lemma readable_member:
  assumes "jsoncpp_ok J" and "json_lenient J" and "readable v"
  obtains x where "jmember J v k = Inr x"
proof (cases v)
  case (JObject f)
  then show ?thesis
    using that assms by (cases "fmlookup f k") (simp_all add: json_lenient json_ok)
qed (use that assms in \<open>auto simp: json_lenient readable_def\<close>)

lemma ends_onTransactions_readable:
  assumes "failed e \<or> ts \<noteq> None" shows "ends W (\<lambda>_. readable) (onTransactions E p e ts ps)"
proof (cases "failed e")
  case False
  with assms obtain t where t: "ts = Some t" by auto
  have "readable (case t of [] \<Rightarrow> JNull | tx # _ \<Rightarrow> tx_toJsonResp (re_hex E) tx JNull)"
    by (cases t) simp_all
  then show ?thesis
    using False unfolding t by (auto simp: onTransactions_def Let_def split: option.splits list.splits)
qed (simp add: onTransactions_def)

lemma ends_getTransaction:
  assumes "re_hash E h = Inr x" and "rw_getNodeService w g n = Some ns" and "ns_ledger ns = Some c"
  shows "ends W (\<lambda>_. readable) (getTransaction E w g n h p)"
proof -
  have "getTransaction E w g n h p = Ask (AsyncGetBatchTxsByHashList c [x] p)
      (\<lambda>w e. OnTransactions (onTransactions E p e))"
    using with_client_found [where field = ns_ledger, OF assms(2,3)] by (simp add: getTransaction_def assms(1))
  then show ?thesis
    by (auto simp: ends_Ask answer_fits_simps ends_onTransactions_readable)
qed

lemma ends_onReceiptTransaction:
  assumes "jsoncpp_ok (re_json E)" and "json_lenient (re_json E)" and "readable v"
  shows "ends W (\<lambda>e _. e = None) (onReceiptTransaction E j e v)"
proof -
  note r = readable_member [OF assms]
  obtain a where a: "jmember (re_json E) v ''input'' = Inr a" by (rule r)
  obtain b where b: "jmember (re_json E) v ''from'' = Inr b" by (rule r)
  obtain c where c: "jmember (re_json E) v ''to'' = Inr c" by (rule r)
  obtain d where d: "jmember (re_json E) v ''transactionProof'' = Inr d" by (rule r)
  show ?thesis
    by (simp add: onReceiptTransaction_def a b c d)
qed

lemma answered_getTransactionReceipt:
  assumes "jsoncpp_ok (re_json E)" and "json_lenient (re_json E)"
  shows "answered w (getTransactionReceipt E w g n h p)"
  unfolding getTransactionReceipt_def
proof (rule starts_bind, rule starts_Inr, rule starts_with_client, rule starts_Inr, rule starts_Ask)
  fix x ns c w1 e r
  assume h: "re_hash E h = Inr x" and ns: "rw_getNodeService w g n = Some ns" and c: "ns_ledger ns = Some c"
    and w1: "still_serves w w1" and "answer_fits (AsyncGetTransactionReceiptByHash c x p) e r"
  then obtain rc pr where r: "r = ReceiptProof rc pr" "failed e \<or> rc \<noteq> None"
    by (auto simp: answer_fits_simps)
  obtain ns' c' where ns1: "rw_getNodeService w1 g n = Some ns'" "ns_ledger ns' = Some c'" and alive: "rw_alive w1"
    by (rule still_servesE [OF w1 ns])
  have "ends (still_serves w) (\<lambda>_ _. True) (onReceipt E g n h x p w1 e rc pr)"
  proof (cases "failed e")
    case False
    with r obtain rc' where rc: "rc = Some rc'" by auto
    have "ends (still_serves w) (\<lambda>_ _. True) (respond_to (onReceiptTransaction E j) (getTransaction E w1 g n h p))"
      for j
      by (rule ends_respond_to, rule ends_mono [OF ends_getTransaction [OF h ns1]])
        (rule ends_mono [OF ends_onReceiptTransaction [OF assms]], auto)
    then show ?thesis
      using False by (simp add: onReceipt_def rc alive Let_def)
  qed (simp add: onReceipt_def alive)
  then show "\<exists>q. feed (OnReceiptProof (onReceipt E g n h x p w1 e)) r = Some q \<and>
      ends (still_serves w) (\<lambda>_ _. True) q"
    by (simp add: r)
qed

lemma answered_getBlockByHash: "answered w (getBlockByHash E w g n h hdr txh)"
  unfolding getBlockByHash_def
proof (rule starts_with_client, rule starts_bind, rule starts_Inr, rule starts_Ask)
  fix ns c x w1 e r
  assume ns: "rw_getNodeService w g n = Some ns" and c: "ns_ledger ns = Some c"
    and w1: "still_serves w w1" and "answer_fits (AsyncGetBlockNumberByHash c x) e r"
  then obtain b where r: "r = Number b" by (auto simp: answer_fits_simps)
  obtain ns' c' where ns1: "rw_getNodeService w1 g n = Some ns'" "ns_ledger ns' = Some c'" and alive: "rw_alive w1"
    by (rule still_servesE [OF w1 ns])
  have "ends (still_serves w) (\<lambda>_ _. True) (getBlockByNumber E w1 g n b hdr txh)"
    unfolding getBlockByNumber_def with_client_found [where field = ns_ledger, OF ns1]
    by (auto simp: ends_Ask answer_fits_simps onBlock_def)
  then show "\<exists>q. feed (OnNumber (onNumberByHash E g n hdr txh w1 e)) r = Some q \<and>
      ends (still_serves w) (\<lambda>_ _. True) q"
    by (simp add: r onNumberByHash_def alive)
qed

lemma answered_sendTransaction:
  assumes "all_complete w" shows "answered w (sendTransaction E w g n d p)"
  unfolding sendTransaction_def
proof (rule starts_bind, rule starts_Inr, rule starts_with_client)
  fix bs ns c assume "rw_getNodeService w g n = Some ns"
  with assms obtain suite where "ns_blockFactory ns = Some suite"
    by (fastforce simp: all_complete_def complete_service_def)
  then show "answered w (throwing (case ns_blockFactory ns of None \<Rightarrow> Inr NullPointer
      | Some suite \<Rightarrow> rbind (re_transaction E suite bs) (\<lambda>tx.
          Inr (Ask (AsyncSubmit c bs) (\<lambda>w e. OnSubmit (onSubmitted E tx w e))))))"
    by (auto intro!: ends_intros simp: answer_fits_simps onSubmitted_def still_serves_def Let_def)
qed

text \<open>Every method of the table.\<close>

lemma answered_method:
  assumes "jsoncpp_ok (re_json E)" and "json_lenient (re_json E)" and "all_complete w"
    and "initMethod E m = Some f"
  shows "answered w (f w req)"
proof -
  have I: "answered w (callI E w req)" "answered w (sendTransactionI E w req)" "answered w (getTransactionI E w req)"
    "answered w (getTransactionReceiptI E w req)" "answered w (getBlockByHashI E w req)"
    "answered w (getBlockByNumberI E w req)" "answered w (getBlockHashByNumberI E w req)"
    "answered w (getBlockNumberI E w req)" "answered w (getCodeI E w req)"
    "answered w (getSealerListI E w req)" "answered w (getObserverListI E w req)"
    "answered w (getPbftViewI E w req)" "answered w (getPendingTxSizeI E w req)"
    "answered w (getSyncStatusI E w req)" "answered w (getConsensusStatusI E w req)"
    "answered w (getSystemConfigByKeyI E w req)" "answered w (getTotalTransactionCountI E w req)"
    "answered w (getPeersI E w req)" "answered w (getGroupPeersI E w req)"
    "answered w (getGroupListI E w req)" "answered w (getGroupInfoI E w req)"
    "answered w (getGroupInfoListI E w req)" "answered w (getGroupNodeInfoI E w req)"
    unfolding callI_def sendTransactionI_def getTransactionI_def getTransactionReceiptI_def getBlockByHashI_def
      getBlockByNumberI_def getBlockHashByNumberI_def getBlockNumberI_def getCodeI_def
      getSealerListI_def getObserverListI_def getPbftViewI_def getPendingTxSizeI_def getSyncStatusI_def
      getConsensusStatusI_def getSystemConfigByKeyI_def getTotalTransactionCountI_def getPeersI_def
      getGroupPeersI_def getGroupListI_def getGroupInfoI_def getGroupInfoListI_def getGroupNodeInfoI_def
    by (intro starts_with_node starts_bind starts_Inr answered_simple answered_getTransaction
        answered_getBlockByHash answered_getGroupPeers answered_getTransactionReceipt [OF assms(1,2)]
        answered_call [OF assms(3)] answered_getCode [OF assms(3)] answered_sendTransaction [OF assms(3)])+
  show ?thesis
    using assms(4) I by (auto simp: initMethod_def split: if_splits)
qed

subsection \<open>Handling a request\<close>

definition turn_ends :: "rpc_env \<Rightarrow> (world \<Rightarrow> bool) \<Rightarrow> (jsonResponse \<Rightarrow> bool) \<Rightarrow> turn \<Rightarrow> bool" where
  "turn_ends E W R t \<longleftrightarrow>
     (case t of
        Reply text \<Rightarrow> \<exists>r. R r \<and> text = toStringResponse (re_json E) r
      | Waiting resp q k \<Rightarrow> ends W (\<lambda>e v. R (fill_response resp e v)) (Ask q k)
      | _ \<Rightarrow> False)"

lemma turn_ends_simps [simp]:
  "turn_ends E W R (Reply text) \<longleftrightarrow> (\<exists>r. R r \<and> text = toStringResponse (re_json E) r)"
  "turn_ends E W R (Waiting resp q k) \<longleftrightarrow> ends W (\<lambda>e v. R (fill_response resp e v)) (Ask q k)"
  "\<not> turn_ends E W R Dropped" "\<not> turn_ends E W R (Escaped x)" "\<not> turn_ends E W R Crashed"
  by (simp_all add: turn_ends_def)

lemma turn_ends_settle:
  assumes "ends W (\<lambda>e v. R (fill_response resp e v)) p"
  shows "turn_ends E W R (settle E resp p)"
  using assms by (cases p) (auto simp: settle_def)

lemma fill_response_keeps [simp]:
  "jr_jsonrpc (fill_response resp e v) = jr_jsonrpc resp" "jr_id (fill_response resp e v) = jr_id resp"
  by (simp_all add: fill_response_def split: option.split)

text \<open>The response carries the version and the id of the request, when there was one.\<close>

definition echoes :: "rpc_env \<Rightarrow> string \<Rightarrow> jsonResponse \<Rightarrow> bool" where
  "echoes E body r \<longleftrightarrow>
     (case parseRpcRequestJson (re_json E) body of
        Inl x \<Rightarrow> jr_jsonrpc r = '''' \<and> jr_id r = re_junk E
      | Inr rq \<Rightarrow> jr_jsonrpc r = jq_jsonrpc rq \<and> jr_id r = jq_id rq)"

lemma turn_ends_error_reply: "R (resp\<lparr>jr_code := catch_code x, jr_message := what x\<rparr>) \<Longrightarrow>
    turn_ends E W R (error_reply E resp x)"
  by (auto simp: error_reply_def)

lemma onRPCRequest_ends:
  assumes "jsoncpp_ok (re_json E)" and "json_lenient (re_json E)" and "all_complete w"
  shows "turn_ends E (still_serves w) (echoes E body) (onRPCRequest E (initMethod E) w body)"
proof (cases "parseRpcRequestJson (re_json E) body")
  case (Inl x)
  then show ?thesis
    by (auto simp: onRPCRequest_def echoes_def new_response_def intro: turn_ends_error_reply)
next
  case (Inr rq)
  let ?resp = "(new_response (re_junk E))\<lparr>jr_jsonrpc := jq_jsonrpc rq, jr_id := jq_id rq\<rparr>"
  have echo: "echoes E body (fill_response ?resp e v)"
    "echoes E body (?resp\<lparr>jr_code := c, jr_message := m\<rparr>)" for e v c m
    by (simp_all add: echoes_def Inr)
  show ?thesis
  proof (cases "initMethod E (jq_method rq)")
    case None
    then show ?thesis
      by (simp add: onRPCRequest_def Inr Let_def turn_ends_error_reply echo(2))
  next
    case (Some f)
    have a: "answered w (f w (jq_params rq))"
      by (rule answered_method [OF assms(1-3) Some])
    show ?thesis
    proof (cases "\<exists>x. f w (jq_params rq) = Throw x")
      case True
      with Some show ?thesis
        by (auto simp: onRPCRequest_def Inr Let_def turn_ends_error_reply echo(2))
    next
      case False
      with a have "ends (still_serves w) (\<lambda>_ _. True) (f w (jq_params rq))" by (simp add: starts_def)
      then have "ends (still_serves w) (\<lambda>e v. echoes E body (fill_response ?resp e v)) (f w (jq_params rq))"
        by (rule ends_mono) (rule echo(1))
      moreover have "onRPCRequest E (initMethod E) w body = settle E ?resp (f w (jq_params rq))"
        using False Some by (cases "f w (jq_params rq)") (simp_all add: onRPCRequest_def Inr Let_def)
      ultimately show ?thesis
        by (simp add: turn_ends_settle)
    qed
  qed
qed

subsection \<open>The group managers as providers of nodes\<close>

text \<open>
  What the interface needs of a group manager: the world it shows has complete services. The
  client's lemma says that every request is then answered, while the nodes stay served.
\<close>

locale node_provider =
  fixes world_of :: "'s \<Rightarrow> world" and good :: "'s \<Rightarrow> bool"
  assumes provides: "good s \<Longrightarrow> rw_getNodeService (world_of s) g n = Some ns \<Longrightarrow> complete_service ns"
begin

lemma provides_all: "good s \<Longrightarrow> all_complete (world_of s)"
  by (auto simp: all_complete_def intro: provides)

lemma request_answered:
  assumes "good s" and "jsoncpp_ok (re_json E)" and "json_lenient (re_json E)"
  shows "turn_ends E (still_serves (world_of s)) (echoes E body)
           (onRPCRequest E (initMethod E) (world_of s) body)"
  by (rule onRPCRequest_ends [OF assms(2,3) provides_all [OF assms(1)]])

end

interpretation manager: node_provider "gm_world A rnd alive" "services_all complete_service"
  for A rnd alive
  by unfold_locales (auto simp: gm_world_def dest: getNodeService_all)

interpretation local_manager: node_provider "lgm_world A chain alive"
  "\<lambda>s. \<forall>ns. lgm_nodeService s = Some ns \<longrightarrow> complete_service ns" for A chain alive
  by unfold_locales (auto simp: lgm_world_def lgm_getNodeService_def split: if_splits)

subsection \<open>Properties of single requests\<close>

definition demo_rpc_request :: "string \<Rightarrow> json list \<Rightarrow> json" where
  "demo_rpc_request m ps = JObject (jassign
     [(''jsonrpc'', JString ''2.0''), (''method'', JString m), (''id'', JInt 7),
      (''params'', JArray ps)] fmempty)"

definition demo_rpc_env :: "(string \<Rightarrow> exn + json option) \<Rightarrow> rpc_env" where
  "demo_rpc_env parse =
     \<lparr>re_json = ref_jsoncpp parse (\<lambda>v. case v of JObject f \<Rightarrow>
          (if ''error'' |\<in>| fmdom f then ''error'' else ''result'') | _ \<Rightarrow> ''''),
      re_hex = ref_hexlib, re_base64 = (\<lambda>s. Inr []), re_hash = (\<lambda>s. Inr []),
      re_transaction = (\<lambda>c b. Inl (StdException ''no transaction'')), re_statusNone = 0,
      re_statusText = (\<lambda>n. ''status''), re_logDesc = (\<lambda>d. d), re_logKV = (\<lambda>k v. '','' @ k @ ''='' @ v), re_junk = 42\<rparr>"

definition demo_rpc :: "string \<Rightarrow> json list \<Rightarrow> rpc_env" where
  "demo_rpc m ps = demo_rpc_env (\<lambda>body. if body = ''body'' then Inr (Some (demo_rpc_request m ps)) else Inr None)"

lemma demo_rpc_ok [simp]: "jsoncpp_ok (re_json (demo_rpc m ps))" "json_lenient (re_json (demo_rpc m ps))"
  by (simp_all add: demo_rpc_def demo_rpc_env_def)

lemma parse_request_object:
  assumes ok: "jsoncpp_ok J" and "fmlookup f ''jsonrpc'' = Some (JString v)"
    and "fmlookup f ''method'' = Some (JString m)"
    and "fmlookup f ''id'' = Some (JInt i)" and "in_i64 i" and "fmlookup f ''params'' = Some (JArray ps)"
  shows "parse_request_root J (JObject f) =
           Inr (Inr \<lparr>jq_jsonrpc = v, jq_method = m, jq_id = i, jq_params = JArray ps\<rparr>)"
  using assms(2-)
  by (simp add: parse_request_root_def required_object [OF ok] optional_object [OF ok] json_ok [OF ok])

lemma demo_rpc_parse: "parseRpcRequestJson (re_json (demo_rpc m ps)) ''body'' =
    Inr \<lparr>jq_jsonrpc = ''2.0'', jq_method = m, jq_id = 7, jq_params = JArray ps\<rparr>"
proof -
  have "jparse (re_json (demo_rpc m ps)) ''body'' = Inr (Some (demo_rpc_request m ps))"
    by (simp add: demo_rpc_def demo_rpc_env_def)
  moreover have "parse_request_root (re_json (demo_rpc m ps)) (demo_rpc_request m ps) =
      Inr (Inr \<lparr>jq_jsonrpc = ''2.0'', jq_method = m, jq_id = 7, jq_params = JArray ps\<rparr>)"
    unfolding demo_rpc_request_def
    by (rule parse_request_object) (simp_all add: in_i64_def)
  ultimately show ?thesis
    by (simp add: parseRpcRequestJson_def)
qed

text \<open>
  A request to an interface whose group manager has only heard of groups through
  announcements handled with \<open>buildNodeService\<close> comes to a response, whatever the bytes of the
  request are and whatever method it names. Each call is answered
  within its contract while the nodes stay served; no null pointer is met and no exception
  escapes from a callback. The text sent is that of a response with the request's version and
  id, if it had one.
\<close>

theorem served_requests_answered:
  assumes "run (gm_step A) (new_gm chain start) es s"
    and "\<And>gi build. Announce gi build \<in> set es \<Longrightarrow> build = buildNodeService D"
    and "jsoncpp_ok (re_json E)" and "json_lenient (re_json E)"
  shows "turn_ends E (still_serves (gm_world A rnd alive s)) (echoes E body)
           (onRPCRequest E (initMethod E) (gm_world A rnd alive s) body)"
  using factory_services [OF assms(1,2)] assms(3,4) by (rule manager.request_answered)

lemma served_requests_answered_witness:
  "turn_ends (demo_rpc ''getBlockNumber'' [JString ''group0'', JString ''node0''])
     (still_serves (gm_world ref_group_api 0 True demo_served))
     (\<lambda>r. jr_jsonrpc r = ''2.0'' \<and> jr_id r = 7)
     (onRPCRequest (demo_rpc ''getBlockNumber'' [JString ''group0'', JString ''node0''])
        (initMethod (demo_rpc ''getBlockNumber'' [JString ''group0'', JString ''node0'']))
        (gm_world ref_group_api 0 True demo_served) ''body'')"
proof -
  let ?E = "demo_rpc ''getBlockNumber'' [JString ''group0'', JString ''node0'']"
  have "echoes ?E ''body'' = (\<lambda>r. jr_jsonrpc r = ''2.0'' \<and> jr_id r = 7)"
    by (simp add: echoes_def demo_rpc_parse fun_eq_iff)
  then show ?thesis
    using served_requests_answered [OF demo_served_run, where D = demo_desc and E = ?E and body = "''body''" and rnd = 0 and alive = True] by simp
qed

text \<open>
  The same for the interface of a single node, whose group manager was handed a node
  service: it must be complete.
\<close>

theorem local_requests_answered:
  assumes "\<And>ns. lgm_nodeService s = Some ns \<Longrightarrow> complete_service ns"
    and "jsoncpp_ok (re_json E)" and "json_lenient (re_json E)"
  shows "turn_ends E (still_serves (lgm_world A chain alive s)) (echoes E body)
           (onRPCRequest E (initMethod E) (lgm_world A chain alive s) body)"
  using assms by (intro local_manager.request_answered) auto

lemma local_requests_answered_witness:
  "turn_ends (demo_rpc ''getCode'' [JString ''group0''])
     (still_serves (lgm_world ref_group_api ''chain0'' True
        \<lparr>lgm_nodeService = Some demo_nodeService, lgm_groupInfo = demo_nodeGroup\<rparr>))
     (echoes (demo_rpc ''getCode'' [JString ''group0'']) ''body'')
     (onRPCRequest (demo_rpc ''getCode'' [JString ''group0''])
        (initMethod (demo_rpc ''getCode'' [JString ''group0'']))
        (lgm_world ref_group_api ''chain0'' True
          \<lparr>lgm_nodeService = Some demo_nodeService, lgm_groupInfo = demo_nodeGroup\<rparr>) ''body'')"
  by (rule local_requests_answered)
    (simp_all add: complete_service_def demo_nodeService_value)

text \<open>What the sender is handed when a request is refused.\<close>

definition refusal :: "rpc_env \<Rightarrow> string \<Rightarrow> int \<Rightarrow> int \<Rightarrow> string \<Rightarrow> turn" where
  "refusal E version i code msg =
     Reply (toStringResponse (re_json E)
       \<lparr>jr_jsonrpc = version, jr_id = i, jr_code = code, jr_message = msg, jr_result = JNull\<rparr>)"

lemma error_reply_refusal:
  "error_reply E (new_response j) x = refusal E '''' j (catch_code x) (what x)"
  "error_reply E ((new_response j)\<lparr>jr_jsonrpc := v, jr_id := i\<rparr>) x = refusal E v i (catch_code x) (what x)"
  by (simp_all add: error_reply_def refusal_def new_response_def)

lemma onRPCRequest_unparsed:
  "parseRpcRequestJson (re_json E) body = Inl x \<Longrightarrow>
     onRPCRequest E M w body = refusal E '''' (re_junk E) (catch_code x) (what x)"
  by (simp add: onRPCRequest_def error_reply_refusal)

lemma onRPCRequest_parsed:
  assumes "parseRpcRequestJson (re_json E) body =
      Inr \<lparr>jq_jsonrpc = v, jq_method = m, jq_id = i, jq_params = ps\<rparr>"
  shows "M m = None \<Longrightarrow> onRPCRequest E M w body = refusal E v i (rpc_code MethodNotFound)
           ''The method does not exist/is not available.''"
    and "M m = Some f \<Longrightarrow> f w ps = Throw x \<Longrightarrow>
           onRPCRequest E M w body = refusal E v i (catch_code x) (what x)"
  by (simp_all add: onRPCRequest_def assms error_reply_refusal rpc_throw_def Let_def)

text \<open>
  C14: which error a refused request is answered with. Text that is no JSON, and an object
  without \<open>params\<close> or with \<open>params\<close> that are no array, are an invalid request (\<open>-32600\<close>); a
  member of the wrong kind is a parse error (\<open>-32700\<close>). Both lose the request's id: the answer
  carries whatever the uninitialised field held. An unknown method is \<open>-32601\<close>, and a method
  that throws is answered with the code of the exception, or \<open>-32600\<close> for any exception but
  the interface's own; these carry the request's version and id, and the text of the exception up
  to the first null character in it (a group or node name of the request may hold one).
\<close>

theorem request_error_codes:
  assumes ok: "jsoncpp_ok (re_json E)"
  shows "(jparse (re_json E) body = Inr None \<longrightarrow>
            onRPCRequest E M w body = refusal E '''' (re_junk E) (-32600)
              ''The JSON sent is not a valid Request object.'') \<and>
         (\<forall>f x v. jparse (re_json E) body = Inr (Some (JObject f)) \<and>
            fmlookup f ''jsonrpc'' = Some v \<and> jasString (re_json E) v = Inl x \<longrightarrow>
            onRPCRequest E M w body = refusal E '''' (re_junk E) (-32700)
              ''Invalid JSON was received by the server.'') \<and>
         (\<forall>f v m i. jparse (re_json E) body = Inr (Some (JObject f)) \<and>
            fmlookup f ''jsonrpc'' = Some (JString v) \<and> fmlookup f ''method'' = Some (JString m) \<and>
            fmlookup f ''id'' = Some (JInt i) \<and> in_i64 i \<longrightarrow>
            (case fmlookup f ''params'' of
               Some (JArray ps) \<Rightarrow>
                 (case M m of
                    None \<Rightarrow> onRPCRequest E M w body = refusal E v i (-32601)
                      ''The method does not exist/is not available.''
                  | Some g \<Rightarrow>
                      (\<forall>c msg. g w (JArray ps) = Throw (JsonRpcException c msg) \<longrightarrow>
                         onRPCRequest E M w body = refusal E v i c (c_str msg)) \<and>
                      (\<forall>msg. g w (JArray ps) = Throw (StdException msg) \<longrightarrow>
                         onRPCRequest E M w body = refusal E v i (-32600) msg))
             | _ \<Rightarrow> onRPCRequest E M w body = refusal E '''' (re_junk E) (-32600)
                      ''The JSON sent is not a valid Request object.''))"
proof (intro conjI allI impI)
  assume "jparse (re_json E) body = Inr None"
  then have "parseRpcRequestJson (re_json E) body =
      Inl (rpc_throw InvalidRequest ''The JSON sent is not a valid Request object.'')"
    by (simp add: parseRpcRequestJson_def)
  from onRPCRequest_unparsed [OF this]
  show "onRPCRequest E M w body = refusal E '''' (re_junk E) (-32600)
              ''The JSON sent is not a valid Request object.''"
    by (simp add: rpc_throw_def)
next
  fix f x v
  assume "jparse (re_json E) body = Inr (Some (JObject f)) \<and>
            fmlookup f ''jsonrpc'' = Some v \<and> jasString (re_json E) v = Inl x"
  then have "parseRpcRequestJson (re_json E) body =
      Inl (rpc_throw ParseError ''Invalid JSON was received by the server.'')"
    by (simp add: parseRpcRequestJson_def parse_request_root_def required_object [OF ok])
  from onRPCRequest_unparsed [OF this]
  show "onRPCRequest E M w body = refusal E '''' (re_junk E) (-32700)
              ''Invalid JSON was received by the server.''"
    by (simp add: rpc_throw_def)
next
  fix f v m i
  assume f: "jparse (re_json E) body = Inr (Some (JObject f)) \<and>
            fmlookup f ''jsonrpc'' = Some (JString v) \<and> fmlookup f ''method'' = Some (JString m) \<and>
            fmlookup f ''id'' = Some (JInt i) \<and> in_i64 i"
  have bad: "onRPCRequest E M w body = refusal E '''' (re_junk E) (-32600)
                      ''The JSON sent is not a valid Request object.''"
    if "\<And>ps. fmlookup f ''params'' \<noteq> Some (JArray ps)"
  proof -
    have "parseRpcRequestJson (re_json E) body =
        Inl (rpc_throw InvalidRequest ''The JSON sent is not a valid Request object.'')"
    proof (cases "fmlookup f ''params''")
      case None
      with f show ?thesis
        by (simp add: parseRpcRequestJson_def parse_request_root_def required_object [OF ok]
            optional_object [OF ok] json_ok [OF ok])
    next
      case (Some p)
      with that have "\<not> isArray p" by (cases p) (auto simp: isArray_def)
      with f Some show ?thesis
        by (simp add: parseRpcRequestJson_def parse_request_root_def required_object [OF ok]
            optional_object [OF ok] json_ok [OF ok])
    qed
    from onRPCRequest_unparsed [OF this] show ?thesis
      by (simp add: rpc_throw_def)
  qed
  have good: "parseRpcRequestJson (re_json E) body =
      Inr \<lparr>jq_jsonrpc = v, jq_method = m, jq_id = i, jq_params = JArray ps\<rparr>"
    if "fmlookup f ''params'' = Some (JArray ps)" for ps
    using parse_request_object [OF ok, of f v m i ps] f that by (simp add: parseRpcRequestJson_def)
  show "case fmlookup f ''params'' of
               Some (JArray ps) \<Rightarrow>
                 (case M m of
                    None \<Rightarrow> onRPCRequest E M w body = refusal E v i (-32601)
                      ''The method does not exist/is not available.''
                  | Some g \<Rightarrow>
                      (\<forall>c msg. g w (JArray ps) = Throw (JsonRpcException c msg) \<longrightarrow>
                         onRPCRequest E M w body = refusal E v i c (c_str msg)) \<and>
                      (\<forall>msg. g w (JArray ps) = Throw (StdException msg) \<longrightarrow>
                         onRPCRequest E M w body = refusal E v i (-32600) msg))
             | _ \<Rightarrow> onRPCRequest E M w body = refusal E '''' (re_junk E) (-32600)
                      ''The JSON sent is not a valid Request object.''"
  proof (cases "\<exists>ps. fmlookup f ''params'' = Some (JArray ps)")
    case True
    then obtain ps where ps: "fmlookup f ''params'' = Some (JArray ps)" by blast
    note parsed = onRPCRequest_parsed [OF good [OF ps]]
    show ?thesis
    proof (cases "M m")
      case None
      with parsed(1) [of M w] show ?thesis by (simp add: ps)
    next
      case (Some g)
      with parsed(2) [of M g w] show ?thesis by (simp add: ps)
    qed
  next
    case False
    then show ?thesis
      using bad by (auto split: option.split json.split)
  qed
qed

lemma request_error_codes_witness:
  "onRPCRequest (demo_rpc ''noSuchMethod'' []) (initMethod (demo_rpc ''noSuchMethod'' []))
     (gm_world ref_group_api 0 True demo_served) ''body'' =
     refusal (demo_rpc ''noSuchMethod'' []) ''2.0'' 7 (-32601)
       ''The method does not exist/is not available.'' \<and>
   onRPCRequest (demo_rpc ''noSuchMethod'' []) (initMethod (demo_rpc ''noSuchMethod'' []))
     (gm_world ref_group_api 0 True demo_served) ''no json'' =
     refusal (demo_rpc ''noSuchMethod'' []) '''' 42 (-32600)
       ''The JSON sent is not a valid Request object.''"
proof
  define f where "f = jassign
     [(''jsonrpc'', JString ''2.0''), (''method'', JString ''noSuchMethod''), (''id'', JInt 7),
      (''params'', JArray [])] fmempty"
  let ?E = "demo_rpc ''noSuchMethod'' []" and ?w = "gm_world ref_group_api 0 True demo_served"
  note th = request_error_codes [OF demo_rpc_ok(1) [of "''noSuchMethod''" "[]"],
      where M = "initMethod ?E" and w = ?w]
  have p: "jparse (re_json ?E) ''body'' = Inr (Some (JObject f))"
    by (simp add: demo_rpc_def demo_rpc_env_def demo_rpc_request_def f_def)
  have l: "fmlookup f ''jsonrpc'' = Some (JString ''2.0'')" "fmlookup f ''method'' = Some (JString ''noSuchMethod'')"
    "fmlookup f ''id'' = Some (JInt 7)" "fmlookup f ''params'' = Some (JArray [])" "in_i64 7"
    by (simp_all add: f_def in_i64_def)
  have n: "initMethod ?E ''noSuchMethod'' = None" by (simp add: initMethod_def)
  from th [of "''body''", THEN conjunct2, THEN conjunct2, rule_format, OF conjI, OF p conjI,
      OF l(1) conjI, OF l(2) conjI, OF l(3,5)]
  show "onRPCRequest ?E (initMethod ?E) ?w ''body'' =
     refusal ?E ''2.0'' 7 (-32601) ''The method does not exist/is not available.''"
    by (simp add: l(4) n)
  have "jparse (re_json ?E) ''no json'' = Inr None" and j: "re_junk ?E = 42"
    by (simp_all add: demo_rpc_def demo_rpc_env_def)
  from th [of "''no json''", THEN conjunct1, rule_format, OF this(1)]
  show "onRPCRequest ?E (initMethod ?E) ?w ''no json'' =
     refusal ?E '''' 42 (-32600) ''The JSON sent is not a valid Request object.''"
    by (simp add: j)
qed

subsection \<open>Runs: every request is accounted for\<close>

definition sent_to :: "nat \<Rightarrow> json_rpc \<Rightarrow> nat" where
  "sent_to n s = length (filter (\<lambda>p. fst p = n) (jp_sent s))"

definition waiting_for :: "nat \<Rightarrow> json_rpc \<Rightarrow> nat" where
  "waiting_for n s = length (filter (\<lambda>p. fst p = n) (jp_waiting s))"

definition lost_of :: "nat \<Rightarrow> json_rpc \<Rightarrow> nat" where
  "lost_of n s = length (filter (\<lambda>p. fst p = n) (jp_lost s))"

definition rpc_balance :: "nat \<Rightarrow> json_rpc \<Rightarrow> nat" where
  "rpc_balance n s = sent_to n s + waiting_for n s + lost_of n s"

fun is_request :: "nat \<Rightarrow> rpc_event \<Rightarrow> bool" where
  "is_request n (RpcRequest k w body) \<longleftrightarrow> k = n"
| "is_request n (CallAnswered i w e r) \<longleftrightarrow> False"
| "is_request n (SetClientID c) \<longleftrightarrow> False"
| "is_request n (SetNodeInfo ni) \<longleftrightarrow> False"

lemma rpc_balance_take_turn:
  "rpc_balance n (take_turn k t s) = rpc_balance n s + (if k = n then 1 else 0)"
  by (cases t) (simp_all add: rpc_balance_def take_turn_def sent_to_def waiting_for_def lost_of_def)

lemma length_filter_remove:
  assumes "i < length xs"
  shows "length (filter P (take i xs @ drop (Suc i) xs)) + (if P (xs ! i) then 1 else 0) = length (filter P xs)"
proof -
  have "filter P xs = filter P (take i xs @ xs ! i # drop (Suc i) xs)"
    using assms by (simp add: id_take_nth_drop [symmetric])
  then show ?thesis by simp
qed

text \<open>What the answer to a call does, spelled out.\<close>

lemma answer_call_Some:
  assumes "answer_call E i w e r s = Some t"
  obtains n resp q k p where "i < length (jp_waiting s)" "jp_waiting s ! i = (n, resp, q, k)"
    "feed (k w e) r = Some p"
    "t = take_turn n (settle E resp p)
           (s\<lparr>jp_waiting := take i (jp_waiting s) @ drop (Suc i) (jp_waiting s)\<rparr>)"
proof -
  have i: "i < length (jp_waiting s)" using assms by (simp add: answer_call_def split: if_splits)
  obtain n resp q k where c: "jp_waiting s ! i = (n, resp, q, k)" by (metis prod_cases4)
  with assms i obtain p where p: "feed (k w e) r = Some p"
    by (cases "feed (k w e) r") (simp_all add: answer_call_def)
  from assms i c p have "t = take_turn n (settle E resp p)
           (s\<lparr>jp_waiting := take i (jp_waiting s) @ drop (Suc i) (jp_waiting s)\<rparr>)"
    by (simp add: answer_call_def)
  with that i c p show ?thesis by blast
qed

lemma rpc_balance_answer:
  assumes "answer_call E i w e r s = Some t" shows "rpc_balance n t = rpc_balance n s"
  using assms
proof (rule answer_call_Some)
  fix m resp q k p
  assume i: "i < length (jp_waiting s)" and c: "jp_waiting s ! i = (m, resp, q, k)"
    and t: "t = take_turn m (settle E resp p)
           (s\<lparr>jp_waiting := take i (jp_waiting s) @ drop (Suc i) (jp_waiting s)\<rparr>)"
  show ?thesis
    using length_filter_remove [OF i, of "\<lambda>p. fst p = n"]
    unfolding t rpc_balance_take_turn
    by (cases "m = n") (simp_all add: rpc_balance_def sent_to_def waiting_for_def lost_of_def c)
qed

lemma rpc_balance_setters [simp]:
  "rpc_balance n (setClientID_rpc c s) = rpc_balance n s" "rpc_balance n (setNodeInfo ni s) = rpc_balance n s"
  by (simp_all add: setClientID_rpc_def setNodeInfo_def rpc_balance_def sent_to_def waiting_for_def lost_of_def)

interpretation requests: history_invariant "rpc_step E" "new_json_rpc E ni"
  "\<lambda>es s. \<forall>n. rpc_balance n s = length (filter (is_request n) es)" for E ni
proof
  show "\<forall>n. rpc_balance n (new_json_rpc E ni) = length (filter (is_request n) [])"
    by (simp add: rpc_balance_def sent_to_def waiting_for_def lost_of_def new_json_rpc_def)
  fix es s ev t
  assume inv: "\<forall>n. rpc_balance n s = length (filter (is_request n) es)" and "rpc_step E s ev t"
  from this(2) show "\<forall>n. rpc_balance n t = length (filter (is_request n) (es @ [ev]))"
    by (cases rule: rpc_step.cases)
      (use inv in \<open>auto simp: rpc_balance_take_turn rpc_balance_answer\<close>)
qed

text \<open>
  The runs in which the surroundings keep their part: the nodes \<open>S\<close> stay served, by complete
  services that may change, a request finds no others, the object stays alive, and calls are
  answered within their contract.
\<close>

definition kept_world :: "(string \<times> string) set \<Rightarrow> world \<Rightarrow> bool" where
  "kept_world S w \<longleftrightarrow> rw_alive w \<and>
     (\<forall>(g, n) \<in> S. \<exists>ns. rw_getNodeService w g n = Some ns \<and> complete_service ns)"

definition request_world :: "(string \<times> string) set \<Rightarrow> world \<Rightarrow> bool" where
  "request_world S w \<longleftrightarrow> all_complete w \<and> {(g, n). rw_getNodeService w g n \<noteq> None} \<subseteq> S"

definition kept_step :: "rpc_env \<Rightarrow> (string \<times> string) set \<Rightarrow> json_rpc \<Rightarrow> rpc_event \<Rightarrow> json_rpc \<Rightarrow> bool" where
  "kept_step E S s ev t \<longleftrightarrow>
     rpc_step E s ev t \<and>
     (case ev of
        RpcRequest n w body \<Rightarrow> request_world S w
      | CallAnswered i w e r \<Rightarrow> kept_world S w \<and> answer_fits (fst (snd (snd (jp_waiting s ! i)))) e r
      | _ \<Rightarrow> True)"

lemma kept_still_serves: "request_world S w \<Longrightarrow> kept_world S w' \<Longrightarrow> still_serves w w'"
  by (fastforce simp: request_world_def kept_world_def still_serves_def complete_service_def)

definition kept_inv :: "rpc_env \<Rightarrow> (string \<times> string) set \<Rightarrow> json_rpc \<Rightarrow> bool" where
  "kept_inv E S s \<longleftrightarrow> jp_methods s = initMethod E \<and> jp_lost s = [] \<and>
     (\<forall>(n, resp, q, k) \<in> set (jp_waiting s). turn_ends E (kept_world S) (\<lambda>_. True) (Waiting resp q k))"

lemma kept_take_turn:
  assumes "kept_inv E S s" and "turn_ends E (kept_world S) (\<lambda>_. True) t"
  shows "kept_inv E S (take_turn n t s)"
  using assms by (cases t) (auto simp: kept_inv_def take_turn_def)

lemma turn_ends_weaken:
  "turn_ends E W R t \<Longrightarrow> (\<And>w. W' w \<Longrightarrow> W w) \<Longrightarrow> (\<And>r. R r \<Longrightarrow> R' r) \<Longrightarrow> turn_ends E W' R' t"
  by (cases t) (auto intro: ends_weaken)

lemma kept_inv_step:
  assumes ok: "jsoncpp_ok (re_json E)" "json_lenient (re_json E)"
    and inv: "kept_inv E S s" and st: "kept_step E S s ev t"
  shows "kept_inv E S t"
proof -
  from st have "rpc_step E s ev t" by (simp add: kept_step_def)
  then show ?thesis
  proof (cases rule: rpc_step.cases)
    case (rpc_request n w body)
    with st have w: "request_world S w" by (simp add: kept_step_def)
    then have "all_complete w" by (simp add: request_world_def)
    from turn_ends_weaken [OF onRPCRequest_ends [OF ok this] kept_still_serves [OF w]]
    have "turn_ends E (kept_world S) (\<lambda>_. True) (onRPCRequest E (initMethod E) w body)" by simp
    moreover have "jp_methods s = initMethod E" using inv by (simp add: kept_inv_def)
    ultimately show ?thesis
      using kept_take_turn [OF inv] rpc_request by simp
  next
    case (rpc_answer i w e r)
    from rpc_answer(2) show ?thesis
    proof (rule answer_call_Some)
      fix n resp q k p
      assume i: "i < length (jp_waiting s)" and c: "jp_waiting s ! i = (n, resp, q, k)"
        and p: "feed (k w e) r = Some p"
        and t: "t = take_turn n (settle E resp p)
           (s\<lparr>jp_waiting := take i (jp_waiting s) @ drop (Suc i) (jp_waiting s)\<rparr>)"
      from st rpc_answer c have w: "kept_world S w" and a: "answer_fits q e r"
        by (simp_all add: kept_step_def)
      have "(n, resp, q, k) \<in> set (jp_waiting s)" using i c by (metis nth_mem)
      with inv have "ends (kept_world S) (\<lambda>e v. True) (Ask q k)"
        by (auto simp: kept_inv_def)
      then obtain p' where "feed (k w e) r = Some p'" "ends (kept_world S) (\<lambda>_ _. True) p'"
        unfolding ends_Ask using w a by blast
      with p have "turn_ends E (kept_world S) (\<lambda>_. True) (settle E resp p)"
        by (intro turn_ends_settle) simp
      moreover have "kept_inv E S (s\<lparr>jp_waiting := take i (jp_waiting s) @ drop (Suc i) (jp_waiting s)\<rparr>)"
        using inv by (auto simp: kept_inv_def dest: in_set_takeD in_set_dropD)
      ultimately show ?thesis
        unfolding t by (rule kept_take_turn [rotated])
    qed
  qed (use inv in \<open>simp_all add: kept_inv_def setClientID_rpc_def setNodeInfo_def\<close>)
qed

interpretation kept: step_invariant "kept_step E S" "new_json_rpc E ni"
  "\<lambda>s. jsoncpp_ok (re_json E) \<and> json_lenient (re_json E) \<longrightarrow> kept_inv E S s" for E S ni
proof
  show "jsoncpp_ok (re_json E) \<and> json_lenient (re_json E) \<longrightarrow> kept_inv E S (new_json_rpc E ni)"
    by (simp add: kept_inv_def new_json_rpc_def)
qed (use kept_inv_step in blast)

text \<open>
  Every request is accounted for exactly once. After any run the texts sent for a tag,
  its calls in flight and its losses are together as many as the requests with that tag: no
  request is answered twice, and none vanishes without a trace.
\<close>

theorem rpc_exactly_once:
  assumes "run (rpc_step E) (new_json_rpc E ni) es s"
  shows "sent_to n s + waiting_for n s + lost_of n s = length (filter (is_request n) es)"
  using requests.run_hinv [OF assms] by (simp add: rpc_balance_def)

text \<open>
  C5: nothing is lost while the surroundings keep their part: a fixed set of nodes stays
  served, by complete services that may be replaced, requests find no other nodes, the object
  stays alive and calls are answered within their contract (for a submission to a transaction
  pool: with an error or a receipt). Then every request, \<open>sendTransaction\<close> included, was
  answered with one text or has a call in flight, and any answer within the contract to such
  a call can be taken.
\<close>

theorem rpc_nothing_lost:
  assumes "run (kept_step E S) (new_json_rpc E ni) es s"
    and ok: "jsoncpp_ok (re_json E)" "json_lenient (re_json E)"
  shows "jp_lost s = [] \<and> sent_to n s + waiting_for n s = length (filter (is_request n) es) \<and>
         (\<forall>i w e r. i < length (jp_waiting s) \<and> kept_world S w \<and>
            answer_fits (fst (snd (snd (jp_waiting s ! i)))) e r \<longrightarrow>
            (\<exists>t. kept_step E S s (CallAnswered i w e r) t))"
proof (intro conjI allI impI)
  have inv: "kept_inv E S s"
    using kept.run_inv [OF assms(1)] ok by blast
  then show lost: "jp_lost s = []" by (simp add: kept_inv_def)
  have "run (rpc_step E) (new_json_rpc E ni) es s"
    using assms(1) by (rule run_mono) (simp add: kept_step_def)
  from requests.run_hinv [OF this] lost
  show "sent_to n s + waiting_for n s = length (filter (is_request n) es)"
    by (simp add: rpc_balance_def lost_of_def)
  fix i and w :: world and e r
  assume a: "i < length (jp_waiting s) \<and> kept_world S w \<and>
            answer_fits (fst (snd (snd (jp_waiting s ! i)))) e r"
  obtain m resp q k where c: "jp_waiting s ! i = (m, resp, q, k)" by (metis prod_cases4)
  with a have "(m, resp, q, k) \<in> set (jp_waiting s)" by (metis nth_mem)
  with inv have "ends (kept_world S) (\<lambda>e v. True) (Ask q k)" by (auto simp: kept_inv_def)
  moreover have "kept_world S w" "answer_fits q e r"
    using a c by simp_all
  ultimately obtain p where "feed (k w e) r = Some p"
    unfolding ends_Ask by blast
  with a c have "\<exists>t. answer_call E i w e r s = Some t" by (simp add: answer_call_def)
  with a show "\<exists>t. kept_step E S s (CallAnswered i w e r) t"
    by (auto simp: kept_step_def intro: rpc_step.rpc_answer)
qed

definition demo_node_info :: node_info where
  "demo_node_info = \<lparr>nf_version = '''', nf_supportedVersion = '''', nf_nodeID = '''', nf_chainID = '''',
     nf_groupID = '''', nf_agency = '''', nf_buildTime = '''', nf_gitCommitHash = '''', nf_isWasm = False,
     nf_isSM = False\<rparr>"

definition demo_call :: rpc_env where
  "demo_call = demo_rpc ''getBlockNumber'' [JString ''group0'', JString ''node0'']"

definition demo_world :: world where
  "demo_world = gm_world ref_group_api 0 True demo_served"

definition demo_waiting :: json_rpc where
  "demo_waiting = take_turn 3 (onRPCRequest demo_call (initMethod demo_call) demo_world ''body'')
     (new_json_rpc demo_call demo_node_info)"

definition demo_resp :: jsonResponse where
  "demo_resp = (new_response 42)\<lparr>jr_jsonrpc := ''2.0'', jr_id := 7\<rparr>"

lemma demo_call_ok [simp]: "jsoncpp_ok (re_json demo_call)" "json_lenient (re_json demo_call)"
  by (simp_all add: demo_call_def)

lemma demo_services: "rw_getNodeService demo_world g n = Some ns \<Longrightarrow> complete_service ns"
proof -
  have "services_all complete_service demo_served"
    by (rule factory_services [OF demo_served_run]) auto
  then show "rw_getNodeService demo_world g n = Some ns \<Longrightarrow> complete_service ns"
    unfolding demo_world_def by (rule manager.provides)
qed

lemma demo_ask:
  "initMethod demo_call ''getBlockNumber'' = Some (getBlockNumberI demo_call)"
  "getBlockNumberI demo_call demo_world (JArray [JString ''group0'', JString ''node0'']) =
     Ask (AsyncGetBlockNumber ''ledger.obj'') (\<lambda>w e. OnNumber (\<lambda>n. Respond e (JInt n)))"
proof -
  show "initMethod demo_call ''getBlockNumber'' = Some (getBlockNumberI demo_call)"
    by (simp add: initMethod_def)
  have a: "arg_string demo_call (JArray [JString ''group0'', JString ''node0'']) 0 = Inr ''group0''"
    "arg_string demo_call (JArray [JString ''group0'', JString ''node0'']) 1 = Inr ''node0''"
    by (simp_all add: arg_string_def json_ok [OF demo_call_ok(1)])
  have ns: "rw_getNodeService demo_world ''group0'' ''node0'' = Some demo_nodeService"
    by (simp add: demo_world_def gm_world_def demo_served_get)
  show "getBlockNumberI demo_call demo_world (JArray [JString ''group0'', JString ''node0'']) =
     Ask (AsyncGetBlockNumber ''ledger.obj'') (\<lambda>w e. OnNumber (\<lambda>n. Respond e (JInt n)))"
    using with_client_found [where field = ns_ledger, OF ns]
    by (simp add: getBlockNumberI_def with_node_def a [simplified] getBlockNumber_def demo_nodeService_value)
qed

lemma demo_turn:
  "onRPCRequest demo_call (initMethod demo_call) demo_world ''body'' =
     Waiting demo_resp (AsyncGetBlockNumber ''ledger.obj'') (\<lambda>w e. OnNumber (\<lambda>n. Respond e (JInt n)))"
proof -
  have p: "parseRpcRequestJson (re_json demo_call) ''body'' = Inr \<lparr>jq_jsonrpc = ''2.0'',
      jq_method = ''getBlockNumber'', jq_id = 7, jq_params = JArray [JString ''group0'', JString ''node0'']\<rparr>"
    by (simp add: demo_call_def demo_rpc_parse)
  have "re_junk demo_call = 42" by (simp add: demo_call_def demo_rpc_def demo_rpc_env_def)
  then show ?thesis
    by (simp add: onRPCRequest_def p demo_ask Let_def settle_def demo_resp_def)
qed

lemma demo_waiting_value:
  "jp_waiting demo_waiting = [(3, demo_resp, AsyncGetBlockNumber ''ledger.obj'',
     \<lambda>w e. OnNumber (\<lambda>n. Respond e (JInt n)))]"
  by (simp add: demo_waiting_def demo_turn take_turn_def new_json_rpc_def)

lemma demo_waiting_step:
  "rpc_step demo_call (new_json_rpc demo_call demo_node_info) (RpcRequest 3 demo_world ''body'') demo_waiting"
  using rpc_step.rpc_request [of demo_call "new_json_rpc demo_call demo_node_info" 3 demo_world "''body''"]
  by (simp add: demo_waiting_def new_json_rpc_def)

lemma demo_waiting_run:
  "run (rpc_step demo_call) (new_json_rpc demo_call demo_node_info) [RpcRequest 3 demo_world ''body''] demo_waiting"
  by (rule run_Cons, rule demo_waiting_step, rule run_nil)

lemma rpc_exactly_once_witness:
  "sent_to 3 demo_waiting + waiting_for 3 demo_waiting + lost_of 3 demo_waiting = 1"
  using rpc_exactly_once [OF demo_waiting_run, of 3] by simp

lemma rpc_nothing_lost_witness:
  "jp_lost demo_waiting = [] \<and>
   (\<exists>t. kept_step demo_call {(g, n). rw_getNodeService demo_world g n \<noteq> None} demo_waiting
          (CallAnswered 0 demo_world None (Number 5)) t)"
proof -
  let ?S = "{(g, n). rw_getNodeService demo_world g n \<noteq> None}"
  have w: "request_world ?S demo_world" "kept_world ?S demo_world"
    using demo_services by (auto simp: request_world_def all_complete_def kept_world_def)
      (simp add: demo_world_def gm_world_def)
  then have "run (kept_step demo_call ?S)
      (new_json_rpc demo_call demo_node_info) [RpcRequest 3 demo_world ''body''] demo_waiting"
    by (intro run_Cons [where t = demo_waiting] run_nil) (simp add: kept_step_def demo_waiting_step)
  from rpc_nothing_lost [OF this demo_call_ok, of 3] w(2) show ?thesis
    by (simp add: demo_waiting_value answer_fits_simps del: split_paired_Ex)
qed

end
