(* ===== verification/JsonRpcMethods.thy ===== *)
theory JsonRpcMethods
  imports JsonRpcProps
begin

text \<open>
  Single methods of the JSON-RPC interface, followed to the text of their response: codes and
  round trip of a response, errors of the calls, \<open>sendTransaction\<close>, \<open>getTransactionReceipt\<close>
  and \<open>getBlockByHash\<close>. They run in the environment and world of \<open>JsonRpcProps\<close>.
\<close>

subsection \<open>What a response says\<close>

lemma wrap_zero:
  fixes c h M :: int
  assumes "0 \<le> h" and "h < M" shows "(c + h) mod M - h = 0 \<longleftrightarrow> c mod M = 0"
proof -
  have "(c + h) mod M = h mod M \<longleftrightarrow> M dvd c" by (simp add: mod_eq_dvd_iff)
  moreover have "h mod M = h" using assms by (rule mod_pos_pos_trivial)
  ultimately show ?thesis by (simp add: dvd_eq_mod_eq_0)
qed

text \<open>
  C28: the error code of a backend is 64 bits wide and is narrowed to the 32 bits of the
  response. The text has an \<open>error\<close> member exactly when the low 32 bits of the code are not
  all zero; otherwise a failed call reads as a success with a null result.
\<close>

theorem response_code_bounds:
  assumes "er_code err \<noteq> 0" and "jr_result resp = JNull"
  shows "in_i32 (jr_code (fill_response resp (Some err) v)) \<and>
         (\<exists>f. toJsonResponse (fill_response resp (Some err) v) = JObject f \<and>
            (if er_code err mod 2 ^ 32 = 0
             then fmlookup f ''error'' = None \<and> fmlookup f ''result'' = Some JNull
             else fmlookup f ''result'' = None \<and>
                  (\<exists>g. fmlookup f ''error'' = Some (JObject g) \<and>
                     fmlookup g ''code'' = Some (JInt (i32 (er_code err))) \<and>
                     fmlookup g ''message'' = Some (JString (er_msg err)))))"
proof -
  have r: "in_i32 (i32 c)" for c by (simp add: i32_def in_i32_def)
  have z: "i32 c = 0 \<longleftrightarrow> c mod 2 ^ 32 = 0" for c
    unfolding i32_def by (rule wrap_zero) simp_all
  show ?thesis
    using assms by (auto simp: fill_response_def toJsonResponse_object r z)
qed

lemma response_code_bounds_witness:
  "fmlookup (case toJsonResponse (fill_response (new_response 1) (Some \<lparr>er_code = 2 ^ 32, er_msg = ''lost''\<rparr>) JNull)
     of JObject f \<Rightarrow> f | _ \<Rightarrow> fmempty) ''result'' = Some JNull"
  using response_code_bounds [of "\<lparr>er_code = 2 ^ 32, er_msg = ''lost''\<rparr>" "new_response 1" JNull]
  by (auto simp: new_response_def)

text \<open>
  C27: the client-side parser reads back what the server prints. A success gives version, id
  and result and leaves the error fields of the object alone; an error gives version, id,
  code and message and leaves the result alone.
\<close>

theorem rpc_response_roundtrip:
  assumes ok: "jsoncpp_ok J" and "in_i64 (jr_id r)" and "in_i32 (jr_code r)"
    and p: "jparse J (jwrite J (toJsonResponse r)) = Inr (Some (toJsonResponse r))"
  shows "parseRpcResponseJson J (toStringResponse J r) r0 =
           (None, if jr_code r = 0
                  then r0\<lparr>jr_jsonrpc := jr_jsonrpc r, jr_id := jr_id r, jr_result := jr_result r\<rparr>
                  else r0\<lparr>jr_jsonrpc := jr_jsonrpc r, jr_id := jr_id r, jr_code := jr_code r,
                          jr_message := jr_message r\<rparr>)"
proof -
  have c: "in_i64 (jr_code r)" using assms(3) by (simp add: in_i64_def in_i32_def)
  note reads = parse_response_root_def required_object [OF ok] optional_object [OF ok]
    ok_asString [OF ok] ok_asInt64 [OF ok] ok_member [OF ok]
  show ?thesis
  proof (cases "jr_code r = 0")
    case True
    then obtain f where f: "toJsonResponse r = JObject f" and l: "fmlookup f ''jsonrpc'' = Some (JString (jr_jsonrpc r))"
      "fmlookup f ''id'' = Some (JInt (jr_id r))" "fmlookup f ''error'' = None"
      "fmlookup f ''result'' = Some (jr_result r)"
      by (simp add: toJsonResponse_object)
    have "stmts (parse_response_root J (JObject f)) r0 =
        (None, r0\<lparr>jr_jsonrpc := jr_jsonrpc r, jr_id := jr_id r, jr_result := jr_result r\<rparr>)"
      by (simp add: reads l assms(2))
    then show ?thesis
      using p True by (simp add: parseRpcResponseJson_def toStringResponse_def f)
  next
    case False
    then obtain f g where f: "toJsonResponse r = JObject f" and l: "fmlookup f ''jsonrpc'' = Some (JString (jr_jsonrpc r))"
      "fmlookup f ''id'' = Some (JInt (jr_id r))" "fmlookup f ''error'' = Some (JObject g)"
      "fmlookup g ''code'' = Some (JInt (jr_code r))" "fmlookup g ''message'' = Some (JString (jr_message r))"
      "fmlookup f ''result'' = None"
      by (simp add: toJsonResponse_object)
    have "stmts (parse_response_root J (JObject f)) r0 =
        (None, r0\<lparr>jr_jsonrpc := jr_jsonrpc r, jr_id := jr_id r, jr_code := jr_code r,
                   jr_message := jr_message r\<rparr>)"
      by (simp add: reads l assms(2,3) c)
    then show ?thesis
      using p False by (simp add: parseRpcResponseJson_def toStringResponse_def f)
  qed
qed

lemma rpc_response_roundtrip_witness:
  "parseRpcResponseJson (ref_jsoncpp (\<lambda>t. Inr (Some (toJsonResponse demo_resp))) (\<lambda>v. ''text''))
     ''text'' (new_response 0) =
     (None, (new_response 0)\<lparr>jr_jsonrpc := ''2.0'', jr_id := 7, jr_result := JNull\<rparr>)"
proof -
  let ?J = "ref_jsoncpp (\<lambda>t. Inr (Some (toJsonResponse demo_resp))) (\<lambda>v. ''text'')"
  have t: "toStringResponse ?J demo_resp = ''text''" by (simp add: toStringResponse_def)
  have "in_i64 (jr_id demo_resp)" "in_i32 (jr_code demo_resp)"
    by (simp_all add: demo_resp_def new_response_def in_i64_def in_i32_def)
  from rpc_response_roundtrip [OF ref_jsoncpp_ok this, of "\<lambda>t. Inr (Some (toJsonResponse demo_resp))"
      "\<lambda>v. ''text''" "new_response 0"]
  show ?thesis
    unfolding t by (simp add: demo_resp_def new_response_def)
qed

subsection \<open>How callbacks treat errors\<close>

lemma feed_Some:
  "feed (OnReceipt f1) r = Some p \<longleftrightarrow> (\<exists>x. r = Receipt x \<and> p = f1 x)"
  "feed (OnCode f2) r = Some p \<longleftrightarrow> (\<exists>x. r = Code x \<and> p = f2 x)"
  "feed (OnSubmit f3) r = Some p \<longleftrightarrow> (\<exists>x. r = Submitted x \<and> p = f3 x)"
  "feed (OnSize f4) r = Some p \<longleftrightarrow> (\<exists>x. r = Size x \<and> p = f4 x)"
  "feed (OnTransactions f5) r = Some p \<longleftrightarrow> (\<exists>x y. r = Transactions x y \<and> p = f5 x y)"
  "feed (OnReceiptProof f6) r = Some p \<longleftrightarrow> (\<exists>x y. r = ReceiptProof x y \<and> p = f6 x y)"
  "feed (OnNumber f7) r = Some p \<longleftrightarrow> (\<exists>x. r = Number x \<and> p = f7 x)"
  "feed (OnBlock f8) r = Some p \<longleftrightarrow> (\<exists>x. r = BlockData x \<and> p = f8 x)"
  "feed (OnHash f9) r = Some p \<longleftrightarrow> (\<exists>x. r = Hash x \<and> p = f9 x)"
  "feed (OnNodes f10) r = Some p \<longleftrightarrow> (\<exists>x. r = Nodes x \<and> p = f10 x)"
  "feed (OnConfig f11) r = Some p \<longleftrightarrow> (\<exists>x y. r = Config x y \<and> p = f11 x y)"
  "feed (OnCounts f12) r = Some p \<longleftrightarrow> (\<exists>x y z. r = Counts x y z \<and> p = f12 x y z)"
  "feed (OnView f13) r = Some p \<longleftrightarrow> (\<exists>x. r = View x \<and> p = f13 x)"
  "feed (OnStatus f14) r = Some p \<longleftrightarrow> (\<exists>x. r = Status x \<and> p = f14 x)"
  "feed (OnPeers f15) r = Some p \<longleftrightarrow> (\<exists>x y. r = Peers x y \<and> p = f15 x y)"
  by (cases r; auto simp: feed_def)+

text \<open>
  \<open>calls_back P p\<close>: if the code \<open>p\<close> makes a call, what its callback does on the error \<open>e\<close> and any
  results is \<open>P e\<close>. A callback \<open>reports\<close> if it makes no further call and answers an error with a
  response with that error.
\<close>

definition calls_back :: "(rpc_error option \<Rightarrow> proc \<Rightarrow> bool) \<Rightarrow> proc \<Rightarrow> bool" where
  "calls_back P p \<longleftrightarrow>
     (\<forall>q k. p = Ask q k \<longrightarrow> (\<forall>w e r p'. rw_alive w \<longrightarrow> feed (k w e) r = Some p' \<longrightarrow> P e p'))"

definition reports :: "rpc_error option \<Rightarrow> proc \<Rightarrow> bool" where
  "reports e p \<longleftrightarrow> (\<forall>q k. p \<noteq> Ask q k) \<and> (failed e \<longrightarrow> (\<exists>v. p = Respond e v))"

abbreviation forwards :: "proc \<Rightarrow> bool" where
  "forwards \<equiv> calls_back reports"

named_theorems forwards_intros \<open>ways to show what the callback of a method does\<close>

lemma forwards_now [forwards_intros]:
  "calls_back P (Respond e v)" "calls_back P NullPointer" "calls_back P Silent" "calls_back P (Throw x)"
  by (simp_all add: calls_back_def)

lemma forwards_bind [forwards_intros]:
  "(\<And>a. m = Inr a \<Longrightarrow> calls_back P (throwing (f a))) \<Longrightarrow> calls_back P (throwing (rbind m f))"
  by (cases m) (auto simp: calls_back_def)

lemma forwards_Inr [forwards_intros]: "calls_back P p \<Longrightarrow> calls_back P (throwing (Inr p))"
  by simp

lemma forwards_option [forwards_intros]:
  "(m = None \<Longrightarrow> calls_back P (throwing a)) \<Longrightarrow> (\<And>x. m = Some x \<Longrightarrow> calls_back P (throwing (f x))) \<Longrightarrow>
     calls_back P (throwing (case m of None \<Rightarrow> a | Some x \<Rightarrow> f x))"
  by (cases m) simp_all

lemma forwards_with_client [forwards_intros]:
  "(\<And>ns c. calls_back P (throwing (k ns c))) \<Longrightarrow> calls_back P (with_client E w g n cmd field s k)"
  unfolding with_client_def by (intro forwards_bind)

lemma forwards_with_node [forwards_intros]:
  "(\<And>g n. calls_back P (throwing (f g n))) \<Longrightarrow> calls_back P (with_node E req f)"
  unfolding with_node_def by (intro forwards_bind)

lemma forwards_Ask [forwards_intros]:
  "(\<And>w e r p. rw_alive w \<Longrightarrow> feed (k w e) r = Some p \<Longrightarrow> P e p) \<Longrightarrow> calls_back P (Ask q k)"
  by (simp add: calls_back_def)

lemma forwards_calls:
  "forwards (call E w g n t d)"
  "forwards (sendTransaction E w g n d rp)"
  "forwards (getTransaction E w g n h rp)"
  "forwards (getBlockByNumber E w g n b hdr txh)"
  "forwards (getBlockNumber E w g n)"
  "forwards (getCode E w g n c)"
  "forwards (getSealerList E w g n)"
  "forwards (getObserverList E w g n)"
  "forwards (getPbftView E w g n)"
  "forwards (getPendingTxSize E w g n)"
  "forwards (getSyncStatus E w g n)"
  "forwards (getConsensusStatus E w g n)"
  "forwards (getSystemConfigByKey E w g n key)"
  "forwards (getTotalTransactionCount E w g n)"
  "forwards (getPeers E w)"
  "forwards (getGroupPeers E w g)"
  "forwards (getGroupList E w)"
  "forwards (getGroupInfo_method E w g)"
  "forwards (getGroupInfoList E w)"
  "forwards (getGroupNodeInfo E w g n)"
  unfolding call_def sendTransaction_def getTransaction_def
    getBlockByNumber_def getBlockNumber_def getCode_def getSealerList_def getObserverList_def
    getPbftView_def getPendingTxSize_def getSyncStatus_def getConsensusStatus_def
    getSystemConfigByKey_def getTotalTransactionCount_def getPeers_def getGroupPeers_def
    getGroupList_def getGroupInfo_method_def getGroupInfoList_def getGroupNodeInfo_def Let_def
  by (intro forwards_intros; auto simp: feed_Some onSubmitted_def onTransactions_def reports_def
      onBlock_def Let_def split: if_split_asm option.split_asm list.split_asm)+

text \<open>The two methods that make a second call.\<close>

definition hides :: "rpc_env \<Rightarrow> rpc_error option \<Rightarrow> proc \<Rightarrow> bool" where
  "hides E e p \<longleftrightarrow> (\<forall>q k. p \<noteq> Ask q k) \<and>
     (failed e \<longrightarrow> json_lenient (re_json E) \<longrightarrow> (\<exists>v. p = Respond None v))"

definition twice :: "(rpc_error option \<Rightarrow> proc \<Rightarrow> bool) \<Rightarrow> rpc_error option \<Rightarrow> proc \<Rightarrow> bool" where
  "twice P e p \<longleftrightarrow> (failed e \<longrightarrow> (\<exists>v. p = Respond e v)) \<and> calls_back P p"

lemma onReceiptTransaction_ends: "onReceiptTransaction E j e v \<noteq> Ask q k"
  by (auto simp: onReceiptTransaction_def throwing_def rbind_def split: sum.split)

lemma onReceiptTransaction_hides:
  "hides E e (respond_to (onReceiptTransaction E j) (onTransactions E rp e ts ps))"
  by (auto simp: hides_def onTransactions_def onReceiptTransaction_ends Let_def split: option.split list.split)
    (auto simp: onReceiptTransaction_def lenient_null)

lemma calls_back_respond_to:
  assumes "calls_back P p" and "\<And>e p. P e p \<Longrightarrow> Q e (respond_to f p)" and "\<And>e v q k. f e v \<noteq> Ask q k"
  shows "calls_back Q (respond_to f p)"
  using assms by (cases p) (auto simp: calls_back_def feed_map)

lemma twice_getTransactionReceipt: "calls_back (twice (hides E)) (getTransactionReceipt E w g n h rp)"
proof -
  have "calls_back (\<lambda>e p. \<exists>ts ps. p = onTransactions E rp e ts ps) (getTransaction E w g n h rp)" for w
    unfolding getTransaction_def by (intro forwards_intros) (auto simp: feed_Some)
  then have "calls_back (hides E) (respond_to (onReceiptTransaction E j) (getTransaction E w g n h rp))" for j w
    by (rule calls_back_respond_to) (auto simp: onReceiptTransaction_hides onReceiptTransaction_ends)
  then have "twice (hides E) e (onReceipt E g n h x rp w e rc pr)" if "rw_alive w" for x w e rc pr
    using that by (auto simp: twice_def onReceipt_def Let_def forwards_now split: option.split)
  then show ?thesis
    unfolding getTransactionReceipt_def by (intro forwards_intros) (auto simp: feed_Some)
qed

lemma twice_getBlockByHash: "calls_back (twice reports) (getBlockByHash E w g n h hdr txh)"
proof -
  have "twice reports e (onNumberByHash E g n hdr txh w e b)" if "rw_alive w" for w e b
    using that forwards_calls(4) by (auto simp: twice_def onNumberByHash_def forwards_now)
  then show ?thesis
    unfolding getBlockByHash_def by (intro forwards_intros) (auto simp: feed_Some)
qed

text \<open>What the callback of each method of the table does.\<close>

definition treats :: "rpc_env \<Rightarrow> string \<Rightarrow> rpc_error option \<Rightarrow> proc \<Rightarrow> bool" where
  "treats E m =
     (if m = ''getTransactionReceipt'' then twice (hides E)
      else if m = ''getBlockByHash'' then twice reports
      else if m = ''getBlockHashByNumber'' then (\<lambda>e p. \<exists>h. p = Respond None (JString (hx_hexPrefixed (re_hex E) h)))
      else reports)"

lemma forwards_method:
  assumes "initMethod E m = Some f"
  shows "calls_back (treats E m) (f w req)"
proof -
  have I: "forwards (callI E w req)" "forwards (sendTransactionI E w req)" "forwards (getTransactionI E w req)"
    "calls_back (twice (hides E)) (getTransactionReceiptI E w req)" "calls_back (twice reports) (getBlockByHashI E w req)"
    "forwards (getBlockByNumberI E w req)"
    "forwards (getBlockNumberI E w req)" "forwards (getCodeI E w req)"
    "forwards (getSealerListI E w req)" "forwards (getObserverListI E w req)"
    "forwards (getPbftViewI E w req)" "forwards (getPendingTxSizeI E w req)"
    "forwards (getSyncStatusI E w req)" "forwards (getConsensusStatusI E w req)"
    "forwards (getSystemConfigByKeyI E w req)" "forwards (getTotalTransactionCountI E w req)"
    "forwards (getPeersI E w req)" "forwards (getGroupPeersI E w req)"
    "forwards (getGroupListI E w req)" "forwards (getGroupInfoI E w req)"
    "forwards (getGroupInfoListI E w req)" "forwards (getGroupNodeInfoI E w req)"
    "calls_back (\<lambda>e p. \<exists>h. p = Respond None (JString (hx_hexPrefixed (re_hex E) h))) (getBlockHashByNumberI E w req)"
    unfolding callI_def sendTransactionI_def getTransactionI_def getTransactionReceiptI_def getBlockByHashI_def
      getBlockByNumberI_def getBlockNumberI_def getCodeI_def
      getSealerListI_def getObserverListI_def getPbftViewI_def getPendingTxSizeI_def getSyncStatusI_def
      getConsensusStatusI_def getSystemConfigByKeyI_def getTotalTransactionCountI_def getPeersI_def
      getGroupPeersI_def getGroupListI_def getGroupInfoI_def getGroupInfoListI_def getGroupNodeInfoI_def
      getBlockHashByNumberI_def getBlockHashByNumber_def
    by (intro forwards_with_node forwards_bind forwards_Inr forwards_calls twice_getTransactionReceipt
        twice_getBlockByHash; intro forwards_intros; auto simp: feed_Some)+
  show ?thesis
    using assms I by (auto simp: initMethod_def treats_def split: if_splits)
qed

text \<open>
  C10: what becomes of a failed call while the interface object lives. Whichever method made
  it, its first call, when answered with an error and results of its kind, leads to a response with that error, except in \<open>getBlockHashByNumber\<close>: there
  the error is only logged and the request succeeds with the hash the callback was given. No
  method makes a third call, and only \<open>getBlockByHash\<close> and \<open>getTransactionReceipt\<close> make a second:
  the error of the second is reported by \<open>getBlockByHash\<close>, and hidden by
  \<open>getTransactionReceipt\<close>, which answers with success.
\<close>

theorem error_forwarding:
  assumes "initMethod E m = Some f" and "f w req = Ask q k"
    and "rw_alive w1" and "feed (k w1 e1) r1 = Some p1"
  shows "(failed e1 \<longrightarrow>
           (if m = ''getBlockHashByNumber''
            then \<exists>h. r1 = Hash h \<and> p1 = Respond None (JString (hx_hexPrefixed (re_hex E) h))
            else \<exists>v. p1 = Respond e1 v)) \<and>
         (\<forall>q2 k2. p1 = Ask q2 k2 \<longrightarrow> m = ''getBlockByHash'' \<or> m = ''getTransactionReceipt'') \<and>
         (\<forall>q2 k2 w2 e2 r2 p2. p1 = Ask q2 k2 \<and> rw_alive w2 \<and> feed (k2 w2 e2) r2 = Some p2 \<longrightarrow>
            (\<forall>q3 k3. p2 \<noteq> Ask q3 k3) \<and>
            (failed e2 \<longrightarrow>
               (if m = ''getBlockByHash'' then \<exists>v. p2 = Respond e2 v
                else json_lenient (re_json E) \<longrightarrow> (\<exists>v. p2 = Respond None v))))"
proof -
  have t: "treats E m e1 p1"
    using forwards_method [OF assms(1), of w req] assms(2-4) by (auto simp: calls_back_def)
  have "\<exists>h. r1 = Hash h \<and> p1 = Respond None (JString (hx_hexPrefixed (re_hex E) h))"
    if m: "m = ''getBlockHashByNumber''"
  proof -
    from assms(1) m have "f = getBlockHashByNumberI E" by (simp add: initMethod_def)
    with assms(2) have "k = (\<lambda>w e. OnHash (\<lambda>h. Respond None (JString (hx_hexPrefixed (re_hex E) h))))"
      by (auto simp: getBlockHashByNumberI_def with_node_def getBlockHashByNumber_def with_client_def
          throwing_def rbind_def split: sum.splits)
    with assms(4) show ?thesis by (auto simp: feed_Some)
  qed
  then show ?thesis
    using t by (auto simp: treats_def twice_def reports_def hides_def calls_back_def split: if_split_asm) blast+
qed

lemma error_forwarding_witness:
  "\<exists>p v. feed ((\<lambda>w e. OnNumber (\<lambda>n. Respond e (JInt n))) demo_world (Some \<lparr>er_code = 3, er_msg = ''x''\<rparr>))
           (Number 5) = Some p \<and> p = Respond (Some \<lparr>er_code = 3, er_msg = ''x''\<rparr>) v"
proof -
  let ?e = "Some \<lparr>er_code = 3, er_msg = ''x''\<rparr>"
  have "rw_alive demo_world" by (simp add: demo_world_def gm_world_def)
  from error_forwarding [OF demo_ask this, of ?e "Number 5"] show ?thesis by simp
qed

subsection \<open>Sending a transaction\<close>

text \<open>
  C11: a transaction that decodes is submitted once to the pool of its node, as the bytes that
  were sent. The answer of the pool leads to one response, with the receipt, the sender, the
  receiver and the input of the transaction, and with \<open>errorMessage\<close> exactly when the status is
  not \<open>None\<close>; or, on an error, to a response with that error. But when the pool answers
  without a receipt, the client is never answered.
\<close>

theorem send_transaction:
  assumes "re_base64 E data = Inr bs" and "rw_getNodeService w g n = Some ns"
    and "ns_txpool ns = Some pool" and "ns_blockFactory ns = Some suite"
    and "re_transaction E suite bs = Inr tx"
  shows "\<exists>k. sendTransaction E w g n data rp = Ask (AsyncSubmit pool bs) k \<and>
     (\<forall>w' e sr. rw_alive w' \<longrightarrow>
        (failed e \<longrightarrow> feed (k w' e) (Submitted sr) = Some (Respond e JNull)) \<and>
        (\<forall>st h. \<not> failed e \<longrightarrow>
           feed (k w' e) (Submitted (Some \<lparr>sr_status = st, sr_txHash = h, sr_receipt = None\<rparr>)) = Some Silent) \<and>
        (\<forall>st h rc. \<not> failed e \<longrightarrow>
           (\<exists>f. feed (k w' e) (Submitted (Some \<lparr>sr_status = st, sr_txHash = h, sr_receipt = Some rc\<rparr>)) =
                  Some (Respond None (JObject f)) \<and>
                fmlookup f ''transactionHash'' = Some (JString (hx_hexPrefixed (re_hex E) h)) \<and>
                fmlookup f ''status'' = Some (JInt (rc_status rc)) \<and>
                fmlookup f ''blockNumber'' = Some (JInt (rc_blockNumber rc)) \<and>
                fmlookup f ''output'' = Some (JString (hx_bytes (re_hex E) (rc_output rc))) \<and>
                fmlookup f ''logEntries'' = Some (JArray (map (log_json (re_hex E)) (rc_logEntries rc))) \<and>
                fmlookup f ''input'' = Some (JString (hx_bytes (re_hex E) (tx_input tx))) \<and>
                fmlookup f ''to'' = Some (JString (tx_to tx)) \<and>
                fmlookup f ''from'' = Some (JString (hx_bytes (re_hex E) (tx_sender tx))) \<and>
                fmlookup f ''errorMessage'' =
                  (if st = re_statusNone E then None else Some (JString (re_statusText E st))))))"
proof (rule exI, rule conjI)
  show "sendTransaction E w g n data rp =
      Ask (AsyncSubmit pool bs) (\<lambda>w e. OnSubmit (onSubmitted E tx w e))"
    using with_client_found [where field = ns_txpool, OF assms(2,3)]
    by (simp add: sendTransaction_def assms(1,4,5))
qed (auto simp: onSubmitted_def receipt_toJsonResp_def Let_def)

definition demo_sent_tx :: transaction where
  "demo_sent_tx = \<lparr>tx_version = 0, tx_hash = [], tx_nonce = 1, tx_blockLimit = 500, tx_to = ''0xabc'',
     tx_sender = [], tx_input = [], tx_importTime = 0, tx_chainId = ''chain0'', tx_groupId = ''group0'',
     tx_signatureData = []\<rparr>"

definition demo_send :: rpc_env where
  "demo_send = demo_call\<lparr>re_transaction := (\<lambda>c b. Inr demo_sent_tx)\<rparr>"

lemma send_transaction_witness:
  "\<exists>k. sendTransaction demo_send demo_world ''group0'' ''node0'' ''AAAA'' True = Ask (AsyncSubmit ''txpool.obj'' []) k \<and>
     feed (k demo_world None) (Submitted (Some \<lparr>sr_status = 0, sr_txHash = [], sr_receipt = None\<rparr>)) = Some Silent"
proof -
  have e: "re_base64 demo_send ''AAAA'' = Inr []" "re_transaction demo_send createCryptoSuite [] = Inr demo_sent_tx"
    by (simp_all add: demo_send_def demo_call_def demo_rpc_def demo_rpc_env_def)
  have n: "rw_getNodeService demo_world ''group0'' ''node0'' = Some demo_nodeService" "rw_alive demo_world"
    by (simp_all add: demo_world_def gm_world_def demo_served_get)
  have c: "ns_txpool demo_nodeService = Some ''txpool.obj''"
    "ns_blockFactory demo_nodeService = Some createCryptoSuite"
    by (simp_all add: demo_nodeService_value)
  from send_transaction [OF e(1) n(1) c e(2), of True] n(2) show ?thesis
    by (metis failed_simps(1))
qed

subsection \<open>A receipt with its transaction\<close>

text \<open>The receipt part of the response.\<close>

definition receipt_part :: "rpc_env \<Rightarrow> hash \<Rightarrow> receipt \<Rightarrow> bool \<Rightarrow> merkleProof option \<Rightarrow> json" where
  "receipt_part E h rc requireProof proof =
     (let j = receipt_toJsonResp (re_hex E) (hx_hexPrefixed (re_hex E) h) rc JNull
      in if requireProof then addProofToResponse ''receiptProof'' proof j else j)"

lemma onReceipt_found:
  assumes "rw_alive w" and "\<not> failed e"
  shows "onReceipt E g n txHash h rp w e (Some rc) pr =
           respond_to (onReceiptTransaction E (receipt_part E h rc rp pr)) (getTransaction E w g n txHash rp)"
  using assms by (cases pr) (simp_all add: onReceipt_def receipt_part_def addProofToResponse_def Let_def)

lemma onReceiptTransaction_null:
  assumes "json_lenient (re_json E)"
  shows "onReceiptTransaction E j e JNull =
           Respond None (jset [(''input'', JNull), (''from'', JNull), (''to'', JNull),
             (''transactionProof'', JNull)] j)"
  by (simp add: onReceiptTransaction_def lenient_null [OF assms])

lemma onReceiptTransaction_tx:
  assumes "jsoncpp_ok (re_json E)" and "json_lenient (re_json E)"
  shows "onReceiptTransaction E j e (tx_toJsonResp hx tx JNull) =
           Respond None (jset
             [(''input'', JString (hx_bytes hx (tx_input tx))), (''from'', JString (hx_bytes hx (tx_sender tx))),
              (''to'', JString (tx_to tx)), (''transactionProof'', JNull)] j)"
proof -
  obtain f where f: "tx_toJsonResp hx tx JNull = JObject f"
    and l: "fmlookup f ''input'' = Some (JString (hx_bytes hx (tx_input tx)))"
      "fmlookup f ''from'' = Some (JString (hx_bytes hx (tx_sender tx)))"
      "fmlookup f ''to'' = Some (JString (tx_to tx))" "fmlookup f ''transactionProof'' = None"
    by (simp add: tx_toJsonResp_def)
  show ?thesis
    by (simp add: f onReceiptTransaction_def ok_member [OF assms(1)] lenient_member [OF assms(2)] l)
qed

text \<open>
  C12: \<open>getTransactionReceipt\<close> asks the ledger of the node for the receipt and then for the
  transaction. The response is the receipt, with its proof if one was required, completed by
  the input, sender and receiver of the transaction. If the second call fails the error is
  dropped and these members are null. If the node has disappeared between the two calls, the
  lookup throws inside the callback, where nothing catches it: the client is not answered.
\<close>

theorem receipt_with_transaction:
  assumes ok: "jsoncpp_ok (re_json E)" "json_lenient (re_json E)"
    and "re_hash E txHash = Inr h" and "rw_getNodeService w g n = Some ns" and "ns_ledger ns = Some c"
    and w1: "rw_alive w1" "\<not> failed e1"
  shows "\<exists>k. getTransactionReceipt E w g n txHash rp = Ask (AsyncGetTransactionReceiptByHash c h rp) k \<and>
     (rw_getNodeService w1 g n = None \<longrightarrow>
        (\<exists>x. feed (k w1 e1) (ReceiptProof (Some rc) pr) = Some (Throw x) \<and>
             settle E resp (Throw x) = Escaped x)) \<and>
     (\<forall>ns1 c1. rw_getNodeService w1 g n = Some ns1 \<and> ns_ledger ns1 = Some c1 \<longrightarrow>
        (\<exists>k2. feed (k w1 e1) (ReceiptProof (Some rc) pr) = Some (Ask (AsyncGetBatchTxsByHashList c1 [h] rp) k2) \<and>
           (\<forall>w2 e2 txs proofs. failed e2 \<longrightarrow> feed (k2 w2 e2) (Transactions txs proofs) =
              Some (Respond None (jset [(''input'', JNull), (''from'', JNull), (''to'', JNull),
                (''transactionProof'', JNull)] (receipt_part E h rc rp pr)))) \<and>
           (\<forall>w2 e2 tx txs. \<not> failed e2 \<longrightarrow> feed (k2 w2 e2) (Transactions (Some (tx # txs)) None) =
              Some (Respond None (jset
                [(''input'', JString (hx_bytes (re_hex E) (tx_input tx))),
                 (''from'', JString (hx_bytes (re_hex E) (tx_sender tx))),
                 (''to'', JString (tx_to tx)), (''transactionProof'', JNull)]
                (receipt_part E h rc rp pr))))))"
proof (rule exI, intro conjI allI impI)
  let ?k = "\<lambda>w e. OnReceiptProof (onReceipt E g n txHash h rp w e)"
  show "getTransactionReceipt E w g n txHash rp = Ask (AsyncGetTransactionReceiptByHash c h rp) ?k"
    using with_client_found [where field = ns_ledger, OF assms(4,5)]
    by (simp add: getTransactionReceipt_def assms(3))
  have p: "feed (?k w1 e1) (ReceiptProof (Some rc) pr) =
      Some (respond_to (onReceiptTransaction E (receipt_part E h rc rp pr)) (getTransaction E w1 g n txHash rp))"
    by (simp add: onReceipt_found [OF w1])
  show "\<exists>x. feed (?k w1 e1) (ReceiptProof (Some rc) pr) = Some (Throw x) \<and> settle E resp (Throw x) = Escaped x"
    if "rw_getNodeService w1 g n = None"
    using that unfolding p
    by (simp add: getTransaction_def assms(3) with_client_def getNodeService_method_def settle_def)
  fix ns1 c1 assume n1: "rw_getNodeService w1 g n = Some ns1 \<and> ns_ledger ns1 = Some c1"
  then have "getTransaction E w1 g n txHash rp =
      Ask (AsyncGetBatchTxsByHashList c1 [h] rp) (\<lambda>w e. OnTransactions (onTransactions E rp e))"
    using with_client_found [where field = ns_ledger, of w1 g n ns1 c1] by (simp add: getTransaction_def assms(3))
  then show "\<exists>k2. feed (?k w1 e1) (ReceiptProof (Some rc) pr) = Some (Ask (AsyncGetBatchTxsByHashList c1 [h] rp) k2) \<and>
           (\<forall>w2 e2 txs proofs. failed e2 \<longrightarrow> feed (k2 w2 e2) (Transactions txs proofs) =
              Some (Respond None (jset [(''input'', JNull), (''from'', JNull), (''to'', JNull),
                (''transactionProof'', JNull)] (receipt_part E h rc rp pr)))) \<and>
           (\<forall>w2 e2 tx txs. \<not> failed e2 \<longrightarrow> feed (k2 w2 e2) (Transactions (Some (tx # txs)) None) =
              Some (Respond None (jset
                [(''input'', JString (hx_bytes (re_hex E) (tx_input tx))),
                 (''from'', JString (hx_bytes (re_hex E) (tx_sender tx))),
                 (''to'', JString (tx_to tx)), (''transactionProof'', JNull)]
                (receipt_part E h rc rp pr))))"
    unfolding p
    by (simp add: onTransactions_def onReceiptTransaction_null [OF ok(2)] onReceiptTransaction_tx [OF ok])
qed

definition demo_found_receipt :: receipt where
  "demo_found_receipt = \<lparr>rc_version = 0, rc_contractAddress = '''', rc_gasUsed = 0, rc_status = 0,
     rc_blockNumber = 1, rc_output = [], rc_hash = [], rc_logEntries = []\<rparr>"

lemma receipt_with_transaction_witness:
  "\<exists>k x. getTransactionReceipt demo_call demo_world ''group0'' ''node0'' ''0x1'' False =
       Ask (AsyncGetTransactionReceiptByHash ''ledger.obj'' [] False) k \<and>
     feed (k (demo_world\<lparr>rw_getNodeService := (\<lambda>_ _. None)\<rparr>) None)
       (ReceiptProof (Some demo_found_receipt) None) = Some (Throw x)"
proof -
  let ?gone = "demo_world\<lparr>rw_getNodeService := (\<lambda>_ _. None)\<rparr>"
  have h: "re_hash demo_call ''0x1'' = Inr []"
    by (simp add: demo_call_def demo_rpc_def demo_rpc_env_def)
  have n: "rw_getNodeService demo_world ''group0'' ''node0'' = Some demo_nodeService"
    by (simp add: demo_world_def gm_world_def demo_served_get)
  have c: "ns_ledger demo_nodeService = Some ''ledger.obj''" by (simp add: demo_nodeService_value)
  have w: "rw_alive ?gone" "\<not> failed None" "rw_getNodeService ?gone ''group0'' ''node0'' = None"
    by (simp_all add: demo_world_def gm_world_def)
  from receipt_with_transaction [OF demo_call_ok h n c w(1,2), of False demo_found_receipt None] w(3)
  show ?thesis by blast
qed

subsection \<open>Blocks\<close>

text \<open>What a response shows of a block.\<close>

definition shows_block :: "hexlib \<Rightarrow> bool \<Rightarrow> bool \<Rightarrow> block \<Rightarrow> blockHeader \<Rightarrow> json \<Rightarrow> bool" where
  "shows_block hx hdr txh b bh v \<longleftrightarrow>
     (\<exists>f. v = JObject f \<and>
        fmlookup f ''hash'' = Some (JString (hx_bytes hx (bh_hash bh))) \<and>
        fmlookup f ''number'' = Some (JInt (bh_number bh)) \<and>
        fmlookup f ''stateRoot'' = Some (JString (hx_bytes hx (bh_stateRoot bh))) \<and>
        fmlookup f ''transactions'' =
          (if hdr then None
           else Some (JArray (map (\<lambda>i.
             if txh then JString (hx_bytes hx (tx_hash (bl_transaction b i)))
             else tx_toJsonResp hx (bl_transaction b i) JNull) [0..<bl_transactionsSize b]))))"

text \<open>
  C13: \<open>getBlockByHash\<close>. The two flags are optional and both default to true: the header alone.
  The ledger is asked for the number of the hash; if that fails, the response is the error.
  Else the ledger of the node, looked up again, is asked for that block, with its transactions
  exactly when the header alone was not wanted, and the response shows the header and, in that
  case, the transactions in order, as hashes or in full as the second flag says. If the second
  call fails the response is that error with a null result.
\<close>

theorem block_by_hash:
  assumes ok: "jsoncpp_ok (re_json E)" and h: "re_hash E txt = Inr h"
    and node: "rw_getNodeService w g n = Some ns" "ns_ledger ns = Some c"
    and ps: "ps = [JString g, JString n, JString txt] @ map JBool fs" "length fs \<le> 2"
    and hdr: "hdr \<longleftrightarrow> (fs \<noteq> [] \<longrightarrow> fs ! 0)" and txh: "txh \<longleftrightarrow> (length fs = 2 \<longrightarrow> fs ! 1)"
  shows "\<exists>k. getBlockByHashI E w (JArray ps) = Ask (AsyncGetBlockNumberByHash c h) k \<and>
     (\<forall>w1 e i. failed e \<longrightarrow> feed (k w1 e) (Number i) = Some (Respond e JNull)) \<and>
     (\<forall>w1 e i ns1 c1. \<not> failed e \<and> rw_alive w1 \<and>
        rw_getNodeService w1 g n = Some ns1 \<and> ns_ledger ns1 = Some c1 \<longrightarrow>
        (\<exists>k1. feed (k w1 e) (Number i) = Some
             (Ask (AsyncGetBlockDataByNumber c1 i (if hdr then [HEADER] else [HEADER, TRANSACTIONS])) k1) \<and>
           (\<forall>w2 e2 b. failed e2 \<longrightarrow> feed (k1 w2 e2) (BlockData b) = Some (Respond e2 JNull)) \<and>
           (\<forall>w2 e2 b bh. \<not> failed e2 \<and> bl_header b = Some bh \<longrightarrow>
              (\<exists>v. feed (k1 w2 e2) (BlockData (Some b)) = Some (Respond e2 v) \<and>
                   shows_block (re_hex E) hdr txh b bh v))))"
proof (rule exI, intro conjI allI impI)
  let ?k = "\<lambda>w e. OnNumber (onNumberByHash E g n hdr txh w e)"
  have args: "arg_string E (JArray ps) 0 = Inr g" "arg_string E (JArray ps) (Suc 0) = Inr n"
    "arg_string E (JArray ps) 2 = Inr txt"
    by (simp_all add: arg_string_def json_ok [OF ok] ps(1))
  have flags: "arg_bool_or_true E (JArray ps) 3 = Inr hdr" "arg_bool_or_true E (JArray ps) 4 = Inr txh"
    using ps(2) by (auto simp: arg_bool_or_true_def arg_bool_def json_ok [OF ok] ps(1) hdr txh nth_append)
  show "getBlockByHashI E w (JArray ps) = Ask (AsyncGetBlockNumberByHash c h) ?k"
    using with_client_found [where field = ns_ledger, OF node]
    by (simp add: getBlockByHashI_def with_node_def args flags getBlockByHash_def h)
  show "feed (?k w1 e) (Number i) = Some (Respond e JNull)" if "failed e" for w1 :: world and e i
    using that by (simp add: onNumberByHash_def)
  fix w1 :: world and e i ns1 c1
  assume a: "\<not> failed e \<and> rw_alive w1 \<and> rw_getNodeService w1 g n = Some ns1 \<and> ns_ledger ns1 = Some c1"
  let ?k1 = "\<lambda>w e. OnBlock (onBlock E hdr txh e)"
  have "feed (?k w1 e) (Number i) = Some
      (Ask (AsyncGetBlockDataByNumber c1 i (if hdr then [HEADER] else [HEADER, TRANSACTIONS])) ?k1)"
    using a with_client_found [where field = ns_ledger, of w1 g n ns1 c1]
    by (simp add: onNumberByHash_def getBlockByNumber_def)
  moreover have "feed (?k1 w2 e2) (BlockData b) = Some (Respond e2 JNull)" if "failed e2" for w2 :: world and e2 b
    using that by (simp add: onBlock_def)
  moreover have "\<exists>v. feed (?k1 w2 e2) (BlockData (Some b)) = Some (Respond e2 v) \<and>
      shows_block (re_hex E) hdr txh b bh v"
    if "\<not> failed e2" "bl_header b = Some bh" for w2 :: world and e2 b bh
    using that by (cases hdr)
      (simp_all add: onBlock_def header_toJsonResp_def block_toJsonResp_def shows_block_def)
  ultimately show "\<exists>k1. feed (?k w1 e) (Number i) = Some
             (Ask (AsyncGetBlockDataByNumber c1 i (if hdr then [HEADER] else [HEADER, TRANSACTIONS])) k1) \<and>
           (\<forall>w2 e2 b. failed e2 \<longrightarrow> feed (k1 w2 e2) (BlockData b) = Some (Respond e2 JNull)) \<and>
           (\<forall>w2 e2 b bh. \<not> failed e2 \<and> bl_header b = Some bh \<longrightarrow>
              (\<exists>v. feed (k1 w2 e2) (BlockData (Some b)) = Some (Respond e2 v) \<and>
                   shows_block (re_hex E) hdr txh b bh v))"
    by blast
qed

lemma block_by_hash_witness:
  "\<exists>k k1. getBlockByHashI demo_call demo_world
       (JArray [JString ''group0'', JString ''node0'', JString ''0x1'', JBool False]) =
         Ask (AsyncGetBlockNumberByHash ''ledger.obj'' []) k \<and>
     feed (k demo_world None) (Number 5) =
       Some (Ask (AsyncGetBlockDataByNumber ''ledger.obj'' 5 [HEADER, TRANSACTIONS]) k1)"
proof -
  have h: "re_hash demo_call ''0x1'' = Inr []"
    by (simp add: demo_call_def demo_rpc_def demo_rpc_env_def)
  have n: "rw_getNodeService demo_world ''group0'' ''node0'' = Some demo_nodeService" "rw_alive demo_world"
    by (simp_all add: demo_world_def gm_world_def demo_served_get)
  have c: "ns_ledger demo_nodeService = Some ''ledger.obj''" by (simp add: demo_nodeService_value)
  from block_by_hash [OF demo_call_ok(1) h n(1) c, of
      "[JString ''group0'', JString ''node0'', JString ''0x1'', JBool False]" "[False]" False True, simplified]
  show ?thesis using n c by (metis failed_simps(1))
qed

end
