(* ===== verification/RpcScope.thy ===== *)
theory RpcScope
  imports JsonRpcProps
begin

text \<open>
  Which calls a request may lead to. \<open>asks P p w\<close> says that every call the code \<open>p\<close> makes when
  started in the world \<open>w\<close>, at once or in one of its callbacks, satisfies \<open>P\<close> in the world it
  is made in, however the calls before it were answered. For the methods of the interface
  \<open>P\<close> is \<open>in_scope\<close>: the call goes to the service of its kind at the node the request names,
  as the group manager knows it at that moment, and only \<open>sendTransaction\<close> submits, with the
  bytes of its parameter. The property says it of every call a step of a run makes.
\<close>

named_theorems asks_intros \<open>ways to show that a method makes only the calls it may make\<close>

subsection \<open>The calls of a piece of code\<close>

primrec asks :: "(world \<Rightarrow> query \<Rightarrow> bool) \<Rightarrow> proc \<Rightarrow> world \<Rightarrow> bool" where
  "asks P (Respond e v) = (\<lambda>w. True)"
| "asks P (Throw x) = (\<lambda>w. True)"
| "asks P Silent = (\<lambda>w. True)"
| "asks P NullPointer = (\<lambda>w. True)"
| "asks P (Ask q k) =
     (\<lambda>w. P w q \<and> (\<forall>w' e b. b \<in> set_callback (map_callback (asks P) (k w' e)) \<longrightarrow> b w'))"

lemma asks_Ask: "asks P (Ask q k) w \<longleftrightarrow> P w q \<and> (\<forall>w' e p. p \<in> set_callback (k w' e) \<longrightarrow> asks P p w')"
  by (auto simp: callback.set_map)

declare asks.simps(5) [simp del]

lemma asks_respond_to:
  "asks P p w \<Longrightarrow> (\<And>e v w. asks P (f e v) w) \<Longrightarrow> asks P (respond_to f p) w"
proof (induction p arbitrary: w)
  case (Ask q k)
  show ?case
    unfolding respond_to.simps asks_Ask
  proof (intro conjI allI impI)
    show "P w q" using Ask.prems(1) by (simp add: asks_Ask)
    fix w' e p assume "p \<in> set_callback (map_callback (respond_to f) (k w' e))"
    then obtain p' where p': "p' \<in> set_callback (k w' e)" "p = respond_to f p'"
      by (auto simp: callback.set_map)
    have "asks P p' w'" using Ask.prems(1) p'(1) by (simp add: asks_Ask)
    then show "asks P p w'"
      unfolding p'(2) by (intro Ask.IH [of "k w'" "k w' e"] Ask.prems(2)) (use p'(1) in auto)
  qed
qed auto

lemma asks_Inr [asks_intros]: "asks P p w \<Longrightarrow> asks P (throwing (Inr p)) w"
  by simp

lemma asks_bind [asks_intros]:
  "(\<And>a. m = Inr a \<Longrightarrow> asks P (throwing (f a)) w) \<Longrightarrow> asks P (throwing (rbind m f)) w"
  by (cases m) auto

lemma asks_with_client [asks_intros]:
  assumes "\<And>ns c. rw_getNodeService w g n = Some ns \<Longrightarrow> field ns = Some c \<Longrightarrow> asks P (throwing (k ns c)) w"
  shows "asks P (with_client E w g n cmd field s k) w"
  unfolding with_client_def
  by (intro asks_bind assms) (auto dest: starts_node starts_service)

lemma asks_with_node [asks_intros]:
  "(\<And>g n. arg_string E req 0 = Inr g \<Longrightarrow> arg_string E req 1 = Inr n \<Longrightarrow> asks P (throwing (f g n)) w) \<Longrightarrow>
     asks P (with_node E req f) w"
  unfolding with_node_def by (intro asks_bind)

text \<open>A call whose callback makes no further call.\<close>

definition makes_no_call :: "proc \<Rightarrow> bool" where
  "makes_no_call p \<longleftrightarrow> (\<forall>q k. p \<noteq> Ask q k)"

lemma asks_no_call: "makes_no_call p \<Longrightarrow> asks P p w"
  by (cases p) (auto simp: makes_no_call_def)

lemma asks_last [asks_intros]:
  "P w q \<Longrightarrow> (\<And>w' e p. p \<in> set_callback (k w' e) \<Longrightarrow> makes_no_call p) \<Longrightarrow> asks P (Ask q k) w"
  unfolding asks_Ask by (auto intro: asks_no_call)

subsection \<open>The node a request names\<close>

text \<open>The service of a bundle that a call of each kind must go to.\<close>

fun addressed :: "nodeService \<Rightarrow> query \<Rightarrow> bool" where
  "addressed ns (ExecuteCall c suite a) \<longleftrightarrow> ns_scheduler ns = Some c \<and> ns_blockFactory ns = Some suite"
| "addressed ns (GetCode c a) \<longleftrightarrow> ns_scheduler ns = Some c"
| "addressed ns (AsyncSubmit c bs) \<longleftrightarrow> ns_txpool ns = Some c"
| "addressed ns (AsyncGetPendingTransactionSize c) \<longleftrightarrow> ns_txpool ns = Some c"
| "addressed ns (AsyncGetBatchTxsByHashList c hs p) \<longleftrightarrow> ns_ledger ns = Some c"
| "addressed ns (AsyncGetTransactionReceiptByHash c h p) \<longleftrightarrow> ns_ledger ns = Some c"
| "addressed ns (AsyncGetBlockNumberByHash c h) \<longleftrightarrow> ns_ledger ns = Some c"
| "addressed ns (AsyncGetBlockDataByNumber c n ps) \<longleftrightarrow> ns_ledger ns = Some c"
| "addressed ns (AsyncGetBlockHashByNumber c n) \<longleftrightarrow> ns_ledger ns = Some c"
| "addressed ns (AsyncGetBlockNumber c) \<longleftrightarrow> ns_ledger ns = Some c"
| "addressed ns (AsyncGetNodeListByType c t) \<longleftrightarrow> ns_ledger ns = Some c"
| "addressed ns (AsyncGetSystemConfigByKey c key) \<longleftrightarrow> ns_ledger ns = Some c"
| "addressed ns (AsyncGetTotalTransactionCount c) \<longleftrightarrow> ns_ledger ns = Some c"
| "addressed ns (AsyncGetPBFTView c) \<longleftrightarrow> ns_consensus ns = Some c"
| "addressed ns (AsyncGetConsensusStatus c) \<longleftrightarrow> ns_consensus ns = Some c"
| "addressed ns (AsyncGetSyncInfo c) \<longleftrightarrow> ns_sync ns = Some c"
| "addressed ns AsyncGetPeers \<longleftrightarrow> False"

definition submits :: "query \<Rightarrow> bool" where
  "submits q \<longleftrightarrow> (\<exists>c bs. q = AsyncSubmit c bs)"

text \<open>Calls to the node, in the world they are made in.\<close>

definition at_node :: "string \<Rightarrow> string \<Rightarrow> world \<Rightarrow> query \<Rightarrow> bool" where
  "at_node g n w q \<longleftrightarrow> \<not> submits q \<and> (\<exists>ns. rw_getNodeService w g n = Some ns \<and> addressed ns q)"

definition submits_at :: "rpc_env \<Rightarrow> string \<Rightarrow> string \<Rightarrow> string \<Rightarrow> world \<Rightarrow> query \<Rightarrow> bool" where
  "submits_at E g n d w q \<longleftrightarrow>
     (\<exists>ns c bs. q = AsyncSubmit c bs \<and> re_base64 E d = Inr bs \<and>
        rw_getNodeService w g n = Some ns \<and> ns_txpool ns = Some c)"

lemma at_node_simp:
  "rw_getNodeService w g n = Some ns \<Longrightarrow> at_node g n w q \<longleftrightarrow> \<not> submits q \<and> addressed ns q"
  by (simp add: at_node_def)

subsection \<open>The methods\<close>

lemma no_call_simps [simp]:
  "makes_no_call (Respond e v)" "makes_no_call (Throw x)" "makes_no_call Silent" "makes_no_call NullPointer"
  by (simp_all add: makes_no_call_def)

lemma node_call [asks_intros]:
  "rw_getNodeService w g n = Some ns \<Longrightarrow> addressed ns q \<Longrightarrow> \<not> submits q \<Longrightarrow>
     (\<And>w' e p. p \<in> set_callback (k w' e) \<Longrightarrow> makes_no_call p) \<Longrightarrow> asks (at_node g n) (Ask q k) w"
  by (rule asks_last) (simp_all add: at_node_simp)

lemma simple_scope:
  "asks (at_node g n) (getBlockByNumber E w g n b hdr txh) w"
  "asks (at_node g n) (getBlockHashByNumber E w g n b) w"
  "asks (at_node g n) (getBlockNumber E w g n) w"
  "asks (at_node g n) (getSealerList E w g n) w"
  "asks (at_node g n) (getObserverList E w g n) w"
  "asks (at_node g n) (getPbftView E w g n) w"
  "asks (at_node g n) (getPendingTxSize E w g n) w"
  "asks (at_node g n) (getSyncStatus E w g n) w"
  "asks (at_node g n) (getConsensusStatus E w g n) w"
  "asks (at_node g n) (getSystemConfigByKey E w g n key) w"
  "asks (at_node g n) (getTotalTransactionCount E w g n) w"
  unfolding getBlockByNumber_def getBlockHashByNumber_def getBlockNumber_def getSealerList_def
    getObserverList_def getPbftView_def getPendingTxSize_def getSyncStatus_def getConsensusStatus_def
    getSystemConfigByKey_def getTotalTransactionCount_def
  by (intro asks_with_client asks_Inr node_call; auto simp: submits_def onBlock_def)+


lemma asks_node [asks_intros]:
  "(\<And>ns. rw_getNodeService w g n = Some ns \<Longrightarrow> asks P (throwing (f ns)) w) \<Longrightarrow>
     asks P (throwing (rbind (getNodeService_method E w g n cmd) f)) w"
  by (intro asks_bind) (auto dest: starts_node)

lemma call_scope: "asks (at_node g n) (call E w g n t d) w"
  unfolding call_def
  by (intro asks_node) (auto split: option.splits intro!: asks_bind asks_Inr asks_last simp: at_node_simp submits_def)

lemma getCode_scope: "asks (at_node g n) (getCode E w g n c) w"
  unfolding getCode_def
  by (intro asks_node) (auto split: option.splits intro!: asks_bind asks_Inr asks_last simp: at_node_simp submits_def)

lemma onTransactions_no_call [simp]: "makes_no_call (onTransactions E p e ts ps)"
  by (auto simp: onTransactions_def Let_def split: option.split list.split)

lemma getTransaction_scope: "asks (at_node g n) (getTransaction E w g n h p) w"
  unfolding getTransaction_def
  by (intro asks_bind asks_Inr asks_with_client node_call) (auto simp: submits_def)

lemma onReceiptTransaction_no_call [simp]: "makes_no_call (onReceiptTransaction E j e v)"
  by (auto simp: onReceiptTransaction_def throwing_def rbind_def split: sum.split)

lemma getTransactionReceipt_scope: "asks (at_node g n) (getTransactionReceipt E w g n h p) w"
proof -
  have "asks (at_node g n) (onReceipt E g n h x p w' e rc pr) w'" for x w' e rc pr
    by (auto simp: onReceipt_def Let_def split: option.split
        intro!: asks_respond_to getTransaction_scope intro: asks_no_call [OF onReceiptTransaction_no_call])
  then show ?thesis
    unfolding getTransactionReceipt_def
    by (intro asks_bind asks_Inr asks_with_client) (auto simp: asks_Ask at_node_simp submits_def)
qed

lemma getBlockByHash_scope: "asks (at_node g n) (getBlockByHash E w g n h hdr txh) w"
proof -
  have "asks (at_node g n) (onNumberByHash E g n hdr txh w' e b) w'" for w' e b
    by (simp add: onNumberByHash_def simple_scope)
  then show ?thesis
    unfolding getBlockByHash_def
    by (intro asks_bind asks_Inr asks_with_client) (auto simp: asks_Ask at_node_simp submits_def)
qed

lemma onSubmitted_no_call [simp]: "makes_no_call (onSubmitted E tx w e sr)"
  by (auto simp: onSubmitted_def Let_def split: option.split)

lemma sendTransaction_scope: "asks (submits_at E g n d) (sendTransaction E w g n d p) w"
  unfolding sendTransaction_def
  by (intro asks_bind asks_Inr asks_with_client)
    (auto split: option.split intro!: asks_bind asks_Inr asks_last simp: submits_at_def)

subsection \<open>Requests\<close>

text \<open>
  What a request may ask for: with the parameters \<open>req\<close> of the method \<open>m\<close>, calls to the node
  that the first two name; a submission only of the third, by \<open>sendTransaction\<close>; the peers
  of the gateway only by the two methods that show them.
\<close>

definition in_scope :: "rpc_env \<Rightarrow> string \<Rightarrow> json \<Rightarrow> world \<Rightarrow> query \<Rightarrow> bool" where
  "in_scope E m req w q \<longleftrightarrow>
     (if m = ''getPeers'' \<or> m = ''getGroupPeers'' then q = AsyncGetPeers
      else \<exists>g n. arg_string E req 0 = Inr g \<and> arg_string E req 1 = Inr n \<and>
             (if m = ''sendTransaction''
              then \<exists>d. arg_string E req 2 = Inr d \<and> submits_at E g n d w q
              else at_node g n w q))"

lemma asks_mono:
  assumes "asks P p w" and "\<And>w q. P w q \<Longrightarrow> Q w q" shows "asks Q p w"
  using assms(1)
proof (induction p arbitrary: w)
  case (Ask q k)
  show ?case
    unfolding asks_Ask
  proof (intro conjI allI impI)
    show "Q w q" using Ask.prems assms(2) by (simp add: asks_Ask)
    fix w' e p assume p: "p \<in> set_callback (k w' e)"
    with Ask.prems have "asks P p w'" by (simp add: asks_Ask)
    then show "asks Q p w'" by (intro Ask.IH [of "k w'" "k w' e"]) (use p in auto)
  qed
qed auto

lemma scope_node:
  assumes "\<And>g n. arg_string E req 0 = Inr g \<Longrightarrow> arg_string E req 1 = Inr n \<Longrightarrow> asks (at_node g n) (throwing (f g n)) w"
    and "m \<notin> {''getPeers'', ''getGroupPeers'', ''sendTransaction''}"
  shows "asks (in_scope E m req) (with_node E req f) w"
  by (rule asks_with_node) (rule asks_mono, rule assms(1), use assms(2) in \<open>auto simp: in_scope_def\<close>)

lemma asks_peers: "asks P (getPeers E w) w' \<longleftrightarrow> P w' AsyncGetPeers" "asks P (getGroupPeers E w g) w' \<longleftrightarrow> P w' AsyncGetPeers"
  by (auto simp: getPeers_def getGroupPeers_def asks_Ask intro: asks_no_call split: option.split)

lemma method_scope:
  assumes "initMethod E m = Some f"
  shows "asks (in_scope E m req) (f w req) w"
proof -
  note wrappers = callI_def getTransactionI_def getTransactionReceiptI_def getBlockByHashI_def
    getBlockByNumberI_def getBlockHashByNumberI_def getBlockNumberI_def getCodeI_def
    getSealerListI_def getObserverListI_def getPbftViewI_def getPendingTxSizeI_def getSyncStatusI_def
    getConsensusStatusI_def getSystemConfigByKeyI_def getTotalTransactionCountI_def getGroupNodeInfoI_def
  have node: "asks (in_scope E m req) (callI E w req) w" "asks (in_scope E m req) (getTransactionI E w req) w"
    "asks (in_scope E m req) (getTransactionReceiptI E w req) w" "asks (in_scope E m req) (getBlockByHashI E w req) w"
    "asks (in_scope E m req) (getBlockByNumberI E w req) w" "asks (in_scope E m req) (getBlockHashByNumberI E w req) w"
    "asks (in_scope E m req) (getBlockNumberI E w req) w" "asks (in_scope E m req) (getCodeI E w req) w"
    "asks (in_scope E m req) (getSealerListI E w req) w" "asks (in_scope E m req) (getObserverListI E w req) w"
    "asks (in_scope E m req) (getPbftViewI E w req) w" "asks (in_scope E m req) (getPendingTxSizeI E w req) w"
    "asks (in_scope E m req) (getSyncStatusI E w req) w" "asks (in_scope E m req) (getConsensusStatusI E w req) w"
    "asks (in_scope E m req) (getSystemConfigByKeyI E w req) w"
    "asks (in_scope E m req) (getTotalTransactionCountI E w req) w"
    "asks (in_scope E m req) (getGroupNodeInfoI E w req) w"
    if "m \<notin> {''getPeers'', ''getGroupPeers'', ''sendTransaction''}" for m
    unfolding wrappers
    by (rule scope_node [OF _ that]; intro asks_bind asks_Inr simple_scope call_scope getCode_scope
        getTransaction_scope getTransactionReceipt_scope getBlockByHash_scope;
        simp add: getGroupNodeInfo_def)+
  have rest: "asks P (getGroupListI E w req) w" "asks P (getGroupInfoI E w req) w" "asks P (getGroupInfoListI E w req) w"
    for P :: "world \<Rightarrow> query \<Rightarrow> bool"
    by (auto simp: getGroupListI_def getGroupList_def getGroupInfoI_def getGroupInfo_method_def getGroupInfoListI_def
        getGroupInfoList_def Let_def intro!: asks_bind)
  have peers: "asks (in_scope E ''getPeers'' req) (getPeersI E w req) w"
    "asks (in_scope E ''getGroupPeers'' req) (getGroupPeersI E w req) w"
    by (auto simp: getPeersI_def getGroupPeersI_def asks_peers in_scope_def intro!: asks_bind)
  have send: "asks (in_scope E ''sendTransaction'' req) (sendTransactionI E w req) w"
    unfolding sendTransactionI_def
    by (intro asks_with_node asks_bind asks_Inr) (rule asks_mono, rule sendTransaction_scope, auto simp: in_scope_def)
  show ?thesis
  proof (cases "m \<in> {''getPeers'', ''getGroupPeers'', ''sendTransaction''}")
    case True
    then consider "m = ''getPeers''" | "m = ''getGroupPeers''" | "m = ''sendTransaction''" by blast
    then show ?thesis
      by cases (use assms peers send in \<open>simp_all add: initMethod_def\<close>)
  next
    case False
    define P where "P = in_scope E m req"
    note n = node [OF False, folded P_def] rest [of P]
    have "asks P (f w req) w"
      using assms False n by (auto simp: initMethod_def split: if_splits)
    then show ?thesis by (simp only: P_def)
  qed
qed

subsection \<open>Property\<close>

text \<open>The worlds in which code has run so far.\<close>

fun world_of_event :: "rpc_event \<Rightarrow> world option" where
  "world_of_event (RpcRequest n w body) = Some w"
| "world_of_event (CallAnswered i w e r) = Some w"
| "world_of_event _ = None"

definition accounted :: "rpc_env \<Rightarrow> rpc_event list \<Rightarrow> nat \<times> jsonResponse \<times> query \<times> (world \<Rightarrow> rpc_error option \<Rightarrow> proc callback) \<Rightarrow> bool" where
  "accounted E es c \<longleftrightarrow>
     (case c of (n, resp, q, k) \<Rightarrow>
        \<exists>w0 body rq w. RpcRequest n w0 body \<in> set es \<and> parseRpcRequestJson (re_json E) body = Inr rq \<and>
          jr_id resp = jq_id rq \<and> Some w \<in> world_of_event ` set es \<and>
          asks (in_scope E (jq_method rq) (jq_params rq)) (Ask q k) w)"

lemma accounted_mono: "accounted E es c \<Longrightarrow> accounted E (es @ [ev]) c"
  unfolding accounted_def by (auto split: prod.splits) blast+


lemma asks_fed: "asks P (Ask q k) w \<Longrightarrow> feed (k w' e) r = Some p \<Longrightarrow> asks P p w'"
  by (auto simp: asks_Ask dest: feed_set)

lemma settle_Waiting [simp]: "settle E resp p = Waiting resp' q k \<longleftrightarrow> resp' = resp \<and> p = Ask q k"
  by (cases p) (auto simp: settle_def)

lemma waiting_take_turn:
  "c \<in> set (jp_waiting (take_turn n t s)) \<longleftrightarrow>
     c \<in> set (jp_waiting s) \<or> (\<exists>resp q k. t = Waiting resp q k \<and> c = (n, resp, q, k))"
  by (cases t) (auto simp: take_turn_def)

lemma onRPCRequest_Waiting:
  assumes "onRPCRequest E M w body = Waiting resp q k"
  obtains rq f where "parseRpcRequestJson (re_json E) body = Inr rq" and "M (jq_method rq) = Some f"
    and "f w (jq_params rq) = Ask q k" and "jr_id resp = jq_id rq"
proof (cases "parseRpcRequestJson (re_json E) body")
  case (Inl x)
  with assms show ?thesis by (simp add: onRPCRequest_def error_reply_def)
next
  case (Inr rq)
  show ?thesis
  proof (cases "M (jq_method rq)")
    case None
    with assms Inr show ?thesis by (simp add: onRPCRequest_def error_reply_def Let_def)
  next
    case (Some f)
    with assms Inr have "f w (jq_params rq) = Ask q k \<and> jr_id resp = jq_id rq"
      by (cases "f w (jq_params rq)") (auto simp: onRPCRequest_def error_reply_def Let_def settle_def)
    with Some Inr that show ?thesis by blast
  qed
qed

interpretation calls: history_invariant "rpc_step E" "new_json_rpc E ni"
  "\<lambda>es s. jp_methods s = initMethod E \<and> (\<forall>c \<in> set (jp_waiting s). accounted E es c)" for E ni
proof
  show "jp_methods (new_json_rpc E ni) = initMethod E \<and> (\<forall>c \<in> set (jp_waiting (new_json_rpc E ni)). accounted E [] c)"
    by (simp add: new_json_rpc_def)
next
  fix es s ev t
  assume h: "jp_methods s = initMethod E \<and> (\<forall>c \<in> set (jp_waiting s). accounted E es c)"
    and "rpc_step E s ev t"
  then have m: "jp_methods s = initMethod E" and
    old: "c \<in> set (jp_waiting s) \<Longrightarrow> accounted E (es @ [ev]) c" for c
    by (auto intro: accounted_mono)
  from \<open>rpc_step E s ev t\<close> show "jp_methods t = initMethod E \<and> (\<forall>c \<in> set (jp_waiting t). accounted E (es @ [ev]) c)"
  proof (cases rule: rpc_step.cases)
    case (rpc_request n w body)
    have "accounted E (es @ [ev]) (n, resp, q, k)" if "onRPCRequest E (jp_methods s) w body = Waiting resp q k" for resp q k
    proof (rule onRPCRequest_Waiting [OF that [unfolded m]])
      fix rq f
      assume rq: "parseRpcRequestJson (re_json E) body = Inr rq" "initMethod E (jq_method rq) = Some f"
        "f w (jq_params rq) = Ask q k" "jr_id resp = jq_id rq"
      from method_scope [OF rq(2), of "jq_params rq" w] rq(3)
      have "asks (in_scope E (jq_method rq) (jq_params rq)) (Ask q k) w" by simp
      with rq(1,4) show ?thesis
        by (auto simp: accounted_def rpc_request(1))
    qed
    with old m show ?thesis
      by (auto simp: rpc_request(2) waiting_take_turn) (simp add: take_turn_def split: turn.split)
  next
    case (rpc_answer i w e r)
    from rpc_answer(2) show ?thesis
    proof (rule answer_call_Some)
      fix n resp q k p
      let ?s = "s\<lparr>jp_waiting := take i (jp_waiting s) @ drop (Suc i) (jp_waiting s)\<rparr>"
      assume i: "i < length (jp_waiting s)" and c: "jp_waiting s ! i = (n, resp, q, k)"
        and p: "feed (k w e) r = Some p" and t: "t = take_turn n (settle E resp p) ?s"
      from i c have "(n, resp, q, k) \<in> set (jp_waiting s)" by (metis nth_mem)
      with h obtain w0 body rq w1 where *: "RpcRequest n w0 body \<in> set es"
          "parseRpcRequestJson (re_json E) body = Inr rq" "jr_id resp = jq_id rq"
          "asks (in_scope E (jq_method rq) (jq_params rq)) (Ask q k) w1"
        by (fastforce simp: accounted_def)
      have "accounted E (es @ [ev]) (n, resp, q', k')" if "p = Ask q' k'" for q' k'
        using asks_fed [OF *(4) p] * by (auto simp: accounted_def that rpc_answer(1))
      moreover have "c \<in> set (jp_waiting s)" if "c \<in> set (jp_waiting ?s)" for c
        using that by (auto dest: in_set_takeD in_set_dropD)
      ultimately show ?thesis
        using old m by (auto simp: t waiting_take_turn) (simp add: take_turn_def split: turn.split)
    qed
  qed (use m old in \<open>auto simp: setClientID_rpc_def setNodeInfo_def\<close>)
qed

text \<open>The calls in flight that an event leaves there.\<close>

fun kept_calls :: "rpc_event \<Rightarrow> 'a list \<Rightarrow> 'a list" where
  "kept_calls (CallAnswered i w e r) cs = take i cs @ drop (Suc i) cs"
| "kept_calls _ cs = cs"

lemma take_turn_waiting:
  "jp_waiting (take_turn n t s) =
     jp_waiting s @ (case t of Waiting resp q k \<Rightarrow> [(n, resp, q, k)] | _ \<Rightarrow> [])"
  by (cases t) (simp_all add: take_turn_def)

text \<open>
  C6: what a request reaches. Every step leaves the calls in flight alone, but for the one it
  answers, and adds at most one. The call it adds was made for a request received before or in
  this step, with the request's id, and goes no further than that request: to the service of
  its kind at the node of the group that the first two parameters name, as the group manager
  knows it in this very step, also where an earlier call of the request went to the node as
  it was then; or, for the two methods that show peers, to the gateway. Only \<open>sendTransaction\<close> submits to a transaction pool, and it submits the bytes
  its third parameter encodes; every other method only reads.
\<close>

theorem request_scope:
  assumes run: "run (rpc_step E) (new_json_rpc E ni) es s" and st: "rpc_step E s ev t"
  shows "\<exists>new. jp_waiting t = kept_calls ev (jp_waiting s) @ new \<and> length new \<le> 1 \<and>
     (\<forall>n resp q k. (n, resp, q, k) \<in> set new \<longrightarrow>
        (\<exists>w0 body rq w. RpcRequest n w0 body \<in> set (es @ [ev]) \<and>
           parseRpcRequestJson (re_json E) body = Inr rq \<and> jr_id resp = jq_id rq \<and>
           world_of_event ev = Some w \<and> in_scope E (jq_method rq) (jq_params rq) w q))"
  using st
proof (cases rule: rpc_step.cases)
  case (rpc_request n w body)
  have m: "jp_methods s = initMethod E" using calls.run_hinv [OF run] by blast
  let ?t = "onRPCRequest E (jp_methods s) w body"
  have "in_scope E (jq_method rq) (jq_params rq) w q"
    if "f w (jq_params rq) = Ask q k" "initMethod E (jq_method rq) = Some f" for rq f q k
    using method_scope [OF that(2), of "jq_params rq" w] that(1) by (simp add: asks_Ask)
  note scope = this
  have "\<exists>rq. parseRpcRequestJson (re_json E) body = Inr rq \<and> jr_id resp = jq_id rq \<and>
      in_scope E (jq_method rq) (jq_params rq) w q" if "?t = Waiting resp q k" for resp q k
    by (rule onRPCRequest_Waiting [OF that [unfolded m]]) (use scope in blast)
  then show ?thesis
    by (auto simp: rpc_request take_turn_waiting split: turn.split) blast
next
  case (rpc_answer i w e r)
  from rpc_answer(2) show ?thesis
  proof (rule answer_call_Some)
    fix n resp q k p
    assume i: "i < length (jp_waiting s)" and c: "jp_waiting s ! i = (n, resp, q, k)"
      and p: "feed (k w e) r = Some p"
      and t: "t = take_turn n (settle E resp p) (s\<lparr>jp_waiting := take i (jp_waiting s) @ drop (Suc i) (jp_waiting s)\<rparr>)"
    from i c have "(n, resp, q, k) \<in> set (jp_waiting s)" by (metis nth_mem)
    with calls.run_hinv [OF run] have "accounted E es (n, resp, q, k)" by blast
    then obtain w0 body rq w1 where *: "RpcRequest n w0 body \<in> set es"
        "parseRpcRequestJson (re_json E) body = Inr rq" "jr_id resp = jq_id rq"
        "asks (in_scope E (jq_method rq) (jq_params rq)) (Ask q k) w1"
      by (auto simp: accounted_def)
    have "in_scope E (jq_method rq) (jq_params rq) w q'" if "p = Ask q' k'" for q' k'
      using asks_fed [OF *(4) p] by (simp add: that asks_Ask)
    note scope = this
    show ?thesis
    proof (cases "settle E resp p")
      case (Waiting resp' q' k')
      then have p': "p = Ask q' k'" "resp' = resp" by simp_all
      with *(1-3) scope [OF p'(1)] Waiting show ?thesis
        by (intro exI [of _ "[(n, resp', q', k')]"])
          (simp add: t rpc_answer(1) take_turn_waiting del: settle_Waiting, blast)
    qed (simp_all add: t rpc_answer(1) take_turn_waiting)
  qed
qed (simp_all add: setClientID_rpc_def setNodeInfo_def)

lemma request_scope_witness:
  "in_scope demo_call ''getBlockNumber'' (JArray [JString ''group0'', JString ''node0'']) demo_world
     (AsyncGetBlockNumber ''ledger.obj'')"
proof -
  have p: "parseRpcRequestJson (re_json demo_call) ''body'' = Inr \<lparr>jq_jsonrpc = ''2.0'',
      jq_method = ''getBlockNumber'', jq_id = 7, jq_params = JArray [JString ''group0'', JString ''node0'']\<rparr>"
    by (simp add: demo_call_def demo_rpc_parse)
  from request_scope [OF run_nil demo_waiting_step]
  show ?thesis by (auto simp: demo_waiting_value new_json_rpc_def p)
qed

end
