(* ===== verification/RpcInterface.thy ===== *)
theory RpcInterface
  imports JsonRpcProps
begin

text \<open>
  The abstract interface \<^theory_text>\<open>jsonrpc/JsonRpcInterface.h\<close>, and how requests reach it.

  \<open>rpc_call\<close> has one constructor for each virtual function, with its parameters but for the
  response callback; \<open>perform\<close> is the call through the interface, which arrives at the member
  function of \<^theory_text>\<open>JsonRpcImpl_2_0\<close> that overrides it. The rest is specification: \<open>signature\<close>
  says under which names the functions are offered and how their parameters are read, and
  \<open>read_args\<close> reads parameters by it. The table of methods and its wrappers are shown to do that.
\<close>

subsection \<open>The virtual functions\<close>

datatype rpc_call =
    Call string string string string
  | SendTransaction string string string bool
  | GetTransaction string string string bool
  | GetTransactionReceipt string string string bool
  | GetBlockByHash string string string bool bool
  | GetBlockByNumber string string int bool bool
  | GetBlockHashByNumber string string int
  | GetBlockNumber string string
  | GetContractCode string string string
  | GetSealerList string string
  | GetObserverList string string
  | GetPbftView string string
  | GetPendingTxSize string string
  | GetSyncStatus string string
  | GetConsensusStatus string string
  | GetSystemConfigByKey string string string
  | GetTotalTransactionCount string string
  | GetGroupPeers string
  | GetPeers
  | GetGroupList
  | GetGroupInfo string
  | GetGroupInfoList
  | GetGroupNodeInfo string string

fun perform :: "rpc_env \<Rightarrow> world \<Rightarrow> rpc_call \<Rightarrow> proc" where
  "perform E w (Call g n to data) = call E w g n to data"
| "perform E w (SendTransaction g n data proof) = sendTransaction E w g n data proof"
| "perform E w (GetTransaction g n h proof) = getTransaction E w g n h proof"
| "perform E w (GetTransactionReceipt g n h proof) = getTransactionReceipt E w g n h proof"
| "perform E w (GetBlockByHash g n h hdr txh) = getBlockByHash E w g n h hdr txh"
| "perform E w (GetBlockByNumber g n b hdr txh) = getBlockByNumber E w g n b hdr txh"
| "perform E w (GetBlockHashByNumber g n b) = getBlockHashByNumber E w g n b"
| "perform E w (GetBlockNumber g n) = getBlockNumber E w g n"
| "perform E w (GetContractCode g n addr) = getCode E w g n addr"
| "perform E w (GetSealerList g n) = getSealerList E w g n"
| "perform E w (GetObserverList g n) = getObserverList E w g n"
| "perform E w (GetPbftView g n) = getPbftView E w g n"
| "perform E w (GetPendingTxSize g n) = getPendingTxSize E w g n"
| "perform E w (GetSyncStatus g n) = getSyncStatus E w g n"
| "perform E w (GetConsensusStatus g n) = getConsensusStatus E w g n"
| "perform E w (GetSystemConfigByKey g n k) = getSystemConfigByKey E w g n k"
| "perform E w (GetTotalTransactionCount g n) = getTotalTransactionCount E w g n"
| "perform E w (GetGroupPeers g) = getGroupPeers E w g"
| "perform E w GetPeers = getPeers E w"
| "perform E w GetGroupList = getGroupList E w"
| "perform E w (GetGroupInfo g) = getGroupInfo_method E w g"
| "perform E w GetGroupInfoList = getGroupInfoList E w"
| "perform E w (GetGroupNodeInfo g n) = getGroupNodeInfo E w g n"

subsection \<open>Signatures\<close>

datatype arg = AString string | AInt int | ABool bool

datatype kind = KString | KInt64 | KBool | KBoolOrTrue

definition on_node :: "kind list \<Rightarrow> kind list" where
  "on_node ks = KString # KString # ks"

definition signature :: "string \<Rightarrow> kind list option" where
  "signature = map_of
     [(''call'', on_node [KString, KString]), (''sendTransaction'', on_node [KString, KBool]),
      (''getTransaction'', on_node [KString, KBool]), (''getTransactionReceipt'', on_node [KString, KBool]),
      (''getBlockByHash'', on_node [KString, KBoolOrTrue, KBoolOrTrue]),
      (''getBlockByNumber'', on_node [KInt64, KBoolOrTrue, KBoolOrTrue]),
      (''getBlockHashByNumber'', on_node [KInt64]), (''getBlockNumber'', on_node []),
      (''getCode'', on_node [KString]), (''getSealerList'', on_node []), (''getObserverList'', on_node []),
      (''getPbftView'', on_node []), (''getPendingTxSize'', on_node []), (''getSyncStatus'', on_node []),
      (''getConsensusStatus'', on_node []), (''getSystemConfigByKey'', on_node [KString]),
      (''getTotalTransactionCount'', on_node []), (''getPeers'', []), (''getGroupPeers'', [KString]),
      (''getGroupList'', []), (''getGroupInfo'', [KString]), (''getGroupInfoList'', []),
      (''getGroupNodeInfo'', on_node [])]"

fun read_arg :: "jsoncpp \<Rightarrow> json \<Rightarrow> nat \<Rightarrow> kind \<Rightarrow> exn + arg" where
  "read_arg J req i KString = rbind (rbind (jindex J req i) (jasString J)) (\<lambda>s. Inr (AString s))"
| "read_arg J req i KInt64 = rbind (rbind (jindex J req i) (jasInt64 J)) (\<lambda>n. Inr (AInt n))"
| "read_arg J req i KBool = rbind (rbind (jindex J req i) (jasBool J)) (\<lambda>b. Inr (ABool b))"
| "read_arg J req i KBoolOrTrue =
     (if i < jsize J req then rbind (rbind (jindex J req i) (jasBool J)) (\<lambda>b. Inr (ABool b))
      else Inr (ABool True))"

fun read_args :: "jsoncpp \<Rightarrow> json \<Rightarrow> nat \<Rightarrow> kind list \<Rightarrow> exn + arg list" where
  "read_args J req i [] = Inr []"
| "read_args J req i (k # ks) =
     rbind (read_arg J req i k) (\<lambda>a. rbind (read_args J req (Suc i) ks) (\<lambda>as. Inr (a # as)))"

text \<open>The name under which a function is offered, and the arguments a call has.\<close>

fun method_name :: "rpc_call \<Rightarrow> string" where
  "method_name (Call _ _ _ _) = ''call''"
| "method_name (SendTransaction _ _ _ _) = ''sendTransaction''"
| "method_name (GetTransaction _ _ _ _) = ''getTransaction''"
| "method_name (GetTransactionReceipt _ _ _ _) = ''getTransactionReceipt''"
| "method_name (GetBlockByHash _ _ _ _ _) = ''getBlockByHash''"
| "method_name (GetBlockByNumber _ _ _ _ _) = ''getBlockByNumber''"
| "method_name (GetBlockHashByNumber _ _ _) = ''getBlockHashByNumber''"
| "method_name (GetBlockNumber _ _) = ''getBlockNumber''"
| "method_name (GetContractCode _ _ _) = ''getCode''"
| "method_name (GetSealerList _ _) = ''getSealerList''"
| "method_name (GetObserverList _ _) = ''getObserverList''"
| "method_name (GetPbftView _ _) = ''getPbftView''"
| "method_name (GetPendingTxSize _ _) = ''getPendingTxSize''"
| "method_name (GetSyncStatus _ _) = ''getSyncStatus''"
| "method_name (GetConsensusStatus _ _) = ''getConsensusStatus''"
| "method_name (GetSystemConfigByKey _ _ _) = ''getSystemConfigByKey''"
| "method_name (GetTotalTransactionCount _ _) = ''getTotalTransactionCount''"
| "method_name (GetGroupPeers _) = ''getGroupPeers''"
| "method_name GetPeers = ''getPeers''"
| "method_name GetGroupList = ''getGroupList''"
| "method_name (GetGroupInfo _) = ''getGroupInfo''"
| "method_name GetGroupInfoList = ''getGroupInfoList''"
| "method_name (GetGroupNodeInfo _ _) = ''getGroupNodeInfo''"

fun call_args :: "rpc_call \<Rightarrow> arg list" where
  "call_args (Call g n to data) = [AString g, AString n, AString to, AString data]"
| "call_args (SendTransaction g n data proof) = [AString g, AString n, AString data, ABool proof]"
| "call_args (GetTransaction g n h proof) = [AString g, AString n, AString h, ABool proof]"
| "call_args (GetTransactionReceipt g n h proof) = [AString g, AString n, AString h, ABool proof]"
| "call_args (GetBlockByHash g n h hdr txh) = [AString g, AString n, AString h, ABool hdr, ABool txh]"
| "call_args (GetBlockByNumber g n b hdr txh) = [AString g, AString n, AInt b, ABool hdr, ABool txh]"
| "call_args (GetBlockHashByNumber g n b) = [AString g, AString n, AInt b]"
| "call_args (GetContractCode g n addr) = [AString g, AString n, AString addr]"
| "call_args (GetSystemConfigByKey g n k) = [AString g, AString n, AString k]"
| "call_args (GetBlockNumber g n) = [AString g, AString n]"
| "call_args (GetSealerList g n) = [AString g, AString n]"
| "call_args (GetObserverList g n) = [AString g, AString n]"
| "call_args (GetPbftView g n) = [AString g, AString n]"
| "call_args (GetPendingTxSize g n) = [AString g, AString n]"
| "call_args (GetSyncStatus g n) = [AString g, AString n]"
| "call_args (GetConsensusStatus g n) = [AString g, AString n]"
| "call_args (GetTotalTransactionCount g n) = [AString g, AString n]"
| "call_args (GetGroupNodeInfo g n) = [AString g, AString n]"
| "call_args (GetGroupPeers g) = [AString g]"
| "call_args (GetGroupInfo g) = [AString g]"
| "call_args GetPeers = []"
| "call_args GetGroupList = []"
| "call_args GetGroupInfoList = []"

text \<open>A name and arguments determine the call.\<close>

lemma call_determined:
  "method_name c = method_name d \<Longrightarrow> call_args c = call_args d \<Longrightarrow> c = d"
  by (cases c; cases d) simp_all

text \<open>How a client writes the arguments, and when it can.\<close>

fun arg_json :: "arg \<Rightarrow> json" where
  "arg_json (AString s) = JString s"
| "arg_json (AInt n) = JInt n"
| "arg_json (ABool b) = JBool b"

fun arg_fits :: "arg \<Rightarrow> bool" where
  "arg_fits (AInt n) = in_i64 n"
| "arg_fits _ = True"

subsection \<open>The wrappers read by signature\<close>

text \<open>What a wrapper does: read the parameters, then make the call that has them.\<close>

definition invoke :: "rpc_env \<Rightarrow> world \<Rightarrow> string \<Rightarrow> exn + arg list \<Rightarrow> proc \<Rightarrow> bool" where
  "invoke E w m args p \<longleftrightarrow>
     (case args of Inl x \<Rightarrow> p = Throw x
      | Inr as \<Rightarrow> \<exists>c. method_name c = m \<and> call_args c = as \<and> p = perform E w c)"

lemma performed: "invoke E w (method_name c) (Inr (call_args c)) (perform E w c)"
  by (auto simp: invoke_def)

lemma invoke_Inl: "invoke E w m (Inl x) (Throw x)"
  by (simp add: invoke_def)

lemmas performed_calls =
  performed [of E w "Call g n a d" for E w g n a d, simplified]
  performed [of E w "SendTransaction g n d b" for E w g n d b, simplified]
  performed [of E w "GetTransaction g n h b" for E w g n h b, simplified]
  performed [of E w "GetTransactionReceipt g n h b" for E w g n h b, simplified]
  performed [of E w "GetBlockByHash g n h x y" for E w g n h x y, simplified]
  performed [of E w "GetBlockByNumber g n i x y" for E w g n i x y, simplified]
  performed [of E w "GetBlockHashByNumber g n i" for E w g n i, simplified]
  performed [of E w "GetBlockNumber g n" for E w g n, simplified]
  performed [of E w "GetContractCode g n a" for E w g n a, simplified]
  performed [of E w "GetSealerList g n" for E w g n, simplified]
  performed [of E w "GetObserverList g n" for E w g n, simplified]
  performed [of E w "GetPbftView g n" for E w g n, simplified]
  performed [of E w "GetPendingTxSize g n" for E w g n, simplified]
  performed [of E w "GetSyncStatus g n" for E w g n, simplified]
  performed [of E w "GetConsensusStatus g n" for E w g n, simplified]
  performed [of E w "GetSystemConfigByKey g n k" for E w g n k, simplified]
  performed [of E w "GetTotalTransactionCount g n" for E w g n, simplified]
  performed [of E w "GetGroupPeers g" for E w g, simplified]
  performed [of E w "GetPeers" for E w, simplified]
  performed [of E w "GetGroupList" for E w, simplified]
  performed [of E w "GetGroupInfo g" for E w g, simplified]
  performed [of E w "GetGroupInfoList" for E w, simplified]
  performed [of E w "GetGroupNodeInfo g n" for E w g n, simplified]

lemma read_arg_wrapper:
  "read_arg (re_json E) req i KString = rbind (arg_string E req i) (\<lambda>s. Inr (AString s))"
  "read_arg (re_json E) req i KInt64 = rbind (arg_int64 E req i) (\<lambda>n. Inr (AInt n))"
  "read_arg (re_json E) req i KBool = rbind (arg_bool E req i) (\<lambda>b. Inr (ABool b))"
  "read_arg (re_json E) req i KBoolOrTrue = rbind (arg_bool_or_true E req i) (\<lambda>b. Inr (ABool b))"
  by (simp_all add: arg_string_def arg_int64_def arg_bool_def arg_bool_or_true_def)

text \<open>A parameter is read on both sides; where that fails, the exception is thrown.\<close>

lemma invoke_bind:
  "(\<And>a. invoke E w m (f a) (throwing (g a))) \<Longrightarrow> invoke E w m (rbind r f) (throwing (rbind r g))"
  by (cases r) (simp_all add: invoke_Inl)

lemma invoke_node:
  "(\<And>g n. invoke E w m (f g n) (throwing (h g n))) \<Longrightarrow>
     invoke E w m (rbind (arg_string E req 0) (\<lambda>g. rbind (arg_string E req (Suc 0)) (f g))) (with_node E req h)"
  unfolding with_node_def One_nat_def by (intro invoke_bind)

lemma read_args_bind:
  "read_args (re_json E) req i (KString # ks) =
     rbind (arg_string E req i) (\<lambda>a. rbind (read_args (re_json E) req (Suc i) ks) (\<lambda>as. Inr (AString a # as)))"
  "read_args (re_json E) req i (KInt64 # ks) =
     rbind (arg_int64 E req i) (\<lambda>a. rbind (read_args (re_json E) req (Suc i) ks) (\<lambda>as. Inr (AInt a # as)))"
  "read_args (re_json E) req i (KBool # ks) =
     rbind (arg_bool E req i) (\<lambda>a. rbind (read_args (re_json E) req (Suc i) ks) (\<lambda>as. Inr (ABool a # as)))"
  "read_args (re_json E) req i (KBoolOrTrue # ks) =
     rbind (arg_bool_or_true E req i) (\<lambda>a. rbind (read_args (re_json E) req (Suc i) ks) (\<lambda>as. Inr (ABool a # as)))"
  by (simp_all only: read_args.simps read_arg_wrapper rbind_assoc rbind_simps)

lemma numeral_4_eq_4: "4 = Suc (Suc (Suc (Suc 0)))"
  by simp

lemmas wrapper_simps = read_args_bind read_args.simps(1) on_node_def rbind_assoc
  numeral_2_eq_2 numeral_3_eq_3 numeral_4_eq_4

lemma argument_wrappers:
  "invoke E w ''call'' (read_args (re_json E) req 0 (on_node [KString, KString])) (callI E w req)"
  "invoke E w ''sendTransaction'' (read_args (re_json E) req 0 (on_node [KString, KBool])) (sendTransactionI E w req)"
  "invoke E w ''getTransaction'' (read_args (re_json E) req 0 (on_node [KString, KBool])) (getTransactionI E w req)"
  "invoke E w ''getTransactionReceipt'' (read_args (re_json E) req 0 (on_node [KString, KBool]))
     (getTransactionReceiptI E w req)"
  "invoke E w ''getBlockHashByNumber'' (read_args (re_json E) req 0 (on_node [KInt64])) (getBlockHashByNumberI E w req)"
  "invoke E w ''getCode'' (read_args (re_json E) req 0 (on_node [KString])) (getCodeI E w req)"
  "invoke E w ''getSystemConfigByKey'' (read_args (re_json E) req 0 (on_node [KString])) (getSystemConfigByKeyI E w req)"
  "invoke E w ''getGroupPeers'' (read_args (re_json E) req 0 [KString]) (getGroupPeersI E w req)"
  "invoke E w ''getGroupInfo'' (read_args (re_json E) req 0 [KString]) (getGroupInfoI E w req)"
  unfolding callI_def sendTransactionI_def getTransactionI_def getTransactionReceiptI_def
    getBlockHashByNumberI_def getCodeI_def getSystemConfigByKeyI_def getGroupPeersI_def getGroupInfoI_def
  by (simp_all only: wrapper_simps rbind_simps) ((intro invoke_node invoke_bind)?, simp add: performed_calls)+

lemma block_wrappers:
  "invoke E w ''getBlockByHash'' (read_args (re_json E) req 0 (on_node [KString, KBoolOrTrue, KBoolOrTrue]))
     (getBlockByHashI E w req)"
  "invoke E w ''getBlockByNumber'' (read_args (re_json E) req 0 (on_node [KInt64, KBoolOrTrue, KBoolOrTrue]))
     (getBlockByNumberI E w req)"
  unfolding getBlockByHashI_def getBlockByNumberI_def
  by (simp_all only: wrapper_simps rbind_simps) ((intro invoke_node invoke_bind)?, simp add: performed_calls)+

lemma node_wrappers:
  "invoke E w ''getBlockNumber'' (read_args (re_json E) req 0 (on_node [])) (getBlockNumberI E w req)"
  "invoke E w ''getSealerList'' (read_args (re_json E) req 0 (on_node [])) (getSealerListI E w req)"
  "invoke E w ''getObserverList'' (read_args (re_json E) req 0 (on_node [])) (getObserverListI E w req)"
  "invoke E w ''getPbftView'' (read_args (re_json E) req 0 (on_node [])) (getPbftViewI E w req)"
  "invoke E w ''getPendingTxSize'' (read_args (re_json E) req 0 (on_node [])) (getPendingTxSizeI E w req)"
  "invoke E w ''getSyncStatus'' (read_args (re_json E) req 0 (on_node [])) (getSyncStatusI E w req)"
  "invoke E w ''getConsensusStatus'' (read_args (re_json E) req 0 (on_node [])) (getConsensusStatusI E w req)"
  "invoke E w ''getTotalTransactionCount'' (read_args (re_json E) req 0 (on_node [])) (getTotalTransactionCountI E w req)"
  "invoke E w ''getGroupNodeInfo'' (read_args (re_json E) req 0 (on_node [])) (getGroupNodeInfoI E w req)"
  "invoke E w ''getPeers'' (read_args (re_json E) req 0 []) (getPeersI E w req)"
  "invoke E w ''getGroupList'' (read_args (re_json E) req 0 []) (getGroupListI E w req)"
  "invoke E w ''getGroupInfoList'' (read_args (re_json E) req 0 []) (getGroupInfoListI E w req)"
  unfolding getBlockNumberI_def getSealerListI_def getObserverListI_def getPbftViewI_def
    getPendingTxSizeI_def getSyncStatusI_def getConsensusStatusI_def getTotalTransactionCountI_def
    getGroupNodeInfoI_def getPeersI_def getGroupListI_def getGroupInfoListI_def
  by (simp_all only: wrapper_simps rbind_simps) ((intro invoke_node invoke_bind)?, simp add: performed_calls)+

lemmas wrappers = argument_wrappers block_wrappers node_wrappers

text \<open>The table and the signatures have the same names, in the same order.\<close>

lemma map_of_zip_rel:
  assumes "list_all2 (\<lambda>(k, x) (l, y). k = l \<and> P k x y) xs ys"
  shows "rel_option (P m) (map_of xs m) (map_of ys m)"
  using assms by (induction rule: list_all2_induct) auto

lemma table_signature:
  "rel_option (\<lambda>ks f. invoke E w m (read_args (re_json E) req 0 ks) (f w req)) (signature m) (initMethod E m)"
  unfolding signature_def initMethod_def
  by (rule map_of_zip_rel) (simp add: wrappers del: read_args.simps)

subsection \<open>Requests as calls of the interface\<close>

text \<open>The turn of a request whose method has run up to its first call.\<close>

definition answer_turn :: "rpc_env \<Rightarrow> jsonResponse \<Rightarrow> proc \<Rightarrow> turn" where
  "answer_turn E resp p = (case p of Throw x \<Rightarrow> error_reply E resp x | _ \<Rightarrow> settle E resp p)"

lemma answer_turn_Throw [simp]: "answer_turn E resp (Throw x) = error_reply E resp x"
  by (simp add: answer_turn_def)

lemma onRPCRequest_turn:
  "onRPCRequest E M w body =
     (case parseRpcRequestJson (re_json E) body of
        Inl x \<Rightarrow> error_reply E (new_response (re_junk E)) x
      | Inr rq \<Rightarrow>
          let resp = (new_response (re_junk E))\<lparr>jr_jsonrpc := jq_jsonrpc rq, jr_id := jq_id rq\<rparr>
          in case M (jq_method rq) of
               None \<Rightarrow> error_reply E resp (rpc_throw MethodNotFound ''The method does not exist/is not available.'')
             | Some f \<Rightarrow> answer_turn E resp (f w (jq_params rq)))"
  by (simp add: onRPCRequest_def answer_turn_def Let_def split: sum.split option.split proc.split)

text \<open>Arguments written as JSON are read back by the signature of the call.\<close>

lemma read_written:
  assumes ok: "jsoncpp_ok J" and "list_all arg_fits (call_args c)"
  shows "\<exists>ks. signature (method_name c) = Some ks \<and>
     read_args J (JArray (map arg_json (call_args c))) 0 ks = Inr (call_args c)"
  using assms(2) by (cases c) (simp_all add: signature_def on_node_def json_ok [OF ok])

text \<open>
  C7: every request is a call of the abstract interface or is refused for a stated reason. If
  the text is no request, if no function is offered under the name, or if a parameter of its
  signature cannot be read, the answer is the error for that. Otherwise there is a virtual function
  of that name such that the request runs it on the arguments read, with the response
  carrying the request's version and id. And every call of the interface can be requested: the
  request that names the function and lists the arguments in order runs exactly that call.
\<close>

theorem interface_requests:
  assumes ok: "jsoncpp_ok (re_json E)"
  shows "(case parseRpcRequestJson (re_json E) body of
            Inl x \<Rightarrow> onRPCRequest E (initMethod E) w body = error_reply E (new_response (re_junk E)) x
          | Inr rq \<Rightarrow>
              let resp = (new_response (re_junk E))\<lparr>jr_jsonrpc := jq_jsonrpc rq, jr_id := jq_id rq\<rparr>
              in case signature (jq_method rq) of
                   None \<Rightarrow> onRPCRequest E (initMethod E) w body = error_reply E resp
                     (rpc_throw MethodNotFound ''The method does not exist/is not available.'')
                 | Some ks \<Rightarrow>
                     (case read_args (re_json E) (jq_params rq) 0 ks of
                        Inl x \<Rightarrow> onRPCRequest E (initMethod E) w body = error_reply E resp x
                      | Inr as \<Rightarrow> \<exists>c. method_name c = jq_method rq \<and> call_args c = as \<and>
                          onRPCRequest E (initMethod E) w body = answer_turn E resp (perform E w c))) \<and>
         (\<forall>f v i c. jparse (re_json E) body = Inr (Some (JObject f)) \<and>
            fmlookup f ''jsonrpc'' = Some (JString v) \<and> fmlookup f ''id'' = Some (JInt i) \<and> in_i64 i \<and>
            fmlookup f ''method'' = Some (JString (method_name c)) \<and>
            fmlookup f ''params'' = Some (JArray (map arg_json (call_args c))) \<and>
            list_all arg_fits (call_args c) \<longrightarrow>
            onRPCRequest E (initMethod E) w body = answer_turn E
              ((new_response (re_junk E))\<lparr>jr_jsonrpc := v, jr_id := i\<rparr>) (perform E w c))" (is "?served \<and> ?offered")
proof
  show served: ?served
  proof (cases "parseRpcRequestJson (re_json E) body")
    case (Inr rq)
    note table = table_signature [of E w "jq_method rq" "jq_params rq"]
    show ?thesis
    proof (cases "signature (jq_method rq)")
      case None
      with table Inr show ?thesis by (simp add: onRPCRequest_turn Let_def)
    next
      case (Some ks)
      with table obtain f where f: "initMethod E (jq_method rq) = Some f"
        and inv: "invoke E w (jq_method rq) (read_args (re_json E) (jq_params rq) 0 ks) (f w (jq_params rq))"
        by (auto simp: option_rel_Some1)
      with Some Inr show ?thesis
        by (auto simp: onRPCRequest_turn Let_def invoke_def split: sum.split) blast
    qed
  qed (simp add: onRPCRequest_turn)
  show ?offered
  proof (intro allI impI)
    fix f v i c
    assume a: "jparse (re_json E) body = Inr (Some (JObject f)) \<and>
            fmlookup f ''jsonrpc'' = Some (JString v) \<and> fmlookup f ''id'' = Some (JInt i) \<and> in_i64 i \<and>
            fmlookup f ''method'' = Some (JString (method_name c)) \<and>
            fmlookup f ''params'' = Some (JArray (map arg_json (call_args c))) \<and>
            list_all arg_fits (call_args c)"
    then have "parseRpcRequestJson (re_json E) body = Inr \<lparr>jq_jsonrpc = v, jq_method = method_name c,
        jq_id = i, jq_params = JArray (map arg_json (call_args c))\<rparr>"
      using parse_request_object [OF ok, of f v "method_name c" i] by (simp add: parseRpcRequestJson_def)
    with served read_written [OF ok, of c] a
    show "onRPCRequest E (initMethod E) w body = answer_turn E
              ((new_response (re_junk E))\<lparr>jr_jsonrpc := v, jr_id := i\<rparr>) (perform E w c)"
      by (auto simp: Let_def dest: call_determined)
  qed
qed

text \<open>
  A request for a block by its number that leaves the two flags out asks the ledger for the header
  only.
\<close>

lemma interface_requests_witness:
  "\<exists>c. method_name c = ''getBlockByNumber'' \<and>
     call_args c = [AString ''group0'', AString ''node0'', AInt 5, ABool True, ABool True] \<and>
     onRPCRequest (demo_rpc ''getBlockByNumber'' [JString ''group0'', JString ''node0'', JInt 5])
       (initMethod (demo_rpc ''getBlockByNumber'' [JString ''group0'', JString ''node0'', JInt 5]))
       (gm_world ref_group_api 0 True demo_served) ''body'' =
     answer_turn (demo_rpc ''getBlockByNumber'' [JString ''group0'', JString ''node0'', JInt 5])
       ((new_response 42)\<lparr>jr_jsonrpc := ''2.0'', jr_id := 7\<rparr>)
       (perform (demo_rpc ''getBlockByNumber'' [JString ''group0'', JString ''node0'', JInt 5])
         (gm_world ref_group_api 0 True demo_served) c)"
proof -
  let ?E = "demo_rpc ''getBlockByNumber'' [JString ''group0'', JString ''node0'', JInt 5]"
  have s: "signature ''getBlockByNumber'' = Some (on_node [KInt64, KBoolOrTrue, KBoolOrTrue])"
    by (simp add: signature_def)
  have r: "read_args (re_json ?E) (JArray [JString ''group0'', JString ''node0'', JInt 5]) 0
      (on_node [KInt64, KBoolOrTrue, KBoolOrTrue]) =
      Inr [AString ''group0'', AString ''node0'', AInt 5, ABool True, ABool True]"
    by (simp add: on_node_def json_ok [OF demo_rpc_ok(1)] in_i64_def)
  have j: "re_junk ?E = 42" by (simp add: demo_rpc_def demo_rpc_env_def)
  show ?thesis
    using interface_requests [OF demo_rpc_ok(1), THEN conjunct1,
        of "''getBlockByNumber''" "[JString ''group0'', JString ''node0'', JInt 5]"
        "gm_world ref_group_api 0 True demo_served" "''body''"]
    by (simp only: demo_rpc_parse sum.case jsonRequest.simps Let_def s option.case r j)
qed

end
