(* ===== verification/ProtocolVersion.thy ===== *)
theory ProtocolVersion
  imports RpcJson
begin

text \<open>
  \<^theory_text>\<open>ws/ProtocolVersion.{h,cpp}\<close>: the version object of the handshake. The member has no
  initial value; a fresh object holds whatever the argument of \<open>new_pv\<close> says.
\<close>

datatype pv_enum = PvNone | v1

fun pv_number :: "pv_enum \<Rightarrow> int" where
  "pv_number PvNone = 0"
| "pv_number v1 = 1"

definition CurrentVersion :: pv_enum where
  "CurrentVersion = v1"

record pv =
  pv_protocolVersion :: int

definition new_pv :: "int \<Rightarrow> pv" where
  "new_pv junk = \<lparr>pv_protocolVersion = junk\<rparr>"

definition setProtocolVersion :: "int \<Rightarrow> pv \<Rightarrow> pv" where
  "setProtocolVersion v p = p\<lparr>pv_protocolVersion := v\<rparr>"

definition pv_parse :: "jsoncpp \<Rightarrow> string \<Rightarrow> int attempt" where
  "pv_parse J text =
     rbind (jparse J text) (\<lambda>r. case r of
       None \<Rightarrow> Inr (Inl ''invalid json object'')
     | Some root \<Rightarrow>
         required J root ''protocolVersion'' ''Cannot find 'protocolVersion' field'' (\<lambda>v.
         rbind (jasInt J v) (\<lambda>n. Inr (Inr n))))"

definition pv_fromJson :: "jsoncpp \<Rightarrow> string \<Rightarrow> pv \<Rightarrow> bool \<times> pv" where
  "pv_fromJson J text p =
     (case pv_parse J text of
        Inr (Inr n) \<Rightarrow> (True, setProtocolVersion n p)
      | Inr (Inl msg) \<Rightarrow> (False, p)
      | Inl e \<Rightarrow> (False, p))"

definition pv_toJson :: "pv \<Rightarrow> json" where
  "pv_toJson p = jset [(''protocolVersion'', JInt (pv_protocolVersion p))] JNull"

definition pv_toJsonString :: "jsoncpp \<Rightarrow> pv \<Rightarrow> string" where
  "pv_toJsonString J p = jwrite J (pv_toJson p)"

lemma pv_fromJson_object:
  assumes ok: "jsoncpp_ok J" and "jparse J text = Inr (Some (JObject f))"
    and "fmlookup f ''protocolVersion'' = Some (JInt n)" and "in_i32 n"
  shows "pv_fromJson J text p = (True, p\<lparr>pv_protocolVersion := n\<rparr>)"
  using assms(2-)
  by (simp add: pv_fromJson_def pv_parse_def required_object [OF ok] json_ok [OF ok] setProtocolVersion_def)

lemma pv_roundtrip:
  assumes "jsoncpp_ok J" and "in_i32 (pv_protocolVersion p)"
    and "jparse J (jwrite J (pv_toJson p)) = Inr (Some (pv_toJson p))"
  shows "pv_fromJson J (pv_toJsonString J p) q = (True, p)"
  using pv_fromJson_object [OF assms(1) _ _ assms(2), of "jwrite J (pv_toJson p)"
      "jassign [(''protocolVersion'', JInt (pv_protocolVersion p))] fmempty" q] assms(3)
  by (simp add: pv_toJson_def pv_toJsonString_def)

end
