(* ===== verification/WebService.thy ===== *)
theory WebService
  imports EventParams Transport
begin

text \<open>
  The WebSocket service as \<^theory_text>\<open>RpcFactory\<close> sets it up: its configuration (\<^theory_text>\<open>initConfig\<close>), and what is
  registered with it. The service itself belongs to bcos-boostssl: it keeps one handler for
  each message type, a handler for closed sessions, and, if the library made an HTTP server
  for it, the handler of HTTP requests.
\<close>

subsection \<open>Configuration\<close>

record node_config =
  nc_rpcListenIP :: string
  nc_rpcListenPort :: "16 word"
  nc_rpcThreadPoolSize :: nat
  nc_rpcDisableSsl :: bool
  nc_rpcSmSsl :: bool
  nc_caCert :: string
  nc_nodeCert :: string
  nc_nodeKey :: string
  nc_smCaCert :: string
  nc_smNodeCert :: string
  nc_smNodeKey :: string
  nc_enSmNodeCert :: string
  nc_enSmNodeKey :: string

record cert_config =
  ct_caCert :: string
  ct_nodeCert :: string
  ct_nodeKey :: string

record sm_cert_config =
  sm_caCert :: string
  sm_nodeCert :: string
  sm_nodeKey :: string
  sm_enNodeCert :: string
  sm_enNodeKey :: string

record context_config =
  cx_sslType :: string
  cx_certConfig :: "cert_config option"
  cx_smCertConfig :: "sm_cert_config option"

record ws_config =
  wc_asServer :: bool
  wc_listenIP :: string
  wc_listenPort :: "16 word"
  wc_threadPoolSize :: nat
  wc_disableSsl :: bool
  wc_contextConfig :: "context_config option"

definition initConfig :: "node_config \<Rightarrow> ws_config" where
  "initConfig nc =
     (let wsConfig =
        \<lparr>wc_asServer = True, wc_listenIP = nc_rpcListenIP nc, wc_listenPort = nc_rpcListenPort nc,
         wc_threadPoolSize = nc_rpcThreadPoolSize nc, wc_disableSsl = nc_rpcDisableSsl nc,
         wc_contextConfig = None\<rparr>
      in if nc_rpcDisableSsl nc then wsConfig
         else if \<not> nc_rpcSmSsl nc
         then wsConfig\<lparr>wc_contextConfig := Some
                \<lparr>cx_sslType = ''ssl'',
                 cx_certConfig = Some \<lparr>ct_caCert = nc_caCert nc, ct_nodeCert = nc_nodeCert nc,
                                        ct_nodeKey = nc_nodeKey nc\<rparr>,
                 cx_smCertConfig = None\<rparr>\<rparr>
         else wsConfig\<lparr>wc_contextConfig := Some
                \<lparr>cx_sslType = ''sm_ssl'', cx_certConfig = None,
                 cx_smCertConfig = Some \<lparr>sm_caCert = nc_smCaCert nc, sm_nodeCert = nc_smNodeCert nc,
                                          sm_nodeKey = nc_smNodeKey nc, sm_enNodeCert = nc_enSmNodeCert nc,
                                          sm_enNodeKey = nc_enSmNodeKey nc\<rparr>\<rparr>\<rparr>)"

subsection \<open>The service and its handlers\<close>

datatype handler =
    HandleHandshake | HandleRpcRequest | HandleSubscribe | HandleUnsubscribe
  | HandleSubTopics | HandleAMOPRequest | HandleAMOPBroadcast

record ws_service =
  sv_config :: ws_config
  sv_httpServer :: bool
  sv_handlers :: "int \<Rightarrow> handler option"
  sv_disconnectHandler :: bool          \<comment> \<open>\<^theory_text>\<open>AMOPClient::onClientDisconnect\<close> is registered\<close>
  sv_httpHandler :: bool                \<comment> \<open>\<^theory_text>\<open>onRPCRequest\<close> is the handler of HTTP requests\<close>
  sv_running :: bool

definition buildWsService :: "bool \<Rightarrow> ws_config \<Rightarrow> ws_service" where
  "buildWsService http config =
     \<lparr>sv_config = config, sv_httpServer = http, sv_handlers = Map.empty, sv_disconnectHandler = False,
      sv_httpHandler = False, sv_running = False\<rparr>"

definition registerMsgHandler :: "int \<Rightarrow> handler \<Rightarrow> ws_service \<Rightarrow> ws_service" where
  "registerMsgHandler t h sv = sv\<lparr>sv_handlers := (sv_handlers sv)(t \<mapsto> h)\<rparr>"

text \<open>\<^theory_text>\<open>AMOPClient::initMsgHandler\<close>, and the registrations of \<^theory_text>\<open>buildJsonRpc\<close> and \<^theory_text>\<open>buildEventSub\<close>.\<close>

definition initMsgHandler :: "ws_service \<Rightarrow> ws_service" where
  "initMsgHandler sv =
     (let sv1 = registerMsgHandler (amop_message_code AMOP_SUBTOPIC) HandleSubTopics sv;
          sv2 = registerMsgHandler (amop_message_code AMOP_REQUEST) HandleAMOPRequest sv1;
          sv3 = registerMsgHandler (amop_message_code AMOP_BROADCAST) HandleAMOPBroadcast sv2
      in sv3\<lparr>sv_disconnectHandler := True\<rparr>)"

definition registerHandlers :: "ws_service \<Rightarrow> ws_service" where
  "registerHandlers sv =
     (let sv1 = registerMsgHandler (rpc_message_code HANDESHAKE) HandleHandshake sv
      in registerMsgHandler (rpc_message_code RPC_REQUEST) HandleRpcRequest sv1)"

definition setHttpReqHandler :: "ws_service \<Rightarrow> ws_service" where
  "setHttpReqHandler sv = (if sv_httpServer sv then sv\<lparr>sv_httpHandler := True\<rparr> else sv)"

definition registerEventHandlers :: "ws_service \<Rightarrow> ws_service" where
  "registerEventHandlers sv =
     (let sv1 = registerMsgHandler (event_message_code EVENT_SUBSCRIBE) HandleSubscribe sv
      in registerMsgHandler (event_message_code EVENT_UNSUBSCRIBE) HandleUnsubscribe sv1)"

text \<open>All handlers, in the order of their registration; no two types are the same.\<close>

definition all_handlers :: "(int \<times> handler) list" where
  "all_handlers =
     [(amop_message_code AMOP_SUBTOPIC, HandleSubTopics),
      (amop_message_code AMOP_REQUEST, HandleAMOPRequest),
      (amop_message_code AMOP_BROADCAST, HandleAMOPBroadcast),
      (rpc_message_code HANDESHAKE, HandleHandshake),
      (rpc_message_code RPC_REQUEST, HandleRpcRequest),
      (event_message_code EVENT_SUBSCRIBE, HandleSubscribe),
      (event_message_code EVENT_UNSUBSCRIBE, HandleUnsubscribe)]"

lemma all_handlers_distinct: "distinct (map fst all_handlers)"
  by (simp add: all_handlers_def)

lemma registered_handlers:
  assumes "sv_handlers sv = Map.empty"
  shows "sv_handlers (registerEventHandlers (registerHandlers (setHttpReqHandler (initMsgHandler sv)))) =
           map_of all_handlers"
  by (simp add: registerEventHandlers_def registerHandlers_def setHttpReqHandler_def initMsgHandler_def
      registerMsgHandler_def all_handlers_def assms fun_eq_iff)

end
