(* ===== verification/Rpc.thy ===== *)
theory Rpc
  imports JsonRpc ServedNodes ProtocolVersion EventSub AMOPClient WebService
begin

text \<open>
  \<^theory_text>\<open>Rpc.{h,cpp}\<close> and the handlers of \<^theory_text>\<open>RpcFactory.cpp\<close>: the front end that owns the other
  components and connects them to the WebSocket service.

  \<open>front\<close> is its state: the three components with their own states, the group manager behind
  its interface (\<open>manager\<close>; a local manager keeps the unused tables of its base class), the
  WebSocket service, the senders of the requests handed to the JSON-RPC interface,
  and the log of what was sent. The tag of a request is the position of its sender.
  \<open>front_env\<close> is what a handler sees when it runs: jsoncpp, the sessions the service lists
  (pointers that may be null), which of them are connected, the blank message of the message
  factory, and the environments of the components. The events of the components themselves
  (event subscription, topics) are those of \<open>EventSub\<close> and \<open>AMOPClient\<close>.
\<close>

datatype manager =
    Remote "nodeService gm"
  | Local "nodeService lgm" "nodeService gm"

datatype sender =
    WsSender ws_message "session option"
  | HttpSender nat

datatype front_out =
    WsSend session ws_message
  | SetVersion session int
  | HttpReply nat string
  | NotifyDone nat                     \<comment> \<open>the callback of a notification, with a null error\<close>

record front =
  fr_json :: json_rpc
  fr_manager :: manager
  fr_es :: "nodeService es option"
  fr_amop :: "amop option"
  fr_ws :: "ws_service option"
  fr_senders :: "sender list"
  fr_out :: "front_out list"

record front_env =
  fe_rpc :: rpc_env
  fe_amop :: amop_env
  fe_api :: group_api
  fe_desc :: service_desc
  fe_rand :: nat
  fe_sessions :: "session option list"
  fe_connected :: "session \<Rightarrow> bool"
  fe_message :: ws_message
  fe_active :: "client \<Rightarrow> string list"  \<comment> \<open>active endpoints of a proxy\<close>
  fe_now :: "64 word"                    \<comment> \<open>\<^theory_text>\<open>utcTime()\<close>\<close>

definition front_emit :: "front_out list \<Rightarrow> front \<Rightarrow> front" where
  "front_emit os s = s\<lparr>fr_out := fr_out s @ os\<rparr>"

subsection \<open>The group manager behind its interface\<close>

definition manager_world :: "front_env \<Rightarrow> manager \<Rightarrow> world" where
  "manager_world F m =
     (case m of
        Remote g \<Rightarrow> gm_world (fe_api F) (fe_rand F) True g
      | Local l g \<Rightarrow> lgm_world (fe_api F) (gm_chainID g) True l)"

definition manager_updateGroupBlockInfo :: "string \<Rightarrow> string \<Rightarrow> int \<Rightarrow> manager \<Rightarrow> manager" where
  "manager_updateGroupBlockInfo g n b m =
     (case m of
        Remote s \<Rightarrow> Remote (updateGroupBlockInfo g n b s)
      | Local l s \<Rightarrow> Local (lgm_updateGroupBlockInfo g n b l) s)"

definition manager_registerNotifier :: "manager \<Rightarrow> manager" where
  "manager_registerNotifier m =
     (case m of
        Remote s \<Rightarrow> Remote (registerGroupInfoNotifier s)
      | Local l s \<Rightarrow> Local l (registerGroupInfoNotifier s))"

text \<open>
  \<open>updateGroupInfo\<close> with the group descriptions its notifier was called with. A local manager
  has no factory: an announcement that would build a service goes through a null pointer,
  and the result is \<open>None\<close>.
\<close>

definition manager_updateGroupInfo ::
  "front_env \<Rightarrow> groupInfo \<Rightarrow> manager \<Rightarrow> (exn option \<times> groupInfo list \<times> manager) option" where
  "manager_updateGroupInfo F gi m =
     (case m of
        Remote s \<Rightarrow>
          let (x, t) = updateGroupInfo (fe_api F) (buildNodeService (fe_desc F)) gi s
          in Some (x, drop (length (gm_notified s)) (gm_notified t), Remote t)
      | Local l s \<Rightarrow>
          if gi_groupID gi |\<in>| fmdom (gm_groupInfos s) \<and> fmap_list (gi_nodeInfos gi) \<noteq> [] then None
          else let (x, t) = updateGroupInfo (fe_api F) (\<lambda>_ _ _. None) gi s
               in Some (x, drop (length (gm_notified s)) (gm_notified t), Local l t))"

subsection \<open>The front end\<close>

definition new_front ::
  "json_rpc \<Rightarrow> manager \<Rightarrow> nodeService es option \<Rightarrow> amop option \<Rightarrow> ws_service option \<Rightarrow> front" where
  "new_front json m es am ws =
     \<lparr>fr_json = json, fr_manager = manager_registerNotifier m, fr_es = es, fr_amop = am,
      fr_ws = ws, fr_senders = [], fr_out = []\<rparr>"

text \<open>\<open>None\<close> is a call through a null pointer.\<close>

definition front_start :: "front_env \<Rightarrow> front \<Rightarrow> front option" where
  "front_start F s =
     (case (fr_es s, fr_ws s, fr_amop s) of
        (Some es, Some ws, Some am) \<Rightarrow>
          Some (s\<lparr>fr_es := Some (es_start es), fr_ws := Some (ws\<lparr>sv_running := True\<rparr>), fr_amop := Some (amop_start (fe_amop F) am)\<rparr>)
      | _ \<Rightarrow> None)"

definition front_stop :: "front \<Rightarrow> front" where
  "front_stop s =
     s\<lparr>fr_ws := map_option (\<lambda>ws. ws\<lparr>sv_running := False\<rparr>) (fr_ws s),
       fr_es := map_option es_stop (fr_es s),
       fr_amop := map_option amop_stop (fr_amop s)\<rparr>"

text \<open>A message for every session that is listed, not null and connected.\<close>

definition to_all_sessions :: "front_env \<Rightarrow> rpc_message_type \<Rightarrow> json \<Rightarrow> front_out list" where
  "to_all_sessions F t v =
     map (\<lambda>ss. WsSend ss ((fe_message F)\<lparr>wm_type := rpc_message_code t,
                                        wm_data := jstyled (re_json (fe_rpc F)) v\<rparr>))
       (filter (fe_connected F) (List.map_filter id (fe_sessions F)))"

definition front_notifyGroupInfo :: "front_env \<Rightarrow> groupInfo \<Rightarrow> front_out list" where
  "front_notifyGroupInfo F gi = to_all_sessions F GROUP_NOTIFY (groupInfoToJson gi JNull)"

definition front_asyncNotifyBlockNumber ::
  "front_env \<Rightarrow> string \<Rightarrow> string \<Rightarrow> int \<Rightarrow> nat option \<Rightarrow> front \<Rightarrow> front" where
  "front_asyncNotifyBlockNumber F g n b cb s =
     (let response = jset [(''group'', JString g), (''nodeName'', JString n), (''blockNumber'', JInt b)] JNull;
          s1 = front_emit (to_all_sessions F BLOCK_NOTIFY response) s;
          s2 = (case cb of None \<Rightarrow> s1 | Some c \<Rightarrow> front_emit [NotifyDone c] s1)
      in s2\<lparr>fr_manager := manager_updateGroupBlockInfo g n b (fr_manager s2)\<rparr>)"

text \<open>An exception of \<open>updateGroupInfo\<close> passes through; the callback is then not called.\<close>

definition front_asyncNotifyGroupInfo ::
  "front_env \<Rightarrow> groupInfo \<Rightarrow> nat option \<Rightarrow> front \<Rightarrow> (exn option \<times> front) option" where
  "front_asyncNotifyGroupInfo F gi cb s =
     (case manager_updateGroupInfo F gi (fr_manager s) of
        None \<Rightarrow> None
      | Some (x, told, m) \<Rightarrow>
          let s1 = front_emit (concat (map (front_notifyGroupInfo F) told)) (s\<lparr>fr_manager := m\<rparr>)
          in Some (x, case (x, cb) of (None, Some c) \<Rightarrow> front_emit [NotifyDone c] s1 | _ \<Rightarrow> s1))"

text \<open>The timer of the group manager, and what its notifier sends; a local manager has none.\<close>

definition front_tick :: "front_env \<Rightarrow> front \<Rightarrow> front" where
  "front_tick F s =
     (case fr_manager s of
        Remote g \<Rightarrow>
          let t = updateGroupStatus (fe_api F) (\<lambda>ns. unreachable (fe_active F) ns = Some True) (fe_now F) g;
              told = drop (length (gm_notified g)) (gm_notified t)
          in front_emit (concat (map (front_notifyGroupInfo F) told)) (s\<lparr>fr_manager := Remote t\<rparr>)
      | Local l g \<Rightarrow> s)"

definition front_asyncNotifyAMOPMessage ::
  "front_env \<Rightarrow> amop_notify_type \<Rightarrow> string \<Rightarrow> string \<Rightarrow> nat \<Rightarrow> front \<Rightarrow> front" where
  "front_asyncNotifyAMOPMessage F t topic data n s =
     s\<lparr>fr_amop := map_option (asyncNotifyAMOPMessage (fe_amop F) t topic data n) (fr_amop s)\<rparr>"

definition front_setClientID :: "string \<Rightarrow> front \<Rightarrow> front" where
  "front_setClientID c s =
     s\<lparr>fr_json := setClientID_rpc c (fr_json s), fr_amop := map_option (AMOPClient.setClientID c) (fr_amop s)\<rparr>"

definition front_asyncNotifySubscribeTopic :: "front_env \<Rightarrow> nat option \<Rightarrow> front \<Rightarrow> front" where
  "front_asyncNotifySubscribeTopic F cb s =
     (let s1 = s\<lparr>fr_amop := map_option (asyncNotifySubscribeTopic (fe_amop F)) (fr_amop s)\<rparr>
      in case cb of None \<Rightarrow> s1 | Some c \<Rightarrow> front_emit [NotifyDone c] s1)"

subsection \<open>The handlers the factory registers\<close>

text \<open>
  The handshake sets the version of the session and answers with the group list; the group
  list comes back in the same call. The session is used without a test.
\<close>

definition onHandshake :: "front_env \<Rightarrow> ws_message \<Rightarrow> session \<Rightarrow> front \<Rightarrow> front" where
  "onHandshake F msg ss s =
     (let version = pv_number CurrentVersion;
          s1 = front_emit [SetVersion ss version] s
      in case getGroupInfoList (fe_rpc F) (manager_world F (fr_manager s1)) of
           Respond e groups \<Rightarrow>
             if failed e then s1
             else let jResult = jset [(''groupInfoList'', groups)]
                        (pv_toJson (setProtocolVersion version (new_pv (re_junk (fe_rpc F)))))
                  in front_emit [WsSend ss (msg\<lparr>wm_data := jwrite (re_json (fe_rpc F)) jResult\<rparr>)] s1
         | _ \<Rightarrow> s1)"

text \<open>
  The sender of a WebSocket request puts the text into the request's message and sends it
  back if the session is still there; else the text is dropped with a warning.
\<close>

definition deliver :: "front_env \<Rightarrow> sender \<Rightarrow> string \<Rightarrow> front_out list" where
  "deliver F sd text =
     (case sd of
        WsSender msg so \<Rightarrow>
          (case so of
             None \<Rightarrow> []
           | Some ss \<Rightarrow> if fe_connected F ss then [WsSend ss (msg\<lparr>wm_data := text\<rparr>)] else [])
      | HttpSender n \<Rightarrow> [HttpReply n text])"

definition flush :: "front_env \<Rightarrow> nat \<Rightarrow> front \<Rightarrow> front" where
  "flush F k s =
     front_emit (concat (map (\<lambda>(tag, text). deliver F (fr_senders s ! tag) text)
       (drop k (jp_sent (fr_json s))))) s"

definition onSenderRequest :: "front_env \<Rightarrow> sender \<Rightarrow> string \<Rightarrow> front \<Rightarrow> front" where
  "onSenderRequest F sd body s =
     (let tag = length (fr_senders s);
          w = manager_world F (fr_manager s);
          json = take_turn tag (onRPCRequest (fe_rpc F) (jp_methods (fr_json s)) w body) (fr_json s)
      in flush F (length (jp_sent (fr_json s))) (s\<lparr>fr_json := json, fr_senders := fr_senders s @ [sd]\<rparr>))"

definition onRpcRequestMessage :: "front_env \<Rightarrow> ws_message \<Rightarrow> session option \<Rightarrow> front \<Rightarrow> front" where
  "onRpcRequestMessage F msg so s = onSenderRequest F (WsSender msg so) (wm_data msg) s"

definition onHttpRequest :: "front_env \<Rightarrow> nat \<Rightarrow> string \<Rightarrow> front \<Rightarrow> front" where
  "onHttpRequest F n body s = onSenderRequest F (HttpSender n) body s"

text \<open>A call of the JSON-RPC interface is answered in the world of the moment.\<close>

definition onCallAnswered ::
  "front_env \<Rightarrow> nat \<Rightarrow> rpc_error option \<Rightarrow> results \<Rightarrow> front \<Rightarrow> front option" where
  "onCallAnswered F i e r s =
     (case answer_call (fe_rpc F) i (manager_world F (fr_manager s)) e r (fr_json s) of
        None \<Rightarrow> None
      | Some json \<Rightarrow> Some (flush F (length (jp_sent (fr_json s))) (s\<lparr>fr_json := json\<rparr>)))"

end
