(* ===== verification/RpcFactory.thy ===== *)
theory RpcFactory
  imports Rpc
begin

text \<open>
  \<^theory_text>\<open>RpcFactory.{h,cpp}\<close>: what the registered handlers do, the building of a front end, and the
  steps of what was built. The handlers of topics are registered by the constructor of
  \<^theory_text>\<open>AMOPClient\<close>, then those of the JSON-RPC interface, then those of event subscriptions.
\<close>

subsection \<open>Handlers\<close>

text \<open>What the event service sees: the group manager is asked without a node name.\<close>

definition sub_env :: "front_env \<Rightarrow> manager \<Rightarrow> nodeService es_env" where
  "sub_env F m =
     \<lparr>env_json = re_json (fe_rpc F), env_hex = re_hex (fe_rpc F),
      env_service = (\<lambda>g. rw_getNodeService (manager_world F m) g ''''),
      env_connected = fe_connected F, env_message = fe_message F\<rparr>"

text \<open>The event handlers hold weak pointers: without the service they do nothing.\<close>

fun handle :: "front_env \<Rightarrow> handler \<Rightarrow> ws_message \<Rightarrow> session \<Rightarrow> front \<Rightarrow> front" where
  "handle F HandleHandshake msg ss s = onHandshake F msg ss s"
| "handle F HandleRpcRequest msg ss s = onRpcRequestMessage F msg (Some ss) s"
| "handle F HandleSubscribe msg ss s =
     s\<lparr>fr_es := map_option (onRecvSubscribeEvent (sub_env F (fr_manager s)) msg ss) (fr_es s)\<rparr>"
| "handle F HandleUnsubscribe msg ss s =
     s\<lparr>fr_es := map_option (onRecvUnsubscribeEvent (sub_env F (fr_manager s)) msg ss) (fr_es s)\<rparr>"
| "handle F HandleSubTopics msg ss s =
     s\<lparr>fr_amop := map_option (onRecvSubTopics (fe_amop F) msg ss) (fr_amop s)\<rparr>"
| "handle F HandleAMOPRequest msg ss s =
     s\<lparr>fr_amop := map_option (\<lambda>a. snd (onRecvAMOPRequest (fe_amop F) msg ss a)) (fr_amop s)\<rparr>"
| "handle F HandleAMOPBroadcast msg ss s =
     s\<lparr>fr_amop := map_option (\<lambda>a. snd (onRecvAMOPBroadcast (fe_amop F) msg a)) (fr_amop s)\<rparr>"

definition onMessage :: "front_env \<Rightarrow> ws_message \<Rightarrow> session \<Rightarrow> front \<Rightarrow> front" where
  "onMessage F msg ss s =
     (case Option.bind (fr_ws s) (\<lambda>sv. sv_handlers sv (wm_type msg)) of
        None \<Rightarrow> s | Some h \<Rightarrow> handle F h msg ss s)"

subsection \<open>Building a front end\<close>

text \<open>
  \<open>ni\<close> is the node information of a fresh JSON-RPC object and \<open>now\<close> the value of
  \<^theory_text>\<open>utcTime()\<close>. The constructor of a local group manager takes no start time: the member
  keeps its default, zero.
\<close>

definition buildGroupManager :: "string \<Rightarrow> 64 word \<Rightarrow> manager" where
  "buildGroupManager chain now = Remote (new_gm chain now)"

definition buildLocalGroupManager :: "string \<Rightarrow> groupInfo \<Rightarrow> nodeService option \<Rightarrow> manager" where
  "buildLocalGroupManager chain gi ns =
     Local \<lparr>lgm_nodeService = ns, lgm_groupInfo = gi\<rparr> (new_gm chain 0)"

definition buildAMOPClient :: "ws_service \<Rightarrow> string \<Rightarrow> amop \<times> ws_service" where
  "buildAMOPClient sv gatewayServiceName = (new_amop False gatewayServiceName, initMsgHandler sv)"

definition buildLocalAMOPClient :: "ws_service \<Rightarrow> amop \<times> ws_service" where
  "buildLocalAMOPClient sv = (new_local_amop, initMsgHandler sv)"

definition buildJsonRpc :: "rpc_env \<Rightarrow> node_info \<Rightarrow> ws_service \<Rightarrow> json_rpc \<times> ws_service" where
  "buildJsonRpc E ni sv = (new_json_rpc E ni, registerHandlers (setHttpReqHandler sv))"

definition buildEventSub :: "ws_service \<Rightarrow> nodeService es \<times> ws_service" where
  "buildEventSub sv = (new_es, registerEventHandlers sv)"

definition buildRpc_from :: "rpc_env \<Rightarrow> node_info \<Rightarrow> ws_service \<Rightarrow> manager \<Rightarrow> amop \<Rightarrow> front" where
  "buildRpc_from E ni sv m am =
     (let (json, sv1) = buildJsonRpc E ni sv; (es, sv2) = buildEventSub sv1
      in new_front json m (Some es) (Some am) (Some sv2))"

text \<open>
  The members of a factory, with the node configuration set; \<open>fy_httpServer\<close> says whether
  bcos-boostssl makes an HTTP server for the configuration.
\<close>

record rpc_factory =
  fy_chainID :: string
  fy_nodeConfig :: node_config
  fy_httpServer :: bool

definition setNodeConfig :: "node_config \<Rightarrow> rpc_factory \<Rightarrow> rpc_factory" where
  "setNodeConfig nc fy = fy\<lparr>fy_nodeConfig := nc\<rparr>"

definition buildRpc :: "rpc_env \<Rightarrow> node_info \<Rightarrow> rpc_factory \<Rightarrow> 64 word \<Rightarrow> string \<Rightarrow> front" where
  "buildRpc E ni fy now gatewayServiceName =
     (let config = initConfig (fy_nodeConfig fy);
          wsService = buildWsService (fy_httpServer fy) config;
          groupManager = buildGroupManager (fy_chainID fy) now;
          (amopClient, wsService1) = buildAMOPClient wsService gatewayServiceName
      in buildRpc_from E ni wsService1 groupManager amopClient)"

definition buildLocalRpc ::
  "rpc_env \<Rightarrow> node_info \<Rightarrow> rpc_factory \<Rightarrow> groupInfo \<Rightarrow> nodeService option \<Rightarrow> front" where
  "buildLocalRpc E ni fy gi ns =
     (let config = initConfig (fy_nodeConfig fy);
          wsService = buildWsService (fy_httpServer fy) config;
          groupManager = buildLocalGroupManager (fy_chainID fy) gi ns;
          (amopClient, wsService1) = buildLocalAMOPClient wsService
      in buildRpc_from E ni wsService1 groupManager amopClient)"

text \<open>
  What happens to the topic client and to the event service without the front end: timers,
  closed sessions, and the answers of gateways, clients and ledgers. The service takes a step
  under the conditions of its step relation.
\<close>

datatype amop_own =
    GatewayPing
  | GatewayReplies nat "rpc_error option" string
  | ClientReplies nat "rpc_error option" "ws_message option"
  | SessionCloses session

fun amop_own_event :: "amop_env \<Rightarrow> amop_own \<Rightarrow> amop_event" where
  "amop_own_event E GatewayPing = AmopPing E"
| "amop_own_event E (GatewayReplies i err resp) = GatewayAnswered E i err resp"
| "amop_own_event E (ClientReplies i err resp) = ClientAnswered E i err resp"
| "amop_own_event E (SessionCloses ss) = Disconnected E ss"

datatype es_own =
    WorkerPass "string list"
  | LedgerNumber nat nodeService nat "rpc_error option" int
  | LedgerBlock nat nodeService nat int int "rpc_error option" block

fun es_own_event :: "nodeService es_env \<Rightarrow> es_own \<Rightarrow> nodeService es_event" where
  "es_own_event E (WorkerPass order) = Worker E order"
| "es_own_event E (LedgerNumber i ns r err n) = NumberReply E i ns r err n"
| "es_own_event E (LedgerBlock i ns r b e err blk) = BlockReply E i ns r b e err blk"

fun es_own_apply :: "nodeService es_env \<Rightarrow> es_own \<Rightarrow> nodeService es \<Rightarrow> nodeService es option" where
  "es_own_apply E (WorkerPass order) s =
     (if es_running s \<and> distinct order \<and>
         fset_of_list order = fmdom (es_tasks (executeAddTasks (executeCancelTasks s)))
      then Some (executeWorker E order s) else None)"
| "es_own_apply E (LedgerNumber i ns r err n) s =
     (if i < length (es_calls s) \<and> es_calls s ! i = PNumber ns r \<and> 0 \<le> n \<and> n < 2 ^ 63 - 1
      then Some (onBlockNumber E r err n (take_call i s)) else None)"
| "es_own_apply E (LedgerBlock i ns r b e err blk) s =
     (if i < length (es_calls s) \<and> es_calls s ! i = PBlock ns r b e
      then Some (onBlockData E r b e err blk (take_call i s)) else None)"

lemma es_own_apply_step: "es_own_apply E own s = Some t \<Longrightarrow> es_step s (es_own_event E own) t"
  by (cases own) (auto intro: es_step.intros split: if_splits)

text \<open>
  The steps of a front end: messages and HTTP requests that come in, answers to calls of the
  JSON-RPC interface, notifications from the nodes, the timer, the setters, start and stop.
  \<open>None\<close> is a step that cannot be taken: an answer that fits no call in flight, an HTTP
  request without a server for it, or a null pointer.
\<close>

datatype front_event =
    FMessage ws_message session
  | FHttp nat string
  | FAnswered nat "rpc_error option" results
  | FBlock string string int "nat option"
  | FGroup groupInfo "nat option"
  | FTick
  | FTopic amop_notify_type string string nat
  | FRenotify "nat option"
  | FTopics amop_own
  | FEvents es_own
  | FClientID string
  | FStart
  | FStop

fun front_apply :: "front_env \<Rightarrow> front_event \<Rightarrow> front \<Rightarrow> front option" where
  "front_apply F (FMessage msg ss) s = Some (onMessage F msg ss s)"
| "front_apply F (FHttp n body) s =
     (case fr_ws s of
        None \<Rightarrow> None
      | Some sv \<Rightarrow> if sv_httpHandler sv then Some (onHttpRequest F n body s) else None)"
| "front_apply F (FAnswered i e r) s = onCallAnswered F i e r s"
| "front_apply F (FBlock g n b cb) s = Some (front_asyncNotifyBlockNumber F g n b cb s)"
| "front_apply F (FGroup gi cb) s = map_option snd (front_asyncNotifyGroupInfo F gi cb s)"
| "front_apply F FTick s = Some (front_tick F s)"
| "front_apply F (FTopic t topic data n) s = Some (front_asyncNotifyAMOPMessage F t topic data n s)"
| "front_apply F (FRenotify cb) s = Some (front_asyncNotifySubscribeTopic F cb s)"
| "front_apply F (FTopics own) s =
     Some (s\<lparr>fr_amop := map_option (amop_apply (amop_own_event (fe_amop F) own)) (fr_amop s)\<rparr>)"
| "front_apply F (FEvents own) s =
     (case fr_es s of
        None \<Rightarrow> None
      | Some e \<Rightarrow> map_option (\<lambda>e'. s\<lparr>fr_es := Some e'\<rparr>) (es_own_apply (sub_env F (fr_manager s)) own e))"
| "front_apply F (FClientID c) s = Some (front_setClientID c s)"
| "front_apply F FStart s = front_start F s"
| "front_apply F FStop s = Some (front_stop s)"

text \<open>
  The libraries, the configured names and the sessions' endpoints do not change, and the group
  descriptions are those of bcos-framework.
\<close>

definition same_surroundings ::
  "rpc_env \<Rightarrow> group_api \<Rightarrow> service_desc \<Rightarrow> (session \<Rightarrow> string) \<Rightarrow> front_env \<Rightarrow> bool" where
  "same_surroundings E A D ep F \<longleftrightarrow>
     fe_rpc F = E \<and> fe_api F = A \<and> fe_desc F = D \<and> ae_endPoint (fe_amop F) = ep \<and> group_api_ok A"

inductive front_step ::
  "rpc_env \<Rightarrow> group_api \<Rightarrow> service_desc \<Rightarrow> (session \<Rightarrow> string) \<Rightarrow>
     front \<Rightarrow> front_env \<times> front_event \<Rightarrow> front \<Rightarrow> bool"
  for E A D ep where
  front_step: "same_surroundings E A D ep F \<Longrightarrow> (\<forall>gi cb. ev = FGroup gi cb \<longrightarrow> group_wf gi) \<Longrightarrow>
     front_apply F ev s = Some t \<Longrightarrow> front_step E A D ep s (F, ev) t"

inductive_cases front_step_cases: "front_step E A D ep s fe t"

end
