(* ===== verification/RpcProps.thy ===== *)
theory RpcProps
  imports RpcFactory JsonRpcProps EventSubProps AMOPProps
begin

text \<open>
  The composition: the components of a front end behave as runs of their own step relations,
  so that what was shown of each of them holds behind the front end, and every request to a
  front end comes to a response.
\<close>

subsection \<open>The components of a front end\<close>

definition reaches :: "('s \<Rightarrow> 'e \<Rightarrow> 's \<Rightarrow> bool) \<Rightarrow> 's \<Rightarrow> 's \<Rightarrow> bool" where
  "reaches step init s \<longleftrightarrow> (\<exists>es. run step init es s)"

lemma reaches_init [simp]: "reaches step s s"
  by (auto simp: reaches_def intro: run_nil)

lemma reaches_step: "reaches step init s \<Longrightarrow> step s e t \<Longrightarrow> reaches step init t"
  by (auto simp: reaches_def intro: run_snoc)

text \<open>A group manager whose announcements are handled with the factory of the program.\<close>

definition node_step :: "group_api \<Rightarrow> service_desc \<Rightarrow> nodeService gm \<Rightarrow> nodeService gm_event \<Rightarrow>
    nodeService gm \<Rightarrow> bool" where
  "node_step A D s e t \<longleftrightarrow> gm_step A s e t \<and> (\<forall>gi build. e = Announce gi build \<longrightarrow> build = buildNodeService D)"

definition manager_ok :: "group_api \<Rightarrow> service_desc \<Rightarrow> manager \<Rightarrow> manager \<Rightarrow> bool" where
  "manager_ok A D m0 m \<longleftrightarrow>
     (case m0 of
        Remote g0 \<Rightarrow> (\<exists>g. m = Remote g \<and> reaches (node_step A D) g0 g)
      | Local l0 g0 \<Rightarrow> (\<exists>g. m = Local l0 g))"

text \<open>
  \<open>components m0 am0 s\<close>: the components of \<open>s\<close> are reached from those it was built with by
  their own steps.
\<close>

definition components ::
  "rpc_env \<Rightarrow> group_api \<Rightarrow> service_desc \<Rightarrow> (session \<Rightarrow> string) \<Rightarrow> node_info \<Rightarrow> manager \<Rightarrow> amop \<Rightarrow> front \<Rightarrow> bool" where
  "components E A D ep ni m0 am0 s \<longleftrightarrow>
     manager_ok A D m0 (fr_manager s) \<and>
     reaches (rpc_step E) (new_json_rpc E ni) (fr_json s) \<and>
     (\<exists>e. fr_es s = Some e \<and> reaches es_step new_es e) \<and>
     (\<exists>a. fr_amop s = Some a \<and> reaches (amop_step ep) am0 a)"

lemma components_out [simp]:
  "components E A D ep ni m0 am0 (front_emit os s) = components E A D ep ni m0 am0 s"
  by (simp add: components_def front_emit_def)

lemma node_step_intros:
  "group_api_ok A \<Longrightarrow> group_wf gi \<Longrightarrow>
     node_step A D s (Announce gi (buildNodeService D)) (snd (updateGroupInfo A (buildNodeService D) gi s))"
  "node_step A D s (BlockNote g n b) (updateGroupBlockInfo g n b s)"
  "group_api_ok A \<Longrightarrow> node_step A D s (Tick now u) (updateGroupStatus A u now s)"
  "node_step A D s RegisterNotifier (registerGroupInfoNotifier s)"
  by (auto simp: node_step_def intro: gm_step.intros)

lemma manager_ok_block:
  "manager_ok A D m0 m \<Longrightarrow> manager_ok A D m0 (manager_updateGroupBlockInfo g n b m)"
  by (auto simp: manager_ok_def manager_updateGroupBlockInfo_def lgm_updateGroupBlockInfo_def
      split: manager.splits intro: reaches_step node_step_intros)

lemma manager_ok_group:
  assumes "manager_ok A D m0 m" and F: "same_surroundings E A D ep F" and "group_wf gi"
    and "manager_updateGroupInfo F gi m = Some (x, told, m')"
  shows "manager_ok A D m0 m'"
proof (cases m0)
  case (Remote g0)
  with assms(1) obtain g where g: "m = Remote g" "reaches (node_step A D) g0 g"
    by (auto simp: manager_ok_def)
  from assms(4) g(1) F have "m' = Remote (snd (updateGroupInfo A (buildNodeService D) gi g))"
    by (auto simp: manager_updateGroupInfo_def same_surroundings_def split: prod.splits)
  moreover have "group_api_ok A" using F by (simp add: same_surroundings_def)
  ultimately show ?thesis
    using reaches_step [OF g(2) node_step_intros(1)] assms(3) by (simp add: manager_ok_def Remote)
next
  case (Local l0 g0)
  with assms(1,4) show ?thesis
    by (auto simp: manager_ok_def manager_updateGroupInfo_def split: if_splits prod.splits)
qed

lemma components_manager:
  "components E A D ep ni m0 am0 s \<Longrightarrow> manager_ok A D m0 m \<Longrightarrow>
     components E A D ep ni m0 am0 (s\<lparr>fr_manager := m\<rparr>)"
  by (simp add: components_def)

lemma components_amop:
  assumes "components E A D ep ni m0 am0 s" and "\<And>a. amop_step ep a ev (f a)"
  shows "components E A D ep ni m0 am0 (s\<lparr>fr_amop := map_option f (fr_amop s)\<rparr>)"
  using assms by (auto simp: components_def intro: reaches_step)

lemma components_es:
  assumes "components E A D ep ni m0 am0 s" and "\<And>e. es_step e ev (f e)"
  shows "components E A D ep ni m0 am0 (s\<lparr>fr_es := map_option f (fr_es s)\<rparr>)"
  using assms by (auto simp: components_def intro: reaches_step)

lemma components_json:
  assumes "components E A D ep ni m0 am0 s" and "rpc_step E (fr_json s) ev j"
  shows "components E A D ep ni m0 am0 (s\<lparr>fr_json := j\<rparr>)"
  using assms by (auto simp: components_def intro: reaches_step)

lemma components_senders [simp]:
  "components E A D ep ni m0 am0 (s\<lparr>fr_senders := x\<rparr>) = components E A D ep ni m0 am0 s"
  "components E A D ep ni m0 am0 (s\<lparr>fr_ws := y\<rparr>) = components E A D ep ni m0 am0 s"
  by (simp_all add: components_def)

lemma amop_step_apply:
  "ae_endPoint (AMOPClient.event_env ev) = ep \<Longrightarrow> t = amop_apply ev a \<Longrightarrow> amop_step ep a ev t"
  by (simp add: amop_step.intros)

lemma components_request:
  assumes "components E A D ep ni m0 am0 s" and "fe_rpc F = E"
  shows "components E A D ep ni m0 am0 (onSenderRequest F sd body s)"
proof -
  let ?j = "take_turn (length (fr_senders s))
      (onRPCRequest E (jp_methods (fr_json s)) (manager_world F (fr_manager s)) body) (fr_json s)"
  have "components E A D ep ni m0 am0 (s\<lparr>fr_json := ?j\<rparr>)"
    by (rule components_json [OF assms(1) rpc_request])
  then have "components E A D ep ni m0 am0 (s\<lparr>fr_json := ?j\<rparr>\<lparr>fr_senders := fr_senders s @ [sd]\<rparr>)"
    by (simp only: components_senders)
  then show ?thesis
    by (simp add: onSenderRequest_def flush_def Let_def assms(2))
qed

lemma components_message:
  assumes c: "components E A D ep ni m0 am0 s" and F: "same_surroundings E A D ep F"
    and J: "json_ranged (re_json E)"
  shows "components E A D ep ni m0 am0 (handle F h msg ss s)"
proof (cases h)
  case HandleHandshake
  have "\<exists>os. onHandshake F msg ss s = front_emit os s"
    by (auto simp: onHandshake_def Let_def front_emit_def split: proc.split intro: exI [where x = "[SetVersion ss 1]"])
  with c HandleHandshake show ?thesis by auto
next
  case HandleRpcRequest
  with components_request [OF c] F show ?thesis
    by (simp add: same_surroundings_def onRpcRequestMessage_def)
next
  case HandleSubscribe
  have "json_ranged (env_json (sub_env F (fr_manager s)))"
    using J F by (simp add: sub_env_def same_surroundings_def)
  then show ?thesis
    using components_es [OF c es_step.subscribe] HandleSubscribe by simp
next
  case HandleUnsubscribe
  then show ?thesis using components_es [OF c es_step.unsubscribe] by simp
next
  case HandleSubTopics
  have st: "amop_step ep a (SubTopics (fe_amop F) msg ss) (onRecvSubTopics (fe_amop F) msg ss a)" for a
    using F by (intro amop_step_apply) (simp_all add: same_surroundings_def)
  from components_amop [OF c st] show ?thesis by (simp add: HandleSubTopics)
next
  case HandleAMOPRequest
  have st: "amop_step ep a (Request (fe_amop F) msg ss) (snd (onRecvAMOPRequest (fe_amop F) msg ss a))" for a
    using F by (intro amop_step_apply) (simp_all add: same_surroundings_def)
  from components_amop [OF c st] show ?thesis by (simp add: HandleAMOPRequest)
next
  case HandleAMOPBroadcast
  have st: "amop_step ep a (BroadcastMsg (fe_amop F) msg) (snd (onRecvAMOPBroadcast (fe_amop F) msg a))" for a
    using F by (intro amop_step_apply) (simp_all add: same_surroundings_def)
  from components_amop [OF c st] show ?thesis by (simp add: HandleAMOPBroadcast)
qed

lemma components_apply:
  assumes c: "components E A D ep ni m0 am0 s" and F: "same_surroundings E A D ep F"
    and J: "json_ranged (re_json E)" and g: "\<forall>gi cb. ev = FGroup gi cb \<longrightarrow> group_wf gi"
    and t: "front_apply F ev s = Some t"
  shows "components E A D ep ni m0 am0 t"
proof (cases ev)
  case (FMessage msg ss)
  with t components_message [OF c F J] c show ?thesis
    by (auto simp: onMessage_def split: option.splits)
next
  case (FHttp n body)
  with t components_request [OF c] F show ?thesis
    by (auto simp: onHttpRequest_def same_surroundings_def split: option.splits if_splits)
next
  case (FAnswered i e r)
  with t obtain j where j: "answer_call (fe_rpc F) i (manager_world F (fr_manager s)) e r (fr_json s) = Some j"
    and "t = flush F (length (jp_sent (fr_json s))) (s\<lparr>fr_json := j\<rparr>)"
    by (auto simp: onCallAnswered_def split: option.splits)
  moreover have "fe_rpc F = E" using F by (simp add: same_surroundings_def)
  ultimately show ?thesis
    using components_json [OF c rpc_answer] by (simp add: flush_def)
next
  case (FBlock g n b cb)
  have m: "manager_ok A D m0 (fr_manager s)" using c by (simp add: components_def)
  obtain os where "t = front_emit os s\<lparr>fr_manager := manager_updateGroupBlockInfo g n b (fr_manager s)\<rparr>"
    using t FBlock by (auto simp: front_asyncNotifyBlockNumber_def Let_def front_emit_def split: option.splits)
  then show ?thesis
    using components_manager [OF _ manager_ok_block [OF m], of E ep ni am0 "front_emit os s"] c by simp
next
  case (FGroup gi cb)
  then obtain x told m os where u: "manager_updateGroupInfo F gi (fr_manager s) = Some (x, told, m)"
    and "t = front_emit os (s\<lparr>fr_manager := m\<rparr>)"
    using t by (auto simp: front_asyncNotifyGroupInfo_def Let_def front_emit_def split: option.splits)
  moreover have "manager_ok A D m0 m"
    using c g FGroup by (intro manager_ok_group [OF _ F _ u]) (simp_all add: components_def)
  ultimately show ?thesis
    using components_manager [OF c] by simp
next
  case FTick
  show ?thesis
  proof (cases "fr_manager s")
    case (Remote g)
    let ?t = "updateGroupStatus (fe_api F) (\<lambda>ns. unreachable (fe_active F) ns = Some True) (fe_now F) g"
    have "manager_ok A D m0 (Remote ?t)"
      using c F Remote by (auto simp: components_def manager_ok_def same_surroundings_def
          split: manager.splits intro: reaches_step node_step_intros)
    from components_manager [OF c this] show ?thesis
      using t FTick Remote by (auto simp: front_tick_def Let_def)
  qed (use t FTick c in \<open>simp add: front_tick_def\<close>)
next
  case (FTopic k topic data n)
  have st: "amop_step ep a (Notified (fe_amop F) k topic data n) (asyncNotifyAMOPMessage (fe_amop F) k topic data n a)" for a
    using F by (intro amop_step_apply) (simp_all add: same_surroundings_def)
  from components_amop [OF c st] t FTopic show ?thesis
    by (auto simp: front_asyncNotifyAMOPMessage_def)
next
  case (FRenotify cb)
  have st: "amop_step ep a (Renotify (fe_amop F)) (asyncNotifySubscribeTopic (fe_amop F) a)" for a
    using F by (intro amop_step_apply) (simp_all add: same_surroundings_def)
  from components_amop [OF c st] t FRenotify show ?thesis
    by (auto simp: front_asyncNotifySubscribeTopic_def Let_def split: option.splits)
next
  case (FTopics own)
  have st: "amop_step ep a (amop_own_event (fe_amop F) own) (amop_apply (amop_own_event (fe_amop F) own) a)" for a
    using F by (intro amop_step_apply; cases own) (simp_all add: same_surroundings_def)
  from components_amop [OF c st] t FTopics show ?thesis by auto
next
  case (FEvents own)
  then obtain e e' where e: "fr_es s = Some e" "es_own_apply (sub_env F (fr_manager s)) own e = Some e'"
    "t = s\<lparr>fr_es := Some e'\<rparr>"
    using t by (auto split: option.splits)
  with c have "reaches es_step new_es e'"
    by (auto simp: components_def intro: reaches_step es_own_apply_step)
  then show ?thesis using c e by (simp add: components_def)
next
  case (FClientID cl)
  have st: "amop_step ep a (Renamed (fe_amop F) cl) (AMOPClient.setClientID cl a)" for a
    using F by (intro amop_step_apply) (simp_all add: same_surroundings_def)
  from components_amop [OF components_json [OF c rpc_client] st] t FClientID show ?thesis
    by (auto simp: front_setClientID_def)
next
  case FStart
  then obtain e ws am where s: "fr_es s = Some e" "fr_ws s = Some ws" "fr_amop s = Some am"
    "t = s\<lparr>fr_es := Some (es_start e), fr_ws := Some (ws\<lparr>sv_running := True\<rparr>), fr_amop := Some (amop_start (fe_amop F) am)\<rparr>"
    using t by (auto simp: front_start_def split: option.splits)
  have "amop_step ep am (AmopStart (fe_amop F)) (amop_start (fe_amop F) am)"
    using F by (intro amop_step_apply) (simp_all add: same_surroundings_def)
  with c s es_step.start [of e] show ?thesis
    by (auto simp: components_def intro: reaches_step)
next
  case FStop
  have st: "amop_step ep a (AmopStop (fe_amop F)) (amop_stop a)" for a
    using F by (intro amop_step_apply) (simp_all add: same_surroundings_def)
  from components_es [OF components_amop [OF c st] es_step.stop] t FStop show ?thesis
    by (auto simp: components_def front_stop_def)
qed

interpretation fronts: step_invariant "front_step E A D ep" "buildRpc_from E ni sv m am"
  "\<lambda>s. json_ranged (re_json E) \<longrightarrow> components E A D ep ni (manager_registerNotifier m) am s"
  for E A D ep ni sv m am
proof
  show "json_ranged (re_json E) \<longrightarrow>
      components E A D ep ni (manager_registerNotifier m) am (buildRpc_from E ni sv m am)"
    by (auto simp: components_def buildRpc_from_def new_front_def buildJsonRpc_def buildEventSub_def
        manager_ok_def manager_registerNotifier_def split: manager.split)
  fix s fe t
  assume "json_ranged (re_json E) \<longrightarrow> components E A D ep ni (manager_registerNotifier m) am s"
    and "front_step E A D ep s fe t"
  then show "json_ranged (re_json E) \<longrightarrow> components E A D ep ni (manager_registerNotifier m) am t"
    by (auto elim!: front_step_cases intro: components_apply)
qed

text \<open>Both kinds of front end start from a service on which the topic client is registered.\<close>

definition topic_service :: "rpc_factory \<Rightarrow> ws_service" where
  "topic_service fy = initMsgHandler (buildWsService (fy_httpServer fy) (initConfig (fy_nodeConfig fy)))"

lemma buildRpc_eq:
  "buildRpc E ni fy now gw =
     buildRpc_from E ni (topic_service fy) (buildGroupManager (fy_chainID fy) now) (new_amop False gw)"
  by (simp add: buildRpc_def buildAMOPClient_def topic_service_def)

lemma buildLocalRpc_eq:
  "buildLocalRpc E ni fy gi ns =
     buildRpc_from E ni (topic_service fy) (buildLocalGroupManager (fy_chainID fy) gi ns) new_local_amop"
  by (simp add: buildLocalRpc_def buildLocalAMOPClient_def topic_service_def)

text \<open>The registered handlers and the configuration of the service stay as they were built.\<close>

definition serves :: "ws_config \<Rightarrow> front \<Rightarrow> bool" where
  "serves config s \<longleftrightarrow>
     (\<exists>sv. fr_ws s = Some sv \<and> sv_handlers sv = map_of all_handlers \<and> sv_config sv = config)"

lemma fr_ws_frame [simp]:
  "fr_ws (front_emit os s) = fr_ws s" "fr_ws (flush F k s) = fr_ws s"
  "fr_ws (onSenderRequest F sd body s) = fr_ws s"
  by (simp_all add: front_emit_def flush_def onSenderRequest_def Let_def)

lemma fr_ws_handshake [simp]: "fr_ws (onHandshake F msg ss s) = fr_ws s"
  by (cases "getGroupInfoList (fe_rpc F) (manager_world F (fr_manager (front_emit [SetVersion ss (pv_number CurrentVersion)] s)))")
    (simp_all add: onHandshake_def Let_def)

lemma fr_ws_block [simp]: "fr_ws (front_asyncNotifyBlockNumber F g n b cb s) = fr_ws s"
  by (cases cb) (simp_all add: front_asyncNotifyBlockNumber_def Let_def)

lemma fr_ws_tick [simp]: "fr_ws (front_tick F s) = fr_ws s"
  by (cases "fr_manager s") (simp_all add: front_tick_def Let_def)

lemma fr_ws_renotify [simp]: "fr_ws (front_asyncNotifySubscribeTopic F cb s) = fr_ws s"
  by (cases cb) (simp_all add: front_asyncNotifySubscribeTopic_def Let_def)

lemma fr_ws_group: "front_asyncNotifyGroupInfo F gi cb s = Some (x, t) \<Longrightarrow> fr_ws t = fr_ws s"
  by (auto simp: front_asyncNotifyGroupInfo_def Let_def split: option.splits)

lemma fr_ws_answer: "onCallAnswered F i e r s = Some t \<Longrightarrow> fr_ws t = fr_ws s"
  by (auto simp: onCallAnswered_def split: option.splits)

lemma fr_ws_handle [simp]: "fr_ws (handle F h msg ss s) = fr_ws s"
  by (cases h) (simp_all add: onRpcRequestMessage_def)

lemma fr_ws_message [simp]: "fr_ws (onMessage F msg ss s) = fr_ws s"
  by (simp add: onMessage_def split: option.split)

lemma fr_ws_apply:
  assumes "front_apply F ev s = Some t" and "ev \<noteq> FStart" and "ev \<noteq> FStop" shows "fr_ws t = fr_ws s"
proof (cases ev)
  case (FHttp n body)
  with assms(1) show ?thesis by (auto simp: onHttpRequest_def split: option.splits if_splits)
next
  case (FAnswered i e r)
  with assms(1) show ?thesis by (simp add: fr_ws_answer)
next
  case (FGroup gi cb)
  with assms(1) show ?thesis by (auto intro: fr_ws_group)
next
  case (FEvents own)
  with assms(1) show ?thesis by (auto split: option.splits)
next
  case (FTopic k topic data n)
  with assms(1) show ?thesis by (auto simp: front_asyncNotifyAMOPMessage_def)
next
  case (FClientID c)
  with assms(1) show ?thesis by (auto simp: front_setClientID_def)
qed (use assms in auto)

lemma serves_apply:
  assumes "front_apply F ev s = Some t" and "serves c s" shows "serves c t"
proof -
  consider "ev = FStart" | "ev = FStop" | "ev \<noteq> FStart" "ev \<noteq> FStop" by blast
  then show ?thesis
  proof cases
    case 1
    with assms show ?thesis by (auto simp: serves_def front_start_def split: option.splits)
  next
    case 2
    with assms show ?thesis by (auto simp: serves_def front_stop_def)
  next
    case 3
    with fr_ws_apply [OF assms(1)] assms(2) show ?thesis by (simp add: serves_def)
  qed
qed

lemma built_serves: "serves (initConfig (fy_nodeConfig fy)) (buildRpc_from E ni (topic_service fy) m am)"
proof -
  have "sv_config (registerEventHandlers (registerHandlers (setHttpReqHandler (topic_service fy)))) =
      initConfig (fy_nodeConfig fy)"
    by (simp add: registerEventHandlers_def registerHandlers_def setHttpReqHandler_def topic_service_def
        initMsgHandler_def registerMsgHandler_def buildWsService_def)
  moreover have "sv_handlers (registerEventHandlers (registerHandlers (setHttpReqHandler (topic_service fy)))) =
      map_of all_handlers"
    unfolding topic_service_def by (rule registered_handlers) (simp add: buildWsService_def)
  ultimately show ?thesis
    by (simp add: serves_def buildRpc_from_def buildJsonRpc_def buildEventSub_def new_front_def)
qed

interpretation service: step_invariant "front_step E A D ep" "buildRpc_from E ni (topic_service fy) m am"
  "serves (initConfig (fy_nodeConfig fy))"
  for E A D ep ni fy m am
  by standard (auto simp: built_serves elim!: front_step_cases intro: serves_apply)

lemma built_components:
  assumes "run (front_step E A D ep) (buildRpc E ni fy now gw) es s" and "json_ranged (re_json E)"
  obtains g where "fr_manager s = Remote g" "reaches (node_step A D) (new_gm (fy_chainID fy) now) g"
    "components E A D ep ni (manager_registerNotifier (buildGroupManager (fy_chainID fy) now)) (new_amop False gw) s"
proof -
  have c: "components E A D ep ni (manager_registerNotifier (buildGroupManager (fy_chainID fy) now)) (new_amop False gw) s"
    using fronts.run_inv [OF assms(1) [unfolded buildRpc_eq]] assms(2) by simp
  then obtain g where g: "fr_manager s = Remote g"
    and r: "reaches (node_step A D) (registerGroupInfoNotifier (new_gm (fy_chainID fy) now)) g"
    by (auto simp: components_def manager_ok_def manager_registerNotifier_def buildGroupManager_def)
  from r obtain es' where "run (node_step A D) (registerGroupInfoNotifier (new_gm (fy_chainID fy) now)) es' g"
    by (auto simp: reaches_def)
  from run_Cons [OF node_step_intros(4) this] have "reaches (node_step A D) (new_gm (fy_chainID fy) now) g"
    by (auto simp: reaches_def)
  with g c that show ?thesis by blast
qed

lemma node_step_run:
  assumes "run (node_step A D) s es t"
  shows "run (gm_step A) s es t \<and> (\<forall>gi build. Announce gi build \<in> set es \<longrightarrow> build = buildNodeService D)"
  using assms by (induction rule: run.induct) (auto simp: node_step_def intro: run.intros)

subsection \<open>A front end at work\<close>

definition demo_front_env :: "rpc_env \<Rightarrow> front_env" where
  "demo_front_env E =
     \<lparr>fe_rpc = E, fe_amop = demo_amop_env [], fe_api = ref_group_api, fe_desc = demo_desc, fe_rand = 0,
      fe_sessions = [Some 1, None, Some 2], fe_connected = (\<lambda>ss. ss = 1), fe_message = blank_message,
      fe_active = (\<lambda>c. [''endpoint'']), fe_now = 0\<rparr>"

abbreviation demo_front_step :: "front \<Rightarrow> front_env \<times> front_event \<Rightarrow> front \<Rightarrow> bool" where
  "demo_front_step \<equiv> front_step demo_call ref_group_api demo_desc (ae_endPoint (demo_amop_env []))"

definition demo_factory :: rpc_factory where
  "demo_factory =
     \<lparr>fy_chainID = ''chain0'',
      fy_nodeConfig = \<lparr>nc_rpcListenIP = ''127.0.0.1'', nc_rpcListenPort = 20200, nc_rpcThreadPoolSize = 8,
        nc_rpcDisableSsl = True, nc_rpcSmSsl = False, nc_caCert = '''', nc_nodeCert = '''', nc_nodeKey = '''',
        nc_smCaCert = '''', nc_smNodeCert = '''', nc_smNodeKey = '''', nc_enSmNodeCert = '''',
        nc_enSmNodeKey = ''''\<rparr>,
      fy_httpServer = True\<rparr>"

abbreviation demo_built :: front where
  "demo_built \<equiv> buildRpc demo_call demo_node_info demo_factory 0 ''gw''"

definition demo_announced :: "front \<Rightarrow> front" where
  "demo_announced s = the (front_apply (demo_front_env demo_call) (FGroup demo_nodeGroup None) s)"

lemma demo_announced_apply:
  assumes "fr_manager s = Remote g"
  shows "front_apply (demo_front_env demo_call) (FGroup demo_nodeGroup None) s = Some (demo_announced s)"
    and "fr_manager (demo_announced s) =
      Remote (snd (updateGroupInfo ref_group_api (buildNodeService demo_desc) demo_nodeGroup g))"
  by (auto simp: demo_announced_def front_asyncNotifyGroupInfo_def manager_updateGroupInfo_def assms
      front_emit_def demo_front_env_def Let_def split: prod.split option.split)

definition demo_front :: front where
  "demo_front = demo_announced (demo_announced demo_built)"

lemma demo_front_manager: "fr_manager demo_front = Remote demo_served"
proof -
  have b: "fr_manager demo_built = Remote (registerGroupInfoNotifier (new_gm ''chain0'' 0))"
    by (simp add: buildRpc_eq buildRpc_from_def buildJsonRpc_def buildEventSub_def new_front_def
        manager_registerNotifier_def buildGroupManager_def demo_factory_def)
  show ?thesis
    unfolding demo_front_def demo_served_def by (rule demo_announced_apply(2)) (rule demo_announced_apply(2) [OF b])
qed

lemma demo_surroundings:
  "same_surroundings E ref_group_api demo_desc (ae_endPoint (demo_amop_env [])) (demo_front_env E)"
  by (simp add: same_surroundings_def demo_front_env_def)

lemma demo_front_run:
  "run demo_front_step demo_built
     [(demo_front_env demo_call, FGroup demo_nodeGroup None), (demo_front_env demo_call, FGroup demo_nodeGroup None)]
     demo_front"
proof -
  have b: "fr_manager demo_built = Remote (registerGroupInfoNotifier (new_gm ''chain0'' 0))"
    by (simp add: buildRpc_eq buildRpc_from_def buildJsonRpc_def buildEventSub_def new_front_def
        manager_registerNotifier_def buildGroupManager_def demo_factory_def)
  have wf: "group_wf demo_nodeGroup"
    by (simp add: group_wf_def demo_nodeGroup_def demo_nodeInfo_def fmpred_iff)
  have st: "demo_front_step s (demo_front_env demo_call, FGroup demo_nodeGroup None) (demo_announced s)"
    if "fr_manager s = Remote g" for s g
    using demo_announced_apply(1) [OF that] demo_surroundings wf by (intro front_step.intros) auto
  show ?thesis
    unfolding demo_front_def
    by (rule run_Cons, rule st [OF b], rule run_Cons, rule st [OF demo_announced_apply(2) [OF b]], rule run_nil)
qed

lemma demo_call_ranged: "json_ranged (re_json demo_call)"
  by (simp add: demo_call_def demo_rpc_def demo_rpc_env_def)

subsection \<open>Components and requests behind a front end\<close>

text \<open>
  C4: a front end is the composition of its components. After any run of a front end that
  \<open>buildRpc\<close> made, whatever messages, requests, notifications, timers, answers and setters it
  consists of and however they interleave, the group manager, the JSON-RPC interface, the event
  service and the topic client are each in a state of a run of their own, and every node
  service was built by \<open>buildNodeService\<close>; the WebSocket service has the configuration made of
  the node's and the seven handlers, no two for the same type. So the properties of runs shown for each component
  hold of it behind the front end.
\<close>

theorem front_components:
  assumes "run (front_step E A D ep) (buildRpc E ni fy now gw) es s" and "json_ranged (re_json E)"
  shows "\<exists>g e a ges jes ees aes.
     fr_manager s = Remote g \<and> fr_es s = Some e \<and> fr_amop s = Some a \<and>
     run (gm_step A) (new_gm (fy_chainID fy) now) ges g \<and>
     (\<forall>gi build. Announce gi build \<in> set ges \<longrightarrow> build = buildNodeService D) \<and>
     run (rpc_step E) (new_json_rpc E ni) jes (fr_json s) \<and>
     run es_step new_es ees e \<and>
     run (amop_step ep) (new_amop False gw) aes a \<and>
     distinct (map fst all_handlers) \<and>
     (\<exists>sv. fr_ws s = Some sv \<and> sv_handlers sv = map_of all_handlers \<and>
           sv_config sv = initConfig (fy_nodeConfig fy))"
proof -
  obtain g where g: "fr_manager s = Remote g" "reaches (node_step A D) (new_gm (fy_chainID fy) now) g"
    and c: "components E A D ep ni (manager_registerNotifier (buildGroupManager (fy_chainID fy) now)) (new_amop False gw) s"
    by (rule built_components [OF assms])
  from g(2) obtain ges where "run (node_step A D) (new_gm (fy_chainID fy) now) ges g" by (auto simp: reaches_def)
  from node_step_run [OF this] g(1) c show ?thesis
    using all_handlers_distinct service.run_inv [OF assms(1) [unfolded buildRpc_eq]]
    unfolding components_def reaches_def serves_def by blast
qed

lemma front_components_witness:
  "\<exists>ges jes. run (gm_step ref_group_api) (new_gm ''chain0'' 0) ges demo_served \<and>
     run (rpc_step demo_call) (new_json_rpc demo_call demo_node_info) jes (fr_json demo_front)"
  using front_components [OF demo_front_run demo_call_ranged] demo_front_manager
  by (auto simp: demo_factory_def)

lemma reached_methods:
  assumes "reaches (rpc_step E) (new_json_rpc E ni) s" shows "jp_methods s = initMethod E"
proof -
  have *: "run (rpc_step E) i es t \<Longrightarrow> jp_methods t = jp_methods i" for i es t
  proof (induction rule: run.induct)
    case (run_snoc es t e u)
    from run_snoc.hyps(2) have "jp_methods u = jp_methods t"
    proof (cases rule: rpc_step.cases)
      case (rpc_request n w body)
      then show ?thesis by (simp add: take_turn_def split: turn.split)
    next
      case (rpc_answer i w e r)
      from rpc_answer(2) show ?thesis
        by (rule answer_call_Some) (simp add: take_turn_def split: turn.split)
    qed (simp_all add: setClientID_rpc_def setNodeInfo_def)
    then show ?case using run_snoc.IH by simp
  qed simp
  from assms obtain es where "run (rpc_step E) (new_json_rpc E ni) es s" by (auto simp: reaches_def)
  from * [OF this] show ?thesis by (simp add: new_json_rpc_def)
qed

text \<open>
  C1: every request to a front end comes to a response. In any state a run of the front end
  reached, whatever the bytes of the request are, handling it ends in the text of a response,
  which carries the request's version and id if the bytes are a request; no null pointer is
  met and no exception escapes. This is so when its calls are answered within their contract
  (a submission: with an error or a receipt), the interface object lives, and the nodes that
  were served when it came in still are when its callbacks run; other things may have changed
  between. It holds for the
  front end of a chain, which serves the nodes that were announced, and for that of a single
  node, if the node service it was built with is complete.
\<close>

theorem front_requests_answered:
  assumes "run (front_step E A D ep) s0 es s"
    and "s0 = buildRpc E ni fy now gw \<or>
         s0 = buildLocalRpc E ni fy gi ns \<and> (\<forall>n. ns = Some n \<longrightarrow> complete_service n)"
    and F: "same_surroundings E A D ep F"
    and J: "jsoncpp_ok (re_json E)" "json_lenient (re_json E)" "json_ranged (re_json E)"
  shows "turn_ends E (still_serves (manager_world F (fr_manager s))) (echoes E body)
           (onRPCRequest E (jp_methods (fr_json s)) (manager_world F (fr_manager s)) body)"
  using assms(2)
proof
  assume s0: "s0 = buildRpc E ni fy now gw"
  obtain g where g: "fr_manager s = Remote g" "reaches (node_step A D) (new_gm (fy_chainID fy) now) g"
    and c: "components E A D ep ni (manager_registerNotifier (buildGroupManager (fy_chainID fy) now)) (new_amop False gw) s"
    by (rule built_components [OF assms(1) [unfolded s0] J(3)])
  from c have m: "jp_methods (fr_json s) = initMethod E"
    by (intro reached_methods [of E ni]) (simp add: components_def)
  from g(2) have "services_all complete_service g"
    by (auto simp: reaches_def dest: node_step_run intro: factory_services)
  from manager.request_answered [OF this J(1,2)] show ?thesis
    unfolding m by (simp add: g(1) manager_world_def)
next
  assume s0: "s0 = buildLocalRpc E ni fy gi ns \<and> (\<forall>n. ns = Some n \<longrightarrow> complete_service n)"
  then have r: "run (front_step E A D ep) (buildRpc_from E ni (topic_service fy) (buildLocalGroupManager (fy_chainID fy) gi ns) new_local_amop) es s"
    using assms(1) by (simp add: buildLocalRpc_eq)
  have c: "components E A D ep ni (manager_registerNotifier (buildLocalGroupManager (fy_chainID fy) gi ns)) new_local_amop s"
    using fronts.run_inv [OF r] J(3) by blast
  then obtain g where g: "fr_manager s = Local \<lparr>lgm_nodeService = ns, lgm_groupInfo = gi\<rparr> g"
    by (auto simp: components_def manager_ok_def manager_registerNotifier_def buildLocalGroupManager_def)
  from c have m: "jp_methods (fr_json s) = initMethod E"
    by (intro reached_methods [of E ni]) (simp add: components_def)
  have "\<forall>n. lgm_nodeService \<lparr>lgm_nodeService = ns, lgm_groupInfo = gi\<rparr> = Some n \<longrightarrow> complete_service n"
    using s0 by simp
  from local_manager.request_answered [OF this J(1,2)] show ?thesis
    unfolding m by (simp add: g manager_world_def)
qed

lemma front_requests_answered_witness:
  "turn_ends demo_call (still_serves (manager_world (demo_front_env demo_call) (fr_manager demo_front)))
     (echoes demo_call ''body'')
     (onRPCRequest demo_call (jp_methods (fr_json demo_front))
       (manager_world (demo_front_env demo_call) (fr_manager demo_front)) ''body'')"
  using front_requests_answered [OF demo_front_run _ demo_surroundings demo_call_ok demo_call_ranged] by blast

end
