(* ===== verification/ReplyProps.thy ===== *)
theory ReplyProps
  imports RpcProps "HOL-Library.Sublist"
begin

text \<open>
  What a front end sends back: replies reach the sender of their request and no one else, and
  a client learns the version and the groups from the handshake. \<open>relays\<close> describes one step as
  the senders of requests see it; \<open>relays_apply\<close> shows it of every event, and the interpretation
  \<open>relay\<close> lifts it to runs.
\<close>

subsection \<open>Replies reach their sender\<close>

text \<open>
  \<open>sender_of ev\<close> is the sender of the request that an event brings in, if it brings in one;
  \<open>replies s\<close> is what the senders make of the texts they were handed, in that order, when all
  sessions are still connected.
\<close>

fun sender_of :: "front_event \<Rightarrow> sender list" where
  "sender_of (FMessage msg ss) =
     (if wm_type msg = rpc_message_code RPC_REQUEST then [WsSender msg (Some ss)] else [])"
| "sender_of (FHttp n body) = [HttpSender n]"
| "sender_of ev = []"

fun reply_of :: "sender list \<Rightarrow> nat \<times> string \<Rightarrow> front_out list" where
  "reply_of senders (tag, text) =
     (case senders ! tag of
        WsSender msg so \<Rightarrow> (case so of None \<Rightarrow> [] | Some ss \<Rightarrow> [WsSend ss (msg\<lparr>wm_data := text\<rparr>)])
      | HttpSender n \<Rightarrow> [HttpReply n text])"

definition replies :: "front \<Rightarrow> front_out list" where
  "replies s = concat (map (reply_of (fr_senders s)) (jp_sent (fr_json s)))"

fun is_http :: "front_out \<Rightarrow> bool" where
  "is_http (HttpReply n text) \<longleftrightarrow> True"
| "is_http out \<longleftrightarrow> False"

fun is_reply :: "front_out \<Rightarrow> bool" where
  "is_reply (WsSend ss msg) \<longleftrightarrow> wm_type msg = rpc_message_code RPC_REQUEST"
| "is_reply out \<longleftrightarrow> is_http out"

fun typed_sender :: "sender \<Rightarrow> bool" where
  "typed_sender (WsSender msg so) \<longleftrightarrow> wm_type msg = rpc_message_code RPC_REQUEST"
| "typed_sender (HttpSender n) \<longleftrightarrow> True"

definition sent_tags_ok :: "front \<Rightarrow> bool" where
  "sent_tags_ok s \<longleftrightarrow> (\<forall>(tag, text) \<in> set (jp_sent (fr_json s)). tag < length (fr_senders s))"

definition delivered :: "front_env \<Rightarrow> sender list \<Rightarrow> (nat \<times> string) list \<Rightarrow> front_out list" where
  "delivered F senders new = concat (map (\<lambda>(tag, text). deliver F (senders ! tag) text) new)"

text \<open>One step as the senders see it: requests that come in, texts that go out.\<close>

definition relays :: "front_env \<Rightarrow> sender list \<Rightarrow> front \<Rightarrow> front \<Rightarrow> bool" where
  "relays F sds s t \<longleftrightarrow>
     (\<exists>new os. jp_sent (fr_json t) = jp_sent (fr_json s) @ new \<and>
        fr_senders t = fr_senders s @ sds \<and>
        fr_out t = fr_out s @ os \<and> filter is_reply os = filter is_reply (delivered F (fr_senders t) new) \<and>
        (\<forall>tag. rpc_balance tag (fr_json t) = rpc_balance tag (fr_json s) +
           (if length (fr_senders s) \<le> tag \<and> tag < length (fr_senders t) then 1 else 0)))"

lemma relays_quiet:
  "fr_json t = fr_json s \<Longrightarrow> fr_senders t = fr_senders s \<Longrightarrow> fr_out t = fr_out s @ os \<Longrightarrow>
     filter is_reply os = [] \<Longrightarrow> relays F [] s t"
  unfolding relays_def by (intro exI [of _ "[]"] exI [of _ os]) (simp add: delivered_def)

lemma take_turn_sent: "\<exists>new. jp_sent (take_turn n t s) = jp_sent s @ new"
  by (cases t) (auto simp: take_turn_def)

lemma answer_call_sent:
  assumes "answer_call E i w e r s = Some t" shows "\<exists>new. jp_sent t = jp_sent s @ new"
  using assms
proof (rule answer_call_Some)
  fix n resp q k p
  assume "t = take_turn n (settle E resp p)
      (s\<lparr>jp_waiting := take i (jp_waiting s) @ drop (Suc i) (jp_waiting s)\<rparr>)"
  then show ?thesis
    using take_turn_sent [of n "settle E resp p"
      "s\<lparr>jp_waiting := take i (jp_waiting s) @ drop (Suc i) (jp_waiting s)\<rparr>"] by simp
qed

lemma relays_request: "relays F [sd] s (onSenderRequest F sd body s)"
proof -
  let ?j = "take_turn (length (fr_senders s))
      (onRPCRequest (fe_rpc F) (jp_methods (fr_json s)) (manager_world F (fr_manager s)) body) (fr_json s)"
  obtain new where new: "jp_sent ?j = jp_sent (fr_json s) @ new" using take_turn_sent by blast
  then show ?thesis
    unfolding relays_def onSenderRequest_def flush_def Let_def front_emit_def
    by (intro exI [of _ new] exI [of _ "delivered F (fr_senders s @ [sd]) new"])
      (auto simp: delivered_def rpc_balance_take_turn)
qed

lemma relays_answer:
  assumes "onCallAnswered F i e r s = Some t" shows "relays F [] s t"
proof -
  obtain j where j: "answer_call (fe_rpc F) i (manager_world F (fr_manager s)) e r (fr_json s) = Some j"
    and t: "t = flush F (length (jp_sent (fr_json s))) (s\<lparr>fr_json := j\<rparr>)"
    using assms by (auto simp: onCallAnswered_def split: option.splits)
  obtain new where "jp_sent j = jp_sent (fr_json s) @ new" using answer_call_sent [OF j] by blast
  then show ?thesis
    unfolding relays_def t flush_def front_emit_def
    by (intro exI [of _ new] exI [of _ "delivered F (fr_senders s) new"])
      (simp add: delivered_def rpc_balance_answer [OF j])
qed

lemma quiet_notify [simp]:
  "t \<noteq> RPC_REQUEST \<Longrightarrow> filter is_reply (to_all_sessions F t v) = []"
  by (cases t) (auto simp: to_all_sessions_def filter_empty_conv)

lemma quiet_groups [simp]: "filter is_reply (concat (map (front_notifyGroupInfo F) gis)) = []"
  by (induction gis) (simp_all add: front_notifyGroupInfo_def)

lemma handler_type:
  assumes "map_of all_handlers c = Some h"
  shows "c = rpc_message_code RPC_REQUEST \<longleftrightarrow> h = HandleRpcRequest"
    and "h = HandleHandshake \<Longrightarrow> c = rpc_message_code HANDESHAKE"
  using assms
  by (auto simp: all_handlers_def split: if_splits)

lemma relays_handshake:
  assumes "wm_type msg = rpc_message_code HANDESHAKE"
  shows "relays F [] s (onHandshake F msg ss s)"
proof -
  have "\<exists>os. onHandshake F msg ss s = front_emit os s \<and> filter is_reply os = []"
    using assms
    by (cases "getGroupInfoList (fe_rpc F) (manager_world F (fr_manager s))")
      (auto simp: onHandshake_def Let_def front_emit_def
        intro: exI [where x = "[SetVersion ss v]" for v] exI [where x = "[SetVersion ss v, x]" for v x])
  then obtain os where os: "onHandshake F msg ss s = front_emit os s" "filter is_reply os = []" by blast
  then show ?thesis
    by (intro relays_quiet [of _ _ os]) (simp_all add: front_emit_def)
qed

lemma relays_handle:
  assumes "map_of all_handlers (wm_type msg) = Some h"
  shows "relays F (sender_of (FMessage msg ss)) s (handle F h msg ss s)"
proof (cases "h = HandleRpcRequest")
  case True
  then show ?thesis
    using relays_request handler_type(1) [OF assms] by (simp add: onRpcRequestMessage_def)
next
  case False
  then have "sender_of (FMessage msg ss) = []" using handler_type(1) [OF assms] by simp
  then show ?thesis
    using False relays_handshake handler_type(2) [OF assms]
    by (cases h) (auto intro: relays_quiet [of _ _ "[]"])
qed

lemma relays_keep:
  "fr_json t = fr_json s \<Longrightarrow> fr_senders t = fr_senders s \<Longrightarrow> fr_out t = fr_out s \<Longrightarrow> relays F [] s t"
  by (rule relays_quiet [of _ _ "[]"]) simp_all

lemma relays_block: "relays F [] s (front_asyncNotifyBlockNumber F g n b cb s)"
  by (rule relays_quiet [of _ _ "to_all_sessions F BLOCK_NOTIFY
        (jset [(''group'', JString g), (''nodeName'', JString n), (''blockNumber'', JInt b)] JNull) @
        (case cb of None \<Rightarrow> [] | Some c \<Rightarrow> [NotifyDone c])"])
    (simp_all add: front_asyncNotifyBlockNumber_def Let_def front_emit_def split: option.split)

lemma relays_told:
  "fr_json t = fr_json s \<Longrightarrow> fr_senders t = fr_senders s \<Longrightarrow>
     fr_out t = fr_out s @ concat (map (front_notifyGroupInfo F) gis) @ map NotifyDone ns \<Longrightarrow> relays F [] s t"
  by (rule relays_quiet [of _ _ "concat (map (front_notifyGroupInfo F) gis) @ map NotifyDone ns"])
    (simp_all add: filter_empty_conv)

lemma relays_group:
  assumes "front_asyncNotifyGroupInfo F gi cb s = Some (x, t)" shows "relays F [] s t"
proof -
  obtain x' told m where u: "manager_updateGroupInfo F gi (fr_manager s) = Some (x', told, m)"
    using assms by (auto simp: front_asyncNotifyGroupInfo_def split: option.splits)
  have "\<exists>ns. fr_out t = fr_out s @ concat (map (front_notifyGroupInfo F) told) @ map NotifyDone ns"
    using assms u
    by (cases x'; cases cb) (auto simp: front_asyncNotifyGroupInfo_def Let_def front_emit_def
        intro: exI [where x = "[]"] exI [where x = "[n]" for n])
  moreover have "fr_json t = fr_json s" "fr_senders t = fr_senders s"
    using assms u by (auto simp: front_asyncNotifyGroupInfo_def Let_def front_emit_def split: option.splits)
  ultimately show ?thesis by (blast intro: relays_told)
qed

lemma relays_tick: "relays F [] s (front_tick F s)"
proof (cases "fr_manager s")
  case (Remote g)
  let ?t = "updateGroupStatus (fe_api F) (\<lambda>ns. unreachable (fe_active F) ns = Some True) (fe_now F) g"
  show ?thesis
    by (rule relays_told [where gis = "drop (length (gm_notified g)) (gm_notified ?t)" and ns = "[]"])
      (simp_all add: front_tick_def Remote Let_def front_emit_def)
qed (simp add: front_tick_def relays_keep)

lemma relays_json:
  "fr_json t = setClientID_rpc c (fr_json s) \<Longrightarrow> fr_senders t = fr_senders s \<Longrightarrow>
     fr_out t = fr_out s \<Longrightarrow> relays F [] s t"
  unfolding relays_def
  by (intro exI [of _ "[]"]) (simp add: delivered_def setClientID_rpc_def rpc_balance_def
      sent_to_def waiting_for_def lost_of_def)

lemma relays_renotify: "relays F [] s (front_asyncNotifySubscribeTopic F cb s)"
  by (rule relays_quiet [of _ _ "case cb of None \<Rightarrow> [] | Some c \<Rightarrow> [NotifyDone c]"])
    (simp_all add: front_asyncNotifySubscribeTopic_def Let_def front_emit_def split: option.split)

lemma onMessage_served:
  assumes "serves c s"
  shows "onMessage F msg ss s =
           (case map_of all_handlers (wm_type msg) of None \<Rightarrow> s | Some h \<Rightarrow> handle F h msg ss s)"
  using assms by (auto simp: onMessage_def serves_def)

lemma relays_apply:
  assumes "front_apply F ev s = Some t" and srv: "serves c s" shows "relays F (sender_of ev) s t"
proof (cases ev)
  case (FMessage msg ss)
  show ?thesis
  proof (cases "map_of all_handlers (wm_type msg)")
    case None
    then have "sender_of ev = []"
      by (auto simp: FMessage all_handlers_def split: if_splits)
    with None FMessage assms show ?thesis by (simp add: onMessage_served [OF srv] relays_keep)
  next
    case (Some h)
    with relays_handle [OF Some] FMessage assms show ?thesis by (auto simp: onMessage_served [OF srv])
  qed
next
  case (FHttp n body)
  with assms relays_request show ?thesis by (auto simp: onHttpRequest_def split: option.splits if_splits)
next
  case (FAnswered i e r)
  with assms relays_answer show ?thesis by simp
next
  case (FBlock g n b cb)
  with assms relays_block show ?thesis by auto
next
  case (FGroup gi cb)
  with assms relays_group show ?thesis by auto
next
  case FTick
  with assms relays_tick show ?thesis by auto
next
  case (FRenotify cb)
  with assms relays_renotify show ?thesis by auto
next
  case (FClientID c)
  with assms show ?thesis
    by (auto simp: front_setClientID_def intro: relays_json [where c = c])
qed (use assms in \<open>auto simp: front_asyncNotifyAMOPMessage_def front_start_def front_stop_def
    intro!: relays_keep split: option.splits\<close>)

lemma typed_senders: "sd \<in> set (concat (map (sender_of \<circ> snd) es)) \<Longrightarrow> typed_sender sd"
proof -
  have *: "sd \<in> set (sender_of ev) \<Longrightarrow> typed_sender sd" for ev by (cases ev) (auto split: if_splits)
  assume "sd \<in> set (concat (map (sender_of \<circ> snd) es))"
  then show ?thesis by (auto intro: *)
qed

text \<open>What is delivered of the texts handed to well-typed senders.\<close>

lemma delivered_Cons:
  "delivered F senders ((tag, text) # new) = deliver F (senders ! tag) text @ delivered F senders new"
  by (simp add: delivered_def)

lemma deliver_reply:
  assumes "typed_sender (senders ! tag)"
  shows "subseq (filter is_reply (deliver F (senders ! tag) text)) (reply_of senders (tag, text))"
    and "filter is_http (deliver F (senders ! tag) text) = filter is_http (reply_of senders (tag, text))"
  using assms by (cases "senders ! tag"; auto simp: deliver_def split: option.split)+

lemma delivered_replies:
  assumes "\<forall>(tag, text) \<in> set new. typed_sender (senders ! tag)"
  shows "subseq (filter is_reply (delivered F senders new)) (concat (map (reply_of senders) new)) \<and>
         filter is_http (delivered F senders new) = filter is_http (concat (map (reply_of senders) new))"
  using assms
proof (induction new)
  case (Cons p new)
  obtain tag body where p: "p = (tag, body)" by fastforce
  with Cons.prems have t: "typed_sender (senders ! tag)" by simp
  from Cons.prems have "\<forall>(tag, text) \<in> set new. typed_sender (senders ! tag)" by simp
  note IH = Cons.IH [OF this]
  show ?case
    using IH deliver_reply [OF t, of F body]
    unfolding p by (auto simp: delivered_Cons simp del: reply_of.simps intro: list_emb_append_mono)
qed (simp add: delivered_def)

text \<open>Whether the reply to a sender can be sent when its text comes.\<close>

fun present :: "front_env \<Rightarrow> sender \<Rightarrow> bool" where
  "present F (WsSender msg so) \<longleftrightarrow> (\<exists>ss. so = Some ss \<and> fe_connected F ss)"
| "present F (HttpSender n) \<longleftrightarrow> True"

lemma delivered_present:
  assumes "\<forall>(tag, text) \<in> set new. typed_sender (senders ! tag)"
  shows "filter is_reply (delivered F senders new) =
     concat (map (reply_of senders) (filter (\<lambda>(tag, text). present F (senders ! tag)) new))"
  using assms
proof (induction new)
  case (Cons p new)
  obtain tag body where p: "p = (tag, body)" by fastforce
  with Cons show ?case
    by (cases "senders ! tag") (auto simp: delivered_Cons deliver_def split: option.split)
qed (simp add: delivered_def)

text \<open>Every text was handed to the sender of a request that came in.\<close>

definition one_each :: "front \<Rightarrow> bool" where
  "one_each s \<longleftrightarrow> (\<forall>tag. rpc_balance tag (fr_json s) = (if tag < length (fr_senders s) then 1 else 0))"

lemma one_each_sent:
  assumes "one_each s" and "(tag, text) \<in> set (jp_sent (fr_json s))" shows "tag < length (fr_senders s)"
proof (rule ccontr)
  assume "\<not> tag < length (fr_senders s)"
  with assms(1) have "rpc_balance tag (fr_json s) = 0" by (simp add: one_each_def)
  then have "sent_to tag (fr_json s) = 0" by (simp add: rpc_balance_def)
  with assms(2) show False by (auto simp: sent_to_def filter_empty_conv)
qed

lemma typed_new:
  assumes "one_each t" and "fr_senders t = concat (map (sender_of \<circ> snd) es)"
    and "set new \<subseteq> set (jp_sent (fr_json t))"
  shows "\<forall>(tag, text) \<in> set new. typed_sender (fr_senders t ! tag)"
proof clarify
  fix tag body assume "(tag, body) \<in> set new"
  with assms(3) have "tag < length (fr_senders t)" by (auto intro: one_each_sent [OF assms(1)])
  then have "fr_senders t ! tag \<in> set (concat (map (sender_of \<circ> snd) es))"
    unfolding assms(2) [symmetric] by (rule nth_mem)
  then show "typed_sender (fr_senders t ! tag)" by (rule typed_senders)
qed

definition replies_ok :: "front \<Rightarrow> bool" where
  "replies_ok s \<longleftrightarrow>
     subseq (filter is_reply (fr_out s)) (replies s) \<and>
     filter is_http (fr_out s) = filter is_http (replies s)"

lemma filter_http_reply: "filter is_http (filter is_reply xs) = filter is_http xs"
  by (induction xs) (auto elim: is_http.elims)

lemma replies_relays:
  fixes es :: "(front_env \<times> front_event) list"
  assumes inv: "fr_senders s = concat (map (sender_of \<circ> snd) es)" "one_each s" "replies_ok s"
    and r: "relays F (sender_of ev) s t"
  shows "fr_senders t = concat (map (sender_of \<circ> snd) (es @ [(F, ev)])) \<and> one_each t \<and>
         replies_ok t"
proof -
  obtain new os where new: "jp_sent (fr_json t) = jp_sent (fr_json s) @ new"
    and sd: "fr_senders t = fr_senders s @ sender_of ev"
    and os: "fr_out t = fr_out s @ os" "filter is_reply os = filter is_reply (delivered F (fr_senders t) new)"
    and b: "\<And>tag. rpc_balance tag (fr_json t) = rpc_balance tag (fr_json s) +
           (if length (fr_senders s) \<le> tag \<and> tag < length (fr_senders t) then 1 else 0)"
    using r by (auto simp: relays_def)
  have senders: "fr_senders t = concat (map (sender_of \<circ> snd) (es @ [(F, ev)]))"
    using inv(1) sd by simp
  have one: "one_each t"
    using inv(2) sd by (auto simp: one_each_def b)
  have old: "reply_of (fr_senders t) p = reply_of (fr_senders s) p" if "p \<in> set (jp_sent (fr_json s))" for p
  proof -
    obtain tag body where p: "p = (tag, body)" by fastforce
    with that have "tag < length (fr_senders s)" by (auto intro: one_each_sent [OF inv(2)])
    then show ?thesis by (simp add: p sd nth_append)
  qed
  then have "replies t = replies s @ concat (map (reply_of (fr_senders t)) new)"
    by (simp add: replies_def new cong: map_cong)
  moreover have "\<forall>(tag, text) \<in> set new. typed_sender (fr_senders t ! tag)"
    by (rule typed_new [OF one senders]) (auto simp: new)
  note d = delivered_replies [OF this, of F]
  moreover have "filter is_http os = filter is_http (delivered F (fr_senders t) new)"
    using os(2) by (metis filter_http_reply)
  ultimately have "replies_ok t"
    using inv(3) d by (auto simp: replies_ok_def os intro: list_emb_append_mono)
  with senders one show ?thesis by blast
qed

interpretation relay: history_invariant "front_step E A D ep" "buildRpc_from E ni (topic_service fy) m am"
  "\<lambda>(es :: (front_env \<times> front_event) list) s. serves (initConfig (fy_nodeConfig fy)) s \<and>
     fr_senders s = concat (map (sender_of \<circ> snd) es) \<and> one_each s \<and> replies_ok s"
  for E A D ep ni fy m am
proof
  show "serves (initConfig (fy_nodeConfig fy)) (buildRpc_from E ni (topic_service fy) m am) \<and>
      fr_senders (buildRpc_from E ni (topic_service fy) m am) = concat (map (sender_of \<circ> snd) ([] :: (front_env \<times> front_event) list)) \<and>
      one_each (buildRpc_from E ni (topic_service fy) m am) \<and> replies_ok (buildRpc_from E ni (topic_service fy) m am)"
    using built_serves
    by (simp add: one_each_def replies_ok_def replies_def buildRpc_from_def new_front_def buildJsonRpc_def
        buildEventSub_def new_json_rpc_def rpc_balance_def sent_to_def waiting_for_def lost_of_def)
  fix es :: "(front_env \<times> front_event) list" and s fe t
  assume inv: "serves (initConfig (fy_nodeConfig fy)) s \<and>
      fr_senders s = concat (map (sender_of \<circ> snd) es) \<and> one_each s \<and> replies_ok s"
    and "front_step E A D ep s fe t"
  then obtain F ev where fe: "fe = (F, ev)" "front_apply F ev s = Some t" by (auto elim!: front_step_cases)
  have "relays F (sender_of ev) s t" using inv relays_apply [OF fe(2)] by blast
  with inv replies_relays serves_apply [OF fe(2)] show "serves (initConfig (fy_nodeConfig fy)) t \<and>
      fr_senders t = concat (map (sender_of \<circ> snd) (es @ [fe])) \<and> one_each t \<and> replies_ok t"
    unfolding fe(1) by blast
qed

text \<open>
  C3: a reply reaches the sender of its request and no one else. Requests are numbered in the
  order they came in, by WebSocket message or by HTTP, and each is exactly one of answered,
  waiting for a call, and lost. The HTTP replies that went out are exactly the texts of the
  answered HTTP requests, each once, in the order they were produced. The WebSocket messages
  that went out as replies are those of answered requests, each at most once and in order: the
  request's own message, for its session, with the data replaced by the text. Only replies to
  closed sessions are missing: of the texts a step produces, exactly those for HTTP and for the
  sessions connected in that step are sent, whatever the other sessions are.
\<close>

theorem front_replies:
  assumes "run (front_step E A D ep) s0 es s"
    and "s0 = buildRpc E ni fy now gw \<or> s0 = buildLocalRpc E ni fy gi ns"
  shows "fr_senders s = concat (map (sender_of \<circ> snd) es) \<and>
         (\<forall>tag. sent_to tag (fr_json s) + waiting_for tag (fr_json s) + lost_of tag (fr_json s) =
            (if tag < length (fr_senders s) then 1 else 0)) \<and>
         filter is_http (fr_out s) = filter is_http (replies s) \<and>
         subseq (filter is_reply (fr_out s)) (replies s) \<and>
         (\<forall>F ev t. front_step E A D ep s (F, ev) t \<longrightarrow>
            (\<exists>new. jp_sent (fr_json t) = jp_sent (fr_json s) @ new \<and>
               filter is_reply (fr_out t) = filter is_reply (fr_out s) @
                 concat (map (reply_of (fr_senders t))
                   (filter (\<lambda>(tag, text). present F (fr_senders t ! tag)) new))))"
proof -
  obtain m am where s0: "s0 = buildRpc_from E ni (topic_service fy) m am"
    using assms(2) by (auto simp: buildRpc_eq buildLocalRpc_eq)
  note inv = relay.run_hinv [OF assms(1) [unfolded s0]]
  have "\<exists>new. jp_sent (fr_json t) = jp_sent (fr_json s) @ new \<and>
               filter is_reply (fr_out t) = filter is_reply (fr_out s) @
                 concat (map (reply_of (fr_senders t))
                   (filter (\<lambda>(tag, text). present F (fr_senders t ! tag)) new))"
    if st: "front_step E A D ep s (F, ev) t" for F ev t
  proof -
    have "front_apply F ev s = Some t" using st by (auto elim!: front_step_cases)
    then have "relays F (sender_of ev) s t" using relays_apply inv by blast
    then obtain new os where new: "jp_sent (fr_json t) = jp_sent (fr_json s) @ new"
      and os: "fr_out t = fr_out s @ os" "filter is_reply os = filter is_reply (delivered F (fr_senders t) new)"
      by (auto simp: relays_def)
    have inv': "one_each t" "fr_senders t = concat (map (sender_of \<circ> snd) (es @ [(F, ev)]))"
      using relay.run_hinv [OF run_snoc [OF assms(1) st, unfolded s0]] by blast+
    have "\<forall>(tag, text) \<in> set new. typed_sender (fr_senders t ! tag)"
      by (rule typed_new [OF inv']) (auto simp: new)
    from delivered_present [OF this, of F] os new show ?thesis by auto
  qed
  then show ?thesis
    using inv by (simp add: one_each_def replies_ok_def rpc_balance_def)
qed

definition demo_http :: front where
  "demo_http = onHttpRequest (demo_front_env demo_call) 5 ''no json'' demo_built"

lemma demo_built_http: "\<exists>sv. fr_ws demo_built = Some sv \<and> sv_httpHandler sv"
  by (simp add: buildRpc_eq buildRpc_from_def buildJsonRpc_def buildEventSub_def new_front_def
      topic_service_def registerEventHandlers_def registerHandlers_def setHttpReqHandler_def initMsgHandler_def
      registerMsgHandler_def buildWsService_def demo_factory_def)

lemma demo_http_run:
  "run demo_front_step demo_built [(demo_front_env demo_call, FHttp 5 ''no json'')] demo_http"
proof -
  have "demo_front_step demo_built (demo_front_env demo_call, FHttp 5 ''no json'') demo_http"
    using demo_built_http by (intro front_step.intros demo_surroundings) (auto simp: demo_http_def)
  then show ?thesis by (rule run_Cons) (rule run_nil)
qed

lemma demo_http_json: "jp_sent (fr_json demo_http) = [(0, ''error'')]"
proof -
  have p: "parseRpcRequestJson (re_json demo_call) ''no json'' =
      Inl (rpc_throw InvalidRequest ''The JSON sent is not a valid Request object.'')"
    by (simp add: parseRpcRequestJson_def demo_call_def demo_rpc_def demo_rpc_env_def)
  show ?thesis
    by (simp add: demo_http_def onHttpRequest_def onSenderRequest_def flush_def Let_def front_emit_def
        demo_front_env_def onRPCRequest_unparsed [OF p] refusal_def take_turn_def buildRpc_eq buildRpc_from_def buildEventSub_def
        new_front_def buildJsonRpc_def new_json_rpc_def rpc_throw_def)
      (simp add: demo_call_def demo_rpc_def demo_rpc_env_def toStringResponse_def toJsonResponse_def)
qed

lemma front_replies_witness:
  "filter is_http (fr_out demo_http) = [HttpReply 5 ''error''] \<and> fr_senders demo_http = [HttpSender 5]"
proof -
  note r = front_replies [OF demo_http_run, of demo_node_info demo_factory 0 "''gw''", simplified]
  then have s: "fr_senders demo_http = [HttpSender 5]" by simp
  with r show ?thesis by (simp add: replies_def demo_http_json)
qed

subsection \<open>The handshake\<close>

definition handshake_reply :: "groupInfo list \<Rightarrow> json" where
  "handshake_reply gis =
     jset [(''protocolVersion'', JInt 1),
           (''groupInfoList'', JArray (map (\<lambda>gi. groupInfoToJson gi JNull) gis))] JNull"

text \<open>
  C25: the handshake. A client that sends it, in whatever state the front end is, is registered
  with the current protocol version and is sent its own message back, with the same type and
  sequence number: the data are a JSON object whose \<open>groupInfoList\<close> lists the groups of the
  group manager in the manager's order, and which the version object of the client reads as
  version 1. Nothing else of the front end changes.
\<close>

theorem handshake:
  assumes "run (front_step E A D ep) s0 es s"
    and built: "s0 = buildRpc E ni fy now gw \<or> s0 = buildLocalRpc E ni fy gi ns"
    and t: "wm_type msg = rpc_message_code HANDESHAKE"
    and v: "v = handshake_reply (rw_groupInfoList (manager_world F (fr_manager s)))"
    and J: "jsoncpp_ok (re_json (fe_rpc F))"
    and p: "jparse (re_json (fe_rpc F)) (jwrite (re_json (fe_rpc F)) v) = Inr (Some v)"
  shows "onMessage F msg ss s =
           s\<lparr>fr_out := fr_out s @ [SetVersion ss 1,
               WsSend ss (msg\<lparr>wm_data := jwrite (re_json (fe_rpc F)) v\<rparr>)]\<rparr> \<and>
         pv_fromJson (re_json (fe_rpc F)) (jwrite (re_json (fe_rpc F)) v) pv =
           (True, pv\<lparr>pv_protocolVersion := 1\<rparr>)"
proof
  obtain m am where s0: "s0 = buildRpc_from E ni (topic_service fy) m am"
    using built by (auto simp: buildRpc_eq buildLocalRpc_eq)
  have srv: "serves (initConfig (fy_nodeConfig fy)) s"
    using service.run_inv [OF assms(1) [unfolded s0]] .
  have h: "map_of all_handlers (wm_type msg) = Some HandleHandshake"
    by (simp add: t all_handlers_def)
  show "onMessage F msg ss s =
           s\<lparr>fr_out := fr_out s @ [SetVersion ss 1,
               WsSend ss (msg\<lparr>wm_data := jwrite (re_json (fe_rpc F)) v\<rparr>)]\<rparr>"
    by (simp add: onMessage_served [OF srv] h onHandshake_def getGroupInfoList_def groupInfoListToJson_def Let_def
        front_emit_def CurrentVersion_def pv_toJson_def setProtocolVersion_def new_pv_def v handshake_reply_def)
  show "pv_fromJson (re_json (fe_rpc F)) (jwrite (re_json (fe_rpc F)) v) pv = (True, pv\<lparr>pv_protocolVersion := 1\<rparr>)"
    by (rule pv_fromJson_object [OF J trans [OF p]])
      (simp add: v handshake_reply_def, simp_all add: in_i32_def)
qed

lemma handshake_witness:
  "\<exists>E. pv_fromJson (re_json E) (jwrite (re_json E) (handshake_reply [])) (new_pv 0) =
        (True, \<lparr>pv_protocolVersion = 1\<rparr>) \<and>
      fr_out (onMessage (demo_front_env E) (blank_message\<lparr>wm_type := 0x100\<rparr>) 1 demo_built) =
        [SetVersion 1 1, WsSend 1 (blank_message\<lparr>wm_type := 0x100,
           wm_data := jwrite (re_json E) (handshake_reply [])\<rparr>)]"
proof -
  let ?E = "demo_rpc_env (\<lambda>t. Inr (Some (handshake_reply [])))"
  have g: "rw_groupInfoList (manager_world (demo_front_env ?E) (fr_manager demo_built)) = []"
    and o: "fr_out demo_built = []"
    by (simp_all add: manager_world_def buildRpc_eq buildRpc_from_def buildJsonRpc_def buildEventSub_def new_front_def manager_registerNotifier_def
        buildGroupManager_def gm_world_def groupInfoList_def registerGroupInfoNotifier_def new_gm_def)
  have "onMessage (demo_front_env ?E) (blank_message\<lparr>wm_type := 0x100\<rparr>) 1 demo_built =
      demo_built\<lparr>fr_out := fr_out demo_built @ [SetVersion 1 1,
        WsSend 1 (blank_message\<lparr>wm_type := 0x100, wm_data := jwrite (re_json ?E) (handshake_reply [])\<rparr>)]\<rparr> \<and>
      pv_fromJson (re_json ?E) (jwrite (re_json ?E) (handshake_reply [])) (new_pv 0) =
        (True, \<lparr>pv_protocolVersion = 1\<rparr>)"
    using handshake [OF run_nil disjI1 [OF refl], where msg = "blank_message\<lparr>wm_type := 0x100\<rparr>" and v = "handshake_reply []"
        and F = "demo_front_env ?E" and ss = 1 and pv = "new_pv 0" and E = demo_call and ni = demo_node_info
        and fy = demo_factory and now = 0 and gw = "''gw''"] g
    by (simp add: demo_front_env_def demo_rpc_env_def new_pv_def)
  then show ?thesis by (intro exI [of _ ?E]) (simp add: o)
qed

end
