(* ===== verification/NoteProps.thy ===== *)
theory NoteProps
  imports ReplyProps
begin

text \<open>
  What a front end sends of its own accord: every connected session is told of each block and
  each group once, in order. \<open>tells\<close> describes one step as a connected session sees it;
  \<open>tells_apply\<close> shows it of every event, and the interpretation \<open>notified\<close> lifts it to runs.
\<close>

subsection \<open>Notifications\<close>

text \<open>The group manager calls its notifier with more and more descriptions.\<close>

lemma notify_grows: "prefix (gm_notified s) (gm_notified (snd (notify gi s)))"
  by (simp add: notify_def)

lemma update_node_grows: "prefix (gm_notified s) (gm_notified (snd (updateNodeServiceWithoutLock A build g ni s)))"
  by (auto simp: updateNodeServiceWithoutLock_def addService_def Let_def notify_def split: option.split)

lemma update_nodes_grows: "prefix (gm_notified s) (gm_notified (snd (update_nodes A build g nis s)))"
proof (induction nis arbitrary: s)
  case (Cons ni nis)
  obtain x t where u: "updateNodeServiceWithoutLock A build g ni s = (x, t)" by fastforce
  with update_node_grows [of s A build g ni] have "prefix (gm_notified s) (gm_notified t)" by simp
  with u Cons.IH [of t] show ?case
    by (cases x) (auto intro: prefix_order.trans)
qed simp

lemma updateGroupInfo_grows: "prefix (gm_notified s) (gm_notified (snd (updateGroupInfo A build gi s)))"
  using notify_grows [of "s\<lparr>gm_groupInfos := fmupd (gi_groupID gi) gi (gm_groupInfos s)\<rparr>" gi]
    update_nodes_grows [of s]
  by (auto simp: updateGroupInfo_def)

lemma check_step_grows: "prefix (gm_notified s) (gm_notified (fst (check_step A u kgi (s, bad))))"
  by (auto simp: check_step_def Let_def notify_def split: prod.split)

lemma checkNodeStatus_grows: "prefix (gm_notified s) (gm_notified (fst (checkNodeStatus A u s)))"
proof -
  have "prefix (gm_notified s) (gm_notified (fst sb)) \<Longrightarrow>
      prefix (gm_notified s) (gm_notified (fst (fold (check_step A u) xs sb)))" for xs sb
  proof (induction xs arbitrary: sb)
    case (Cons x xs)
    obtain s' bad where sb: "sb = (s', bad)" by fastforce
    with Cons.prems check_step_grows [of s' A u x bad]
    have "prefix (gm_notified s) (gm_notified (fst (check_step A u x sb)))"
      by (auto intro: prefix_order.trans)
    from Cons.IH [OF this] show ?case by simp
  qed simp
  then show ?thesis by (simp add: checkNodeStatus_def)
qed

lemma removal_notified [simp]:
  "gm_notified (removeUnreachableNodeService bad s) = gm_notified s"
  "gm_notified (removeGroupBlockInfo bad s) = gm_notified s"
proof -
  have "gm_notified (remove_services gb s) = gm_notified s" "gm_notified (remove_block_info gb s) = gm_notified s"
    for gb and s :: "'a gm"
    by (auto simp: remove_services_def remove_block_info_def Let_def split: prod.split option.split)
  then have "gm_notified (fold remove_services xs s) = gm_notified s"
    "gm_notified (fold remove_block_info xs s) = gm_notified s" for xs and s :: "'a gm"
    by (induction xs arbitrary: s) simp_all
  then show "gm_notified (removeUnreachableNodeService bad s) = gm_notified s"
    "gm_notified (removeGroupBlockInfo bad s) = gm_notified s"
    by (simp_all add: removeUnreachableNodeService_def removeGroupBlockInfo_def)
qed

lemma updateGroupStatus_grows: "prefix (gm_notified s) (gm_notified (updateGroupStatus A u now s))"
  using checkNodeStatus_grows [of s A u]
  by (auto simp: updateGroupStatus_def Let_def split: prod.split)

text \<open>What a session is sent of one type of message.\<close>

definition sent_notes :: "rpc_message_type \<Rightarrow> session \<Rightarrow> front_out list \<Rightarrow> string list" where
  "sent_notes t ss os =
     concat (map (\<lambda>x. case x of WsSend ss' m \<Rightarrow> if ss' = ss \<and> wm_type m = rpc_message_code t then [wm_data m] else []
                    | _ \<Rightarrow> []) os)"

lemma sent_notes_simps [simp]:
  "sent_notes t ss [] = []" "sent_notes t ss (os @ ps) = sent_notes t ss os @ sent_notes t ss ps"
  "sent_notes t ss (WsSend ss' m # os) =
     (if ss' = ss \<and> wm_type m = rpc_message_code t then [wm_data m] else []) @ sent_notes t ss os"
  "sent_notes t ss (SetVersion ss' v # os) = sent_notes t ss os"
  "sent_notes t ss (HttpReply n txt # os) = sent_notes t ss os"
  "sent_notes t ss (NotifyDone n # os) = sent_notes t ss os"
  by (simp_all add: sent_notes_def)

definition receivers :: "front_env \<Rightarrow> session list" where
  "receivers F = filter (fe_connected F) (List.map_filter id (fe_sessions F))"

lemma sent_notes_to_all:
  "sent_notes t ss (to_all_sessions F k v) =
     (if t = k then map (\<lambda>_. jstyled (re_json (fe_rpc F)) v) (filter ((=) ss) (receivers F)) else [])"
proof -
  have c: "rpc_message_code k = rpc_message_code t \<longleftrightarrow> t = k" by (cases k; cases t) simp_all
  have "sent_notes t ss (map (\<lambda>ss. WsSend ss ((fe_message F)\<lparr>wm_type := rpc_message_code k, wm_data := d\<rparr>)) xs) =
      (if t = k then map (\<lambda>_. d) (filter ((=) ss) xs) else [])" for d xs
    by (induction xs) (auto simp: c)
  then show ?thesis by (simp add: to_all_sessions_def receivers_def)
qed

definition block_text :: "rpc_env \<Rightarrow> string \<Rightarrow> string \<Rightarrow> int \<Rightarrow> string" where
  "block_text E g n b =
     jstyled (re_json E) (jset [(''group'', JString g), (''nodeName'', JString n), (''blockNumber'', JInt b)] JNull)"

definition group_text :: "rpc_env \<Rightarrow> groupInfo \<Rightarrow> string" where
  "group_text E gi = jstyled (re_json E) (groupInfoToJson gi JNull)"

fun block_notes :: "rpc_env \<Rightarrow> front_event \<Rightarrow> string list" where
  "block_notes E (FBlock g n b cb) = [block_text E g n b]"
| "block_notes E ev = []"

definition told_groups :: "manager \<Rightarrow> groupInfo list" where
  "told_groups m = (case m of Remote g \<Rightarrow> gm_notified g | Local l g \<Rightarrow> gm_notified g)"

text \<open>One step, as a session that is listed once and connected sees it.\<close>

definition tells :: "front_env \<Rightarrow> string list \<Rightarrow> front \<Rightarrow> front \<Rightarrow> bool" where
  "tells F blocks s t \<longleftrightarrow>
     (\<exists>os. fr_out t = fr_out s @ os \<and> prefix (told_groups (fr_manager s)) (told_groups (fr_manager t)) \<and>
        (\<forall>ss. filter ((=) ss) (receivers F) = [ss] \<longrightarrow>
           sent_notes BLOCK_NOTIFY ss os = blocks \<and>
           sent_notes GROUP_NOTIFY ss os = map (group_text (fe_rpc F))
             (drop (length (told_groups (fr_manager s))) (told_groups (fr_manager t)))))"

lemma tells_quiet:
  "fr_out t = fr_out s @ os \<Longrightarrow> fr_manager t = fr_manager s \<Longrightarrow>
     (\<And>ss. sent_notes BLOCK_NOTIFY ss os = [] \<and> sent_notes GROUP_NOTIFY ss os = []) \<Longrightarrow> tells F [] s t"
  by (auto simp: tells_def)

lemma tells_keep: "fr_out t = fr_out s \<Longrightarrow> fr_manager t = fr_manager s \<Longrightarrow> tells F [] s t"
  by (rule tells_quiet [of _ _ "[]"]) simp_all

lemma sent_notes_groups:
  assumes "filter ((=) ss) (receivers F) = [ss]"
  shows "sent_notes t ss (concat (map (front_notifyGroupInfo F) gis)) =
           (if t = GROUP_NOTIFY then map (group_text (fe_rpc F)) gis else [])"
  by (induction gis) (simp_all add: front_notifyGroupInfo_def sent_notes_to_all assms group_text_def)

lemma tells_groups:
  assumes "fr_out t = fr_out s @ concat (map (front_notifyGroupInfo F)
       (drop (length (told_groups (fr_manager s))) (told_groups (fr_manager t)))) @ map NotifyDone ns"
    and "prefix (told_groups (fr_manager s)) (told_groups (fr_manager t))"
  shows "tells F [] s t"
proof -
  have "sent_notes k ss (map NotifyDone ns) = []" for k ss by (induction ns) simp_all
  with assms show ?thesis
    unfolding tells_def by (auto simp: sent_notes_groups)
qed

lemma told_updateGroupInfo:
  assumes "manager_updateGroupInfo F gi m = Some (x, told, m')"
  shows "prefix (told_groups m) (told_groups m') \<and> told = drop (length (told_groups m)) (told_groups m')"
proof (cases m)
  case (Remote g)
  with assms updateGroupInfo_grows [of g "fe_api F" "buildNodeService (fe_desc F)" gi] show ?thesis
    by (auto simp: manager_updateGroupInfo_def told_groups_def split: prod.splits)
next
  case (Local l g)
  with assms updateGroupInfo_grows [of g "fe_api F" "\<lambda>_ _ _. None" gi] show ?thesis
    by (auto simp: manager_updateGroupInfo_def told_groups_def split: prod.splits if_splits)
qed

lemma tells_group:
  assumes "front_asyncNotifyGroupInfo F gi cb s = Some (x, t)" shows "tells F [] s t"
proof -
  obtain x' told m where u: "manager_updateGroupInfo F gi (fr_manager s) = Some (x', told, m)"
    using assms by (auto simp: front_asyncNotifyGroupInfo_def split: option.splits)
  have "\<exists>ns. fr_out t = fr_out s @ concat (map (front_notifyGroupInfo F) told) @ map NotifyDone ns"
    using assms u
    by (cases x'; cases cb) (auto simp: front_asyncNotifyGroupInfo_def Let_def front_emit_def
        intro: exI [where x = "[]"] exI [where x = "[n]" for n])
  moreover have "fr_manager t = m"
    using assms u by (auto simp: front_asyncNotifyGroupInfo_def Let_def front_emit_def split: option.splits)
  ultimately show ?thesis
    using told_updateGroupInfo [OF u] by (auto intro: tells_groups)
qed

lemma tells_tick: "tells F [] s (front_tick F s)"
proof (cases "fr_manager s")
  case (Remote g)
  let ?t = "updateGroupStatus (fe_api F) (\<lambda>ns. unreachable (fe_active F) ns = Some True) (fe_now F) g"
  have "prefix (gm_notified g) (gm_notified ?t)" by (rule updateGroupStatus_grows)
  then show ?thesis
    by (intro tells_groups [where ns = "[]"])
      (simp_all add: front_tick_def Remote Let_def front_emit_def told_groups_def)
qed (simp add: front_tick_def tells_keep)

lemma tells_block: "tells F [block_text (fe_rpc F) g n b] s (front_asyncNotifyBlockNumber F g n b cb s)"
proof -
  have "told_groups (manager_updateGroupBlockInfo g n b m) = told_groups m" for m
    by (auto simp: told_groups_def manager_updateGroupBlockInfo_def updateGroupBlockInfo_def Let_def
        split: manager.split)
  then show ?thesis
    unfolding tells_def
    by (intro exI [of _ "to_all_sessions F BLOCK_NOTIFY
        (jset [(''group'', JString g), (''nodeName'', JString n), (''blockNumber'', JInt b)] JNull) @
        (case cb of None \<Rightarrow> [] | Some c \<Rightarrow> [NotifyDone c])"])
      (auto simp: front_asyncNotifyBlockNumber_def Let_def front_emit_def sent_notes_to_all block_text_def
        split: option.split)
qed

lemma sent_notes_reply:
  assumes "\<forall>(tag, text) \<in> set new. typed_sender (senders ! tag)"
  shows "sent_notes BLOCK_NOTIFY ss (delivered F senders new) = [] \<and>
         sent_notes GROUP_NOTIFY ss (delivered F senders new) = []"
  using assms
proof (induction new)
  case (Cons p new)
  obtain tag body where p: "p = (tag, body)" by fastforce
  with Cons.prems have "typed_sender (senders ! tag)" by simp
  then have "sent_notes BLOCK_NOTIFY ss (deliver F (senders ! tag) body) = [] \<and>
      sent_notes GROUP_NOTIFY ss (deliver F (senders ! tag) body) = []"
    by (cases "senders ! tag") (auto simp: deliver_def split: option.split)
  with Cons show ?case by (simp add: p delivered_Cons)
qed (simp add: delivered_def)

lemma tells_flush:
  assumes "\<forall>(tag, text) \<in> set (jp_sent j). typed_sender (sds ! tag)"
  shows "tells F [] s (flush F k (s\<lparr>fr_json := j, fr_senders := sds\<rparr>))"
proof (rule tells_quiet)
  show "fr_out (flush F k (s\<lparr>fr_json := j, fr_senders := sds\<rparr>)) = fr_out s @ delivered F sds (drop k (jp_sent j))"
    by (simp add: flush_def front_emit_def delivered_def)
  show "fr_manager (flush F k (s\<lparr>fr_json := j, fr_senders := sds\<rparr>)) = fr_manager s"
    by (simp add: flush_def front_emit_def)
  have "\<forall>(tag, text) \<in> set (drop k (jp_sent j)). typed_sender (sds ! tag)"
    using assms by (auto dest: in_set_dropD)
  then show "sent_notes BLOCK_NOTIFY ss (delivered F sds (drop k (jp_sent j))) = [] \<and>
      sent_notes GROUP_NOTIFY ss (delivered F sds (drop k (jp_sent j))) = []" for ss
    by (rule sent_notes_reply)
qed

definition sent_typed :: "front \<Rightarrow> bool" where
  "sent_typed s \<longleftrightarrow> (\<forall>(tag, text) \<in> set (jp_sent (fr_json s)). typed_sender (fr_senders s ! tag))"

lemma flush_fields [simp]:
  "fr_json (flush F k s) = fr_json s" "fr_senders (flush F k s) = fr_senders s"
  by (simp_all add: flush_def front_emit_def)

lemma tells_request:
  assumes "sent_typed (onSenderRequest F sd body s)" shows "tells F [] s (onSenderRequest F sd body s)"
  using assms unfolding onSenderRequest_def Let_def sent_typed_def
  by (intro tells_flush) simp

lemma tells_answer:
  assumes "onCallAnswered F i e r s = Some t" and "sent_typed t" shows "tells F [] s t"
proof -
  obtain j where t: "t = flush F (length (jp_sent (fr_json s))) (s\<lparr>fr_json := j\<rparr>)"
    using assms(1) by (auto simp: onCallAnswered_def split: option.splits)
  have "s\<lparr>fr_json := j\<rparr> = s\<lparr>fr_json := j, fr_senders := fr_senders s\<rparr>" by simp
  with t have "t = flush F (length (jp_sent (fr_json s))) (s\<lparr>fr_json := j, fr_senders := fr_senders s\<rparr>)" by simp
  moreover have "\<forall>(tag, text) \<in> set (jp_sent j). typed_sender (fr_senders s ! tag)"
    using assms(2) by (simp add: sent_typed_def t)
  ultimately show ?thesis using tells_flush by blast
qed

lemma tells_handshake:
  assumes "wm_type msg = rpc_message_code HANDESHAKE" shows "tells F [] s (onHandshake F msg ss s)"
proof -
  have "\<exists>os. onHandshake F msg ss s = front_emit os s \<and>
      (\<forall>ss. sent_notes BLOCK_NOTIFY ss os = [] \<and> sent_notes GROUP_NOTIFY ss os = [])"
    using assms
    by (cases "getGroupInfoList (fe_rpc F) (manager_world F (fr_manager s))")
      (auto simp: onHandshake_def Let_def front_emit_def
        intro: exI [where x = "[SetVersion ss v]" for v] exI [where x = "[SetVersion ss v, x]" for v x])
  then obtain os where "onHandshake F msg ss s = front_emit os s"
    "\<And>ss. sent_notes BLOCK_NOTIFY ss os = [] \<and> sent_notes GROUP_NOTIFY ss os = []" by blast
  then show ?thesis
    by (intro tells_quiet [of _ _ os]) (simp_all add: front_emit_def)
qed

lemma tells_message:
  assumes srv: "serves c s" and "sent_typed (onMessage F msg ss s)" shows "tells F [] s (onMessage F msg ss s)"
proof (cases "map_of all_handlers (wm_type msg)")
  case None
  then show ?thesis by (simp add: onMessage_served [OF srv] tells_keep)
next
  case (Some h)
  with assms show ?thesis
    using tells_request [of F "WsSender msg (Some ss)" "wm_data msg" s]
      tells_handshake [OF handler_type(2) [OF Some], of F s ss]
    by (cases h) (auto simp: onMessage_served [OF srv] onRpcRequestMessage_def intro: tells_keep)
qed

lemma tells_renotify: "tells F [] s (front_asyncNotifySubscribeTopic F cb s)"
  by (rule tells_quiet [of _ _ "case cb of None \<Rightarrow> [] | Some c \<Rightarrow> [NotifyDone c]"])
    (simp_all add: front_asyncNotifySubscribeTopic_def Let_def front_emit_def split: option.split)

lemma tells_apply:
  assumes "front_apply F ev s = Some t" and "sent_typed t" and "serves c s"
  shows "tells F (block_notes (fe_rpc F) ev) s t"
proof (cases ev)
  case (FMessage msg ss)
  with assms tells_message show ?thesis by auto
next
  case (FHttp n body)
  with assms tells_request show ?thesis by (auto simp: onHttpRequest_def split: option.splits if_splits)
next
  case (FAnswered i e r)
  with assms tells_answer show ?thesis by simp
next
  case (FBlock g n b cb)
  with assms tells_block show ?thesis by auto
next
  case (FGroup gi cb)
  with assms tells_group show ?thesis by auto
next
  case FTick
  with assms tells_tick show ?thesis by auto
next
  case (FRenotify cb)
  with assms tells_renotify show ?thesis by auto
qed (use assms in \<open>auto simp: front_asyncNotifyAMOPMessage_def front_start_def front_stop_def front_setClientID_def
    intro!: tells_keep split: option.splits\<close>)

lemma tells_notes:
  assumes "tells F blocks s t" and "filter ((=) ss) (receivers F) = [ss]"
    and "sent_notes GROUP_NOTIFY ss (fr_out s) = map (group_text (fe_rpc F)) (told_groups (fr_manager s))"
  shows "sent_notes BLOCK_NOTIFY ss (fr_out t) = sent_notes BLOCK_NOTIFY ss (fr_out s) @ blocks \<and>
         sent_notes GROUP_NOTIFY ss (fr_out t) = map (group_text (fe_rpc F)) (told_groups (fr_manager t))"
  using assms by (auto simp: tells_def prefix_def)

interpretation notified: history_invariant "front_step E A D ep" "buildRpc_from E ni (topic_service fy) m am"
  "\<lambda>es s. (serves (initConfig (fy_nodeConfig fy)) s \<and> fr_senders s = concat (map (sender_of \<circ> snd) es) \<and> one_each s \<and> replies_ok s) \<and>
     (told_groups m = [] \<longrightarrow> (\<forall>(F, ev) \<in> set es. filter ((=) ss) (receivers F) = [ss]) \<longrightarrow>
        sent_notes BLOCK_NOTIFY ss (fr_out s) = concat (map (block_notes E \<circ> snd) es) \<and>
        sent_notes GROUP_NOTIFY ss (fr_out s) = map (group_text E) (told_groups (fr_manager s)))"
  for E A D ep ni fy m am ss
proof (standard, goal_cases)
  case 1
  have "told_groups (manager_registerNotifier m) = told_groups m"
    by (auto simp: told_groups_def manager_registerNotifier_def registerGroupInfoNotifier_def split: manager.split)
  then show ?case
    using relay.hinv_init by (simp add: buildRpc_from_def buildJsonRpc_def buildEventSub_def new_front_def)
next
  case (2 es s fe t)
  then obtain F ev where fe: "fe = (F, ev)" "front_apply F ev s = Some t" "fe_rpc F = E"
    by (auto elim!: front_step_cases simp: same_surroundings_def)
  have inv: "serves (initConfig (fy_nodeConfig fy)) t \<and> fr_senders t = concat (map (sender_of \<circ> snd) (es @ [fe])) \<and> one_each t \<and> replies_ok t"
    using relay.hinv_step [OF conjunct1 [OF 2(1)] 2(2)] .
  have "sent_typed t"
    unfolding sent_typed_def
  proof clarify
    fix tag body assume "(tag, body) \<in> set (jp_sent (fr_json t))"
    with inv have "tag < length (fr_senders t)" by (blast intro: one_each_sent)
    then have "fr_senders t ! tag \<in> set (concat (map (sender_of \<circ> snd) (es @ [fe])))"
      using inv by (metis nth_mem)
    then show "typed_sender (fr_senders t ! tag)" by (rule typed_senders)
  qed
  from tells_apply [OF fe(2) this] 2(1) have "tells F (block_notes E ev) s t" by (auto simp: fe(3))
  from tells_notes [OF this] 2(1) inv fe show ?case by auto
qed

text \<open>
  C24: notifications. A client that stays listed and connected is sent one message for every
  block notification of the nodes, with the group, the node and the number, in order, and none
  besides; and one message for every group description that the group manager passes to its
  notifier, on an announcement or when a node is lost, in order, and none besides.
\<close>

theorem front_notifications:
  assumes "run (front_step E A D ep) s0 es s"
    and "s0 = buildRpc E ni fy now gw \<or> s0 = buildLocalRpc E ni fy gi ns"
    and "\<And>F ev. (F, ev) \<in> set es \<Longrightarrow> filter ((=) ss) (receivers F) = [ss]"
  shows "sent_notes BLOCK_NOTIFY ss (fr_out s) = concat (map (block_notes E \<circ> snd) es) \<and>
         sent_notes GROUP_NOTIFY ss (fr_out s) = map (group_text E) (told_groups (fr_manager s))"
proof -
  obtain m am where s0: "s0 = buildRpc_from E ni (topic_service fy) m am" and m: "told_groups m = []"
  proof -
    have "told_groups (buildGroupManager (fy_chainID fy) now) = []"
      "told_groups (buildLocalGroupManager (fy_chainID fy) gi ns) = []"
      by (simp_all add: told_groups_def buildGroupManager_def buildLocalGroupManager_def new_gm_def)
    with assms(2) that show ?thesis by (auto simp: buildRpc_eq buildLocalRpc_eq)
  qed
  from assms(3) have "\<forall>(F, ev) \<in> set es. filter ((=) ss) (receivers F) = [ss]" by auto
  with notified.run_hinv [OF assms(1) [unfolded s0], of ss] m show ?thesis by blast
qed

lemma front_notifications_witness:
  "sent_notes GROUP_NOTIFY 1 (fr_out demo_front) =
     map (group_text demo_call) (told_groups (Remote demo_served)) \<and>
   sent_notes BLOCK_NOTIFY 1 (fr_out demo_front) = []"
proof -
  have r: "receivers (demo_front_env demo_call) = [1]"
    by (simp add: receivers_def demo_front_env_def List.map_filter_simps)
  show ?thesis
    using front_notifications [OF demo_front_run, of demo_node_info demo_factory 0 "''gw''" _ _ 1] r
    by (auto simp: demo_front_manager)
qed

end
